(* ===== verification/Go_Base.thy ===== *)
theory Go_Base
  imports Complex_Main "HOL-Library.AList" "HOL-Library.Multiset" "HOL-Library.Word"
begin

text \<open>
  The prelude of the development: what every component uses of the Go language.
  Run-time panics and error values, sequencing of steps that may panic, maps as association
  lists with distinct keys, and the choices the Go runtime makes (the order in which a map is
  ranged over, the order in which concurrent jobs are served, random numbers), which are
  arguments of the model. Log output (the zap logger, \<open>fmt.Println\<close>) has no effect on the
  program's results and is left out everywhere.
\<close>

named_theorems go_simps \<open>rewriting of sequenced Go steps\<close>
named_theorems go_maps \<open>lookups and updates of Go maps\<close>

section \<open>Panics and errors\<close>

text \<open>The run-time panics the modelled code can raise.\<close>

datatype go_panic =
    IndexOutOfRange
  | SliceBoundsOutOfRange
  | NilMapWrite
  | NilDereference
  | FailedTypeAssertion

text \<open>A step that may panic: \<open>Inl\<close> the panic, or \<open>Inr\<close> its result.\<close>

type_synonym 'a go = "go_panic + 'a"

text \<open>
  A value of Go's \<open>error\<close> interface is \<open>None\<close> for nil or \<open>Some\<close> error. The two sentinel
  errors of the program are compared by identity; every other error is known by its text.
\<close>

datatype go_error =
    ErrLabelNotFound
  | ErrPodCompleted
  | ErrText string

type_synonym err = "go_error option"

definition go_bind :: "'a go \<Rightarrow> ('a \<Rightarrow> 'b go) \<Rightarrow> 'b go" where
  "go_bind m f = (case m of Inl p \<Rightarrow> Inl p | Inr x \<Rightarrow> f x)"

lemma go_bind_Inl [simp, go_simps]: "go_bind (Inl p) f = Inl p"
  by (simp add: go_bind_def)

lemma go_bind_Inr [simp, go_simps]: "go_bind (Inr x) f = f x"
  by (simp add: go_bind_def)

lemma go_bind_eq_Inr_iff: "go_bind m f = Inr y \<longleftrightarrow> (\<exists>x. m = Inr x \<and> f x = Inr y)"
  by (cases m) simp_all

lemma go_bind_eq_Inl_iff:
  "go_bind m f = Inl p \<longleftrightarrow> m = Inl p \<or> (\<exists>x. m = Inr x \<and> f x = Inl p)"
  by (cases m) auto

lemma go_bind_assoc: "go_bind (go_bind m f) g = go_bind m (\<lambda>x. go_bind (f x) g)"
  by (cases m) simp_all

text \<open>A \<open>for\<close> loop whose body may panic; the first panic stops the loop.\<close>

primrec go_fold :: "('a \<Rightarrow> 's \<Rightarrow> 's go) \<Rightarrow> 'a list \<Rightarrow> 's \<Rightarrow> 's go" where
  "go_fold f [] s = Inr s"
| "go_fold f (x # xs) s = go_bind (f x s) (go_fold f xs)"

lemma go_fold_append: "go_fold f (xs @ ys) s = go_bind (go_fold f xs s) (go_fold f ys)"
proof (induction xs arbitrary: s)
  case Nil
  then show ?case by simp
next
  case (Cons x xs)
  then show ?case by (cases "f x s") simp_all
qed

lemma go_fold_map: "go_fold f (map g xs) s = go_fold (\<lambda>x. f (g x)) xs s"
proof (induction xs arbitrary: s)
  case Nil
  then show ?case by simp
next
  case (Cons x xs)
  then show ?case by (cases "f (g x) s") simp_all
qed

lemma go_fold_concat:
  "go_fold f (concat xss) s = go_fold (go_fold f) xss s"
proof (induction xss arbitrary: s)
  case Nil
  then show ?case by simp
next
  case (Cons xs xss)
  then show ?case by (cases "go_fold f xs s") (simp_all add: go_fold_append)
qed

lemma go_fold_filter:
  "go_fold f (filter P xs) s = go_fold (\<lambda>x s. if P x then f x s else Inr s) xs s"
proof (induction xs arbitrary: s)
  case Nil
  then show ?case by simp
next
  case (Cons x xs)
  then show ?case by (cases "f x s") simp_all
qed

lemma go_fold_cong:
  "(\<And>x s. x \<in> set xs \<Longrightarrow> f x s = g x s) \<Longrightarrow> go_fold f xs s = go_fold g xs s"
proof (induction xs arbitrary: s)
  case Nil
  then show ?case by simp
next
  case (Cons x xs)
  then have "f x s = g x s" and "\<And>s. go_fold f xs s = go_fold g xs s" by simp_all
  then show ?case by (cases "g x s") simp_all
qed

text \<open>An invariant that makes each step succeed makes the whole loop succeed and holds after it.\<close>

lemma go_fold_invariant:
  assumes "I s" and "\<And>x s. x \<in> set xs \<Longrightarrow> I s \<Longrightarrow> \<exists>s'. f x s = Inr s' \<and> I s'"
  shows "\<exists>s'. go_fold f xs s = Inr s' \<and> I s'"
  using assms
proof (induction xs arbitrary: s)
  case Nil
  then show ?case by simp
next
  case (Cons x xs)
  from Cons.prems obtain s1 where s1: "f x s = Inr s1" "I s1" by auto
  have "\<exists>s'. go_fold f xs s1 = Inr s' \<and> I s'"
    by (rule Cons.IH) (use s1 Cons.prems in auto)
  with s1 show ?case by simp
qed

text \<open>A loop whose body may panic or return an error; the first error ends the loop and is returned.\<close>

primrec err_loop :: "('a \<Rightarrow> 's \<Rightarrow> (err \<times> 's) go) \<Rightarrow> 'a list \<Rightarrow> 's \<Rightarrow> (err \<times> 's) go" where
  "err_loop f [] s = Inr (None, s)"
| "err_loop f (x # xs) s =
     go_bind (f x s) (\<lambda>(e, s1). if e \<noteq> None then Inr (e, s1) else err_loop f xs s1)"

lemma err_loop_append:
  "err_loop f (xs @ ys) s =
     go_bind (err_loop f xs s) (\<lambda>(e, s1). if e \<noteq> None then Inr (e, s1) else err_loop f ys s1)"
proof (induction xs arbitrary: s)
  case Nil
  then show ?case by simp
next
  case (Cons x xs)
  then show ?case by (cases "f x s") (auto split: prod.split)
qed

lemma err_loop_total:
  assumes "\<And>x s. x \<in> set xs \<Longrightarrow> \<exists>y. f x s = Inr y"
  shows "\<exists>y. err_loop f xs s = Inr y"
  using assms
proof (induction xs arbitrary: s)
  case Nil
  then show ?case by simp
next
  case (Cons x xs)
  then obtain e s1 where "f x s = Inr (e, s1)" by fastforce
  with Cons show ?case by simp
qed

text \<open>An invariant of the body holds when the loop ends, with or without an error.\<close>

lemma err_loop_invariant:
  assumes "err_loop f xs s = Inr (e, s')" and "I s"
    and "\<And>x s e s'. x \<in> set xs \<Longrightarrow> I s \<Longrightarrow> f x s = Inr (e, s') \<Longrightarrow> I s'"
  shows "I s'"
  using assms
proof (induction xs arbitrary: s)
  case Nil
  then show ?case by simp
next
  case (Cons x xs)
  from Cons.prems(1) obtain e1 s1 where s1: "f x s = Inr (e1, s1)"
    and rest: "(if e1 \<noteq> None then Inr (e1, s1) else err_loop f xs s1) = Inr (e, s')"
    by (auto simp: go_bind_eq_Inr_iff)
  have "I s1" using Cons.prems(2,3) s1 by (meson list.set_intros(1))
  show ?case
  proof (cases "e1 = None")
    case True
    with rest have "err_loop f xs s1 = Inr (e, s')" by simp
    then show ?thesis by (rule Cons.IH) (use \<open>I s1\<close> Cons.prems(3) in \<open>auto\<close>)
  next
    case False
    with rest \<open>I s1\<close> show ?thesis by simp
  qed
qed

text \<open>A property that each turn without error establishes for its element, and later turns keep.\<close>

lemma err_loop_each:
  assumes "err_loop f xs s = Inr (None, s')"
    and "\<And>x s s'. x \<in> set xs \<Longrightarrow> f x s = Inr (None, s') \<Longrightarrow> P x s'"
    and "\<And>x y s s'. x \<in> set xs \<Longrightarrow> y \<in> set xs \<Longrightarrow> P y s \<Longrightarrow> f x s = Inr (None, s') \<Longrightarrow> P y s'"
    and "x \<in> set xs"
  shows "P x s'"
proof -
  have keep: "P y s'" if "err_loop f ys s = Inr (None, s')" "P y s" "y \<in> set xs" "set ys \<subseteq> set xs" for y ys s
    using that
  proof (induction ys arbitrary: s)
    case Nil
    then show ?case by simp
  next
    case (Cons z zs)
    from Cons.prems(1) obtain s1 where "f z s = Inr (None, s1)" and "err_loop f zs s1 = Inr (None, s')"
      by (auto simp: go_bind_eq_Inr_iff split: if_splits)
    with Cons.IH [of s1] Cons.prems assms(3) [of z y s s1] show ?case by simp
  qed
  from assms(4) obtain us vs where xs: "xs = us @ x # vs" by (meson split_list)
  from assms(1) obtain s1 s2 where "f x s1 = Inr (None, s2)" and "err_loop f vs s2 = Inr (None, s')"
    by (auto simp: xs err_loop_append go_bind_eq_Inr_iff split: if_splits)
  with keep [of vs s2 x] assms(2) [of x s1 s2] assms(4) show ?thesis by (auto simp: xs)
qed

section \<open>Go maps\<close>

text \<open>
  A Go map is an association list with distinct keys: \<open>map_of\<close> reads it, \<open>AList.update\<close> writes
  it, \<open>AList.delete\<close> removes a key, \<open>List.length\<close> is \<open>len\<close>. The position of an entry in the
  list has no meaning of its own.
\<close>

type_synonym ('k, 'v) gomap = "('k \<times> 'v) list"

definition gomap_wf :: "('k, 'v) gomap \<Rightarrow> bool" where
  "gomap_wf m \<longleftrightarrow> distinct (map fst m)"

lemma gomap_wf_Nil [simp, go_maps]: "gomap_wf []"
  by (simp add: gomap_wf_def)

lemma gomap_wf_update [simp, go_maps]: "gomap_wf m \<Longrightarrow> gomap_wf (AList.update k v m)"
  by (simp add: gomap_wf_def distinct_update)

lemma gomap_wf_delete [simp, go_maps]: "gomap_wf m \<Longrightarrow> gomap_wf (AList.delete k m)"
  by (simp add: gomap_wf_def distinct_delete)

lemma map_of_update [go_maps]: "map_of (AList.update k v m) = (map_of m)(k \<mapsto> v)"
  by (simp add: update_conv')

lemma keys_update: "fst ` set (AList.update k v m) = insert k (fst ` set m)"
  by (simp add: dom_update)

lemma gomap_lookup_iff:
  "gomap_wf m \<Longrightarrow> map_of m k = Some v \<longleftrightarrow> (k, v) \<in> set m"
  by (simp add: gomap_wf_def)

lemma gomap_wf_distinct: "gomap_wf m \<Longrightarrow> distinct m"
  unfolding gomap_wf_def using distinct_map by blast

text \<open>Ranging over the same map in another order: permuted entries, the same lookups.\<close>

lemma map_of_permute:
  assumes "mset m = mset m'" and "gomap_wf m"
  shows "map_of m = map_of m'"
proof -
  have "mset (map fst m) = mset (map fst m')" using assms(1) by simp
  then have "distinct (map fst m')"
    using assms(2) mset_eq_imp_distinct_iff unfolding gomap_wf_def by blast
  moreover have "set m = set m'" using assms(1) by (rule mset_eq_setD)
  ultimately show ?thesis
    using assms(2) unfolding gomap_wf_def by (simp add: map_of_inject_set)
qed

section \<open>Choices of the Go runtime\<close>

text \<open>
  \<open>goOrder n w\<close> is the order in which the runtime visits \<open>n\<close> things whose order the language
  leaves open (the entries of a map, jobs served by goroutines), as a list of positions;
  \<open>randIntn n w\<close> is \<open>rand.Intn(n)\<close>. Both read and change the world \<open>'w\<close>, so that no two
  calls need agree.
\<close>

record 'w go_runtime =
  goOrder :: "nat \<Rightarrow> 'w \<Rightarrow> nat list \<times> 'w"
  randIntn :: "nat \<Rightarrow> 'w \<Rightarrow> nat \<times> 'w"

definition in_order :: "nat list \<Rightarrow> 'a list \<Rightarrow> 'a list" where
  "in_order is xs = map (\<lambda>i. xs ! i) is"

text \<open>What the language promises: every thing is visited exactly once, random numbers are in range.\<close>

definition order_law :: "('w, 'z) go_runtime_scheme \<Rightarrow> bool" where
  "order_law E \<longleftrightarrow> (\<forall>n w. mset (fst (goOrder E n w)) = mset [0..<n])"

definition rand_law :: "('w, 'z) go_runtime_scheme \<Rightarrow> bool" where
  "rand_law E \<longleftrightarrow> (\<forall>n w. 0 < n \<longrightarrow> fst (randIntn E n w) < n)"

lemma mset_in_order:
  assumes "mset is = mset [0..<length xs]"
  shows "mset (in_order is xs) = mset xs"
proof -
  have "mset (in_order is xs) = image_mset (\<lambda>i. xs ! i) (mset is)"
    by (simp add: in_order_def)
  also have "\<dots> = mset (map (\<lambda>i. xs ! i) [0..<length xs])"
    unfolding assms by (rule mset_map [symmetric])
  finally show ?thesis by (simp add: map_nth)
qed

lemma mset_goOrder:
  "order_law E \<Longrightarrow> goOrder E (length xs) w = (is, w') \<Longrightarrow> mset (in_order is xs) = mset xs"
  by (metis fst_conv mset_in_order order_law_def)

end
