(* ===== verification/Go_Strings.thy ===== *)
theory Go_Strings
  imports Go_Base
begin

text \<open>
  The functions of Go's \<open>strings\<close>, \<open>strconv\<close>, \<open>fmt\<close> and \<open>net\<close> packages that the program uses.
  A Go string is a sequence of bytes, here a list of (8-bit) characters. \<open>ToLower\<close> and
  \<open>TrimSpace\<close> are given on ASCII text, the only text the program passes to them.
\<close>

section \<open>Splitting and joining\<close>

text \<open>\<open>strings.Split(s, sep)\<close> for a separator of one character.\<close>

fun Split :: "char \<Rightarrow> string \<Rightarrow> string list" where
  "Split c [] = [[]]"
| "Split c (x # xs) =
     (if x = c then [] # Split c xs
      else (case Split c xs of [] \<Rightarrow> [[x]] | y # ys \<Rightarrow> (x # y) # ys))"

text \<open>\<open>strings.Join(xs, sep)\<close>.\<close>

fun Join :: "string \<Rightarrow> string list \<Rightarrow> string" where
  "Join sep [] = []"
| "Join sep [x] = x"
| "Join sep (x # y # ys) = x @ sep @ Join sep (y # ys)"

lemma Split_not_Nil [simp]: "Split c s \<noteq> []"
  by (induction s) (auto split: list.splits)

lemma length_Split: "length (Split c s) = Suc (count_list s c)"
proof (induction s)
  case Nil
  then show ?case by simp
next
  case (Cons x s)
  then show ?case by (cases "Split c s") auto
qed

lemma Split_no_sep: "c \<notin> set s \<Longrightarrow> Split c s = [s]"
  by (induction s) auto

lemma Split_append_sep: "c \<notin> set s \<Longrightarrow> Split c (s @ c # t) = s # Split c t"
  by (induction s) auto

lemma Split_pieces: "p \<in> set (Split c s) \<Longrightarrow> c \<notin> set p"
proof (induction s arbitrary: p)
  case Nil
  then show ?case by simp
next
  case (Cons x s)
  then show ?case by (cases "Split c s") (auto split: if_splits)
qed

text \<open>Splitting what was joined, and joining what was split.\<close>

lemma Split_Join:
  assumes "xs \<noteq> []" and "\<forall>x \<in> set xs. c \<notin> set x"
  shows "Split c (Join [c] xs) = xs"
  using assms
proof (induction "[c]" xs rule: Join.induct)
  case 1
  then show ?case by simp
next
  case (2 x)
  then show ?case by (simp add: Split_no_sep)
next
  case (3 x y ys)
  then show ?case by (simp add: Split_append_sep)
qed

lemma Join_Cons: "ys \<noteq> [] \<Longrightarrow> Join sep (x # ys) = x @ sep @ Join sep ys"
  by (cases ys) simp_all

lemma Join_Cons_append: "Join sep ((x # y) # ys) = x # Join sep (y # ys)"
  by (cases ys) simp_all

lemma Join_Split: "Join [c] (Split c s) = s"
proof (induction s)
  case Nil
  then show ?case by simp
next
  case (Cons x s)
  then obtain y ys where s: "Split c s = y # ys" by (cases "Split c s") auto
  show ?case
  proof (cases "x = c")
    case True
    then show ?thesis using Cons by (simp add: Join_Cons)
  next
    case False
    then show ?thesis using Cons s by (simp add: Join_Cons_append)
  qed
qed

section \<open>Searching and trimming\<close>

text \<open>\<open>strings.Index(s, sub)\<close>: the first position of \<open>sub\<close>, \<open>None\<close> for the source's \<open>-1\<close>.\<close>

fun Index :: "string \<Rightarrow> string \<Rightarrow> nat option" where
  "Index [] sub = (if sub = [] then Some 0 else None)"
| "Index (x # xs) sub =
     (if take (length sub) (x # xs) = sub then Some 0 else map_option Suc (Index xs sub))"

definition Contains :: "string \<Rightarrow> string \<Rightarrow> bool" where
  "Contains s sub \<longleftrightarrow> Index s sub \<noteq> None"

lemma Index_SomeD: "Index s sub = Some i \<Longrightarrow> take (length sub) (drop i s) = sub"
proof (induction s arbitrary: i)
  case Nil
  then show ?case by (auto split: if_splits)
next
  case (Cons x s)
  then show ?case by (cases i) (auto split: if_splits)
qed

lemma Index_first:
  "Index s sub = Some i \<Longrightarrow> j < i \<Longrightarrow> take (length sub) (drop j s) \<noteq> sub"
proof (induction s arbitrary: i j)
  case Nil
  then show ?case by (auto split: if_splits)
next
  case (Cons x s)
  then show ?case by (cases j) (auto split: if_splits)
qed

lemma Index_NoneD: "Index s sub = None \<Longrightarrow> take (length sub) (drop j s) \<noteq> sub"
proof (induction s arbitrary: j)
  case Nil
  then show ?case by (auto split: if_splits)
next
  case (Cons x s)
  then show ?case by (cases j) (auto split: if_splits)
qed

lemma Contains_iff: "Contains s sub \<longleftrightarrow> (\<exists>a b. s = a @ sub @ b)"
proof
  assume "Contains s sub"
  then obtain i where "Index s sub = Some i" by (auto simp: Contains_def)
  then have "take (length sub) (drop i s) = sub" by (rule Index_SomeD)
  then have "s = take i s @ sub @ drop (length sub) (drop i s)"
    by (metis append_take_drop_id)
  then show "\<exists>a b. s = a @ sub @ b" by blast
next
  assume "\<exists>a b. s = a @ sub @ b"
  then obtain a b where "s = a @ sub @ b" by blast
  then have "take (length sub) (drop (length a) s) = sub" by simp
  then show "Contains s sub"
    unfolding Contains_def using Index_NoneD by blast
qed

text \<open>The characters \<open>strings.TrimSpace\<close> removes: tab, newline, vertical tab, form feed, return, blank.\<close>

definition is_space :: "char \<Rightarrow> bool" where
  "is_space c \<longleftrightarrow> (of_char c :: nat) \<in> {9, 10, 11, 12, 13, 32}"

definition TrimSpace :: "string \<Rightarrow> string" where
  "TrimSpace s = rev (dropWhile is_space (rev (dropWhile is_space s)))"

lemma TrimSpace_id:
  assumes "s = [] \<or> (\<not> is_space (hd s) \<and> \<not> is_space (last s))"
  shows "TrimSpace s = s"
proof (cases "s = []")
  case True
  then show ?thesis by (simp add: TrimSpace_def)
next
  case False
  with assms have "\<not> is_space (hd s)" "\<not> is_space (hd (rev s))" by (auto simp: hd_rev)
  with False have "dropWhile is_space s = s" "dropWhile is_space (rev s) = rev s"
    by (auto simp: dropWhile_eq_self_iff)
  then show ?thesis by (simp add: TrimSpace_def)
qed

lemma hd_dropWhile_not: "dropWhile P xs \<noteq> [] \<Longrightarrow> \<not> P (hd (dropWhile P xs))"
  by (induction xs) auto

lemma last_dropWhile: "dropWhile P xs \<noteq> [] \<Longrightarrow> last (dropWhile P xs) = last xs"
  by (induction xs) auto

lemma TrimSpace_ends:
  "TrimSpace s \<noteq> [] \<Longrightarrow> \<not> is_space (hd (TrimSpace s)) \<and> \<not> is_space (last (TrimSpace s))"
proof -
  let ?t = "dropWhile is_space s"
  let ?u = "dropWhile is_space (rev ?t)"
  assume "TrimSpace s \<noteq> []"
  then have u: "?u \<noteq> []" by (simp add: TrimSpace_def)
  then have t: "?t \<noteq> []" by fastforce
  have "\<not> is_space (hd ?u)" using u by (rule hd_dropWhile_not)
  moreover have "last ?u = hd ?t" using u t by (simp add: last_dropWhile last_rev)
  moreover have "\<not> is_space (hd ?t)" using t by (rule hd_dropWhile_not)
  ultimately show ?thesis using u by (simp add: TrimSpace_def hd_rev last_rev)
qed

lemma TrimSpace_idem [simp]: "TrimSpace (TrimSpace s) = TrimSpace s"
  using TrimSpace_ends TrimSpace_id by blast

section \<open>Decimal numbers\<close>

definition digit_char :: "nat \<Rightarrow> char" where
  "digit_char d = ''0123456789'' ! d"

fun dec_nat :: "nat \<Rightarrow> string" where
  "dec_nat n = (if n < 10 then [digit_char n] else dec_nat (n div 10) @ [digit_char (n mod 10)])"

declare dec_nat.simps [simp del]

text \<open>\<open>strconv.Itoa\<close>, and the verb \<open>%d\<close> of \<open>fmt\<close>.\<close>

definition Itoa :: "int \<Rightarrow> string" where
  "Itoa i = (if i < 0 then ''-'' @ dec_nat (nat (- i)) else dec_nat (nat i))"

definition dec_value :: "string \<Rightarrow> nat" where
  "dec_value s = foldl (\<lambda>a c. 10 * a + (of_char c - 48)) 0 s"

definition decimal :: "char set" where
  "decimal = set ''0123456789''"

lemma digit_char_cases:
  assumes "d < 10"
  shows "digit_char d \<in> decimal" and "of_char (digit_char d) = d + (48::nat)"
proof -
  have "d \<in> {0, 1, 2, 3, 4, 5, 6, 7, 8, 9}" using assms by auto
  then show "digit_char d \<in> decimal" and "of_char (digit_char d) = d + (48::nat)"
    by (auto simp: digit_char_def decimal_def)
qed

lemma dec_nat_digits: "set (dec_nat n) \<subseteq> decimal"
proof (induction n rule: dec_nat.induct)
  case (1 n)
  then show ?case
    by (subst dec_nat.simps) (use digit_char_cases(1) [of n] digit_char_cases(1) [of "n mod 10"] in auto)
qed

lemma dec_nat_not_Nil [simp]: "dec_nat n \<noteq> []"
  by (subst dec_nat.simps) simp

lemma dec_value_snoc: "dec_value (s @ [c]) = 10 * dec_value s + (of_char c - 48)"
  by (simp add: dec_value_def)

lemma dec_value_dec_nat: "dec_value (dec_nat n) = n"
proof (induction n rule: dec_nat.induct)
  case (1 n)
  show ?case
  proof (cases "n < 10")
    case True
    then show ?thesis
      by (subst dec_nat.simps) (simp add: dec_value_def digit_char_cases)
  next
    case False
    with 1 have "dec_value (dec_nat (n div 10)) = n div 10" by simp
    with False show ?thesis
      by (subst dec_nat.simps) (simp add: dec_value_snoc digit_char_cases)
  qed
qed

lemma dec_nat_inject [simp]: "dec_nat m = dec_nat n \<longleftrightarrow> m = n"
  by (metis dec_value_dec_nat)

lemma dec_nat_length: "0 < k \<Longrightarrow> n < 10 ^ k \<Longrightarrow> length (dec_nat n) \<le> k"
proof (induction n arbitrary: k rule: dec_nat.induct)
  case (1 n)
  show ?case
  proof (cases "n < 10")
    case True
    then show ?thesis using 1 by (subst dec_nat.simps) simp
  next
    case False
    with "1.prems" have k: "1 < k" by (cases "k = 1") auto
    have "n div 10 < 10 ^ (k - 1)"
    proof -
      have "n < 10 ^ (k - 1) * 10" using "1.prems" by (metis mult.commute power_eq_if not_gr_zero)
      then show ?thesis by (simp add: less_mult_imp_div_less)
    qed
    with False k have "length (dec_nat (n div 10)) \<le> k - 1" by (intro 1) auto
    with False k show ?thesis by (subst dec_nat.simps) simp
  qed
qed

lemma Itoa_chars: "set (Itoa i) \<subseteq> insert (CHR ''-'') decimal"
  using dec_nat_digits [of "nat i"] dec_nat_digits [of "nat (- i)"]
  by (auto simp: Itoa_def)

lemma Itoa_not_Nil [simp]: "Itoa i \<noteq> []"
  by (simp add: Itoa_def)

lemma Itoa_nonneg_digits: "0 \<le> i \<Longrightarrow> set (Itoa i) \<subseteq> decimal"
  using dec_nat_digits by (simp add: Itoa_def)

lemma dash_not_dec_nat: "CHR ''-'' \<notin> set (dec_nat n)"
  using dec_nat_digits [of n] by (auto simp: decimal_def)

lemma Itoa_inject [simp]: "Itoa i = Itoa j \<longleftrightarrow> i = j"
proof
  assume eq: "Itoa i = Itoa j"
  show "i = j"
  proof (cases "i < 0 \<longleftrightarrow> j < 0")
    case True
    with eq show ?thesis by (auto simp: Itoa_def eq_nat_nat_iff split: if_splits)
  next
    case False
    with eq have "CHR ''-'' \<in> set (dec_nat (nat i)) \<or> CHR ''-'' \<in> set (dec_nat (nat j))"
      by (auto simp: Itoa_def split: if_splits) (metis list.set_intros(1))+
    with dash_not_dec_nat show ?thesis by blast
  qed
qed simp

text \<open>A separator that occurs in neither prefix fixes both sides of it.\<close>

lemma sep_append_inject:
  assumes "c \<notin> set a" and "c \<notin> set b"
  shows "a @ c # s = b @ c # t \<longleftrightarrow> a = b \<and> s = t"
  using assms
proof (induction a arbitrary: b)
  case Nil
  then show ?case by (cases b) auto
next
  case (Cons x a)
  then show ?case by (cases b) auto
qed

text \<open>A text ending in a dash and a number: the number is what follows the last dash.\<close>

lemma dash_number_inject:
  assumes "s @ ''-'' @ dec_nat m = t @ ''-'' @ dec_nat n"
  shows "s = t \<and> m = n"
proof -
  have "rev (dec_nat m) @ CHR ''-'' # rev s = rev (dec_nat n) @ CHR ''-'' # rev t"
    using arg_cong [OF assms, of rev] by simp
  then have "rev (dec_nat m) = rev (dec_nat n) \<and> rev s = rev t"
    using dash_not_dec_nat by (subst (asm) sep_append_inject) auto
  then show ?thesis by simp
qed

section \<open>Lower case\<close>

definition lower_char :: "char \<Rightarrow> char" where
  "lower_char c = (let n = of_char c :: nat in if 65 \<le> n \<and> n \<le> 90 then char_of (n + 32) else c)"

definition ToLower :: "string \<Rightarrow> string" where
  "ToLower s = map lower_char s"

lemma length_ToLower [simp]: "length (ToLower s) = length s"
  by (simp add: ToLower_def)

section \<open>Host and port\<close>

text \<open>\<open>net.JoinHostPort\<close>: a host with a colon (an IPv6 literal) is put in brackets.\<close>

definition JoinHostPort :: "string \<Rightarrow> string \<Rightarrow> string" where
  "JoinHostPort host port =
     (if CHR '':'' \<in> set host then ''['' @ host @ '']:'' @ port else host @ '':'' @ port)"

end
