(* ===== verification/Go_Float.thy ===== *)
theory Go_Float
  imports Go_Strings
begin

text \<open>
  Go's \<open>float64\<close> as far as the bandwidth measurements use it: finite values are exact rationals,
  every operation rounds its exact result to the nearest representable number, ties to even.
  The sign of zero is not represented.
\<close>

datatype float64 = Fin rat | PInf | NInf | NaN

section \<open>Rounding\<close>

definition rnd_even :: "rat \<Rightarrow> int" where
  "rnd_even x =
     (let f = \<lfloor>x\<rfloor>; d = x - of_int f
      in if d < 1 / 2 then f else if 1 / 2 < d then f + 1 else if even f then f else f + 1)"

definition pow2 :: "int \<Rightarrow> rat" where
  "pow2 e = (if 0 \<le> e then 2 ^ nat e else 1 / 2 ^ nat (- e))"

fun bit_length :: "nat \<Rightarrow> nat" where
  "bit_length n = (if n = 0 then 0 else Suc (bit_length (n div 2)))"

declare bit_length.simps [simp del]

text \<open>The exponent \<open>e\<close> of a positive number in the binade from \<open>2\<^sup>e\<close> to \<open>2\<^sup>e\<^sup>+\<^sup>1\<close>.\<close>

definition exponent :: "rat \<Rightarrow> int" where
  "exponent x =
     (let (a, b) = quotient_of x; e = int (bit_length (nat a)) - int (bit_length (nat b))
      in if pow2 e \<le> x then e else e - 1)"

text \<open>Rounding to \<open>p\<close> bits with exponents from \<open>emin\<close> to \<open>emax\<close>; above that lies infinity.\<close>

definition ulp_exponent :: "nat \<Rightarrow> int \<Rightarrow> rat \<Rightarrow> int" where
  "ulp_exponent p emin x = max (exponent \<bar>x\<bar>) emin - int p + 1"

definition round_value :: "nat \<Rightarrow> int \<Rightarrow> rat \<Rightarrow> rat" where
  "round_value p emin x =
     (let q = ulp_exponent p emin x in of_int (rnd_even (x / pow2 q)) * pow2 q)"

definition round_float :: "nat \<Rightarrow> int \<Rightarrow> int \<Rightarrow> rat \<Rightarrow> float64" where
  "round_float p emin emax x =
     (if x = 0 then Fin 0
      else (let y = round_value p emin x
            in if pow2 (emax + 1) \<le> \<bar>y\<bar> then (if 0 < x then PInf else NInf) else Fin y))"

definition round64 :: "rat \<Rightarrow> float64" where
  "round64 = round_float 53 (- 1022) 1023"

definition round32 :: "rat \<Rightarrow> float64" where
  "round32 = round_float 24 (- 126) 127"

section \<open>The operations in use\<close>

text \<open>Division by a positive constant, and comparison with a constant.\<close>

fun f64_div :: "float64 \<Rightarrow> rat \<Rightarrow> float64" where
  "f64_div (Fin x) c = round64 (x / c)"
| "f64_div PInf c = PInf"
| "f64_div NInf c = NInf"
| "f64_div NaN c = NaN"

fun f64_less :: "float64 \<Rightarrow> rat \<Rightarrow> bool" where
  "f64_less (Fin x) c \<longleftrightarrow> x < c"
| "f64_less PInf c \<longleftrightarrow> False"
| "f64_less NInf c \<longleftrightarrow> True"
| "f64_less NaN c \<longleftrightarrow> False"

text \<open>The verb \<open>%f\<close>: six decimals, rounded from the exact value.\<close>

definition pad_left :: "nat \<Rightarrow> string \<Rightarrow> string" where
  "pad_left n s = replicate (n - length s) CHR ''0'' @ s"

fun Sprintf_f :: "float64 \<Rightarrow> string" where
  "Sprintf_f (Fin x) =
     (let n = nat (rnd_even (\<bar>x\<bar> * 1000000))
      in (if x < 0 then ''-'' else '''') @ dec_nat (n div 1000000) @ ''.'' @
         pad_left 6 (dec_nat (n mod 1000000)))"
| "Sprintf_f PInf = ''+Inf''"
| "Sprintf_f NInf = ''-Inf''"
| "Sprintf_f NaN = ''NaN''"

section \<open>Facts about rounding\<close>

lemma rnd_even_bounds: "x - 1 / 2 \<le> of_int (rnd_even x)" "of_int (rnd_even x) \<le> x + 1 / 2"
proof -
  have f: "of_int \<lfloor>x\<rfloor> \<le> x" "x < of_int \<lfloor>x\<rfloor> + 1" by linarith+
  have "rnd_even x = \<lfloor>x\<rfloor> \<and> x - of_int \<lfloor>x\<rfloor> \<le> 1 / 2 \<or>
        rnd_even x = \<lfloor>x\<rfloor> + 1 \<and> 1 / 2 \<le> x - of_int \<lfloor>x\<rfloor>"
    unfolding rnd_even_def Let_def by (simp add: not_less del: diff_le_eq le_diff_eq)
  with f have "x - 1 / 2 \<le> of_int (rnd_even x) \<and> of_int (rnd_even x) \<le> x + 1 / 2"
    by (elim disjE conjE) (simp_all only: of_int_add of_int_1, linarith+)
  then show "x - 1 / 2 \<le> of_int (rnd_even x)" "of_int (rnd_even x) \<le> x + 1 / 2" by simp_all
qed

lemma rnd_even_of_int [simp]: "rnd_even (of_int n) = n"
  by (simp add: rnd_even_def)

lemma rnd_even_less: "x < of_int n - 1 / 2 \<Longrightarrow> rnd_even x < n"
  using rnd_even_bounds(2) [of x] by linarith

lemma rnd_even_ge: "of_int n \<le> x \<Longrightarrow> n \<le> rnd_even x"
proof -
  assume "of_int n \<le> x"
  then have "n \<le> \<lfloor>x\<rfloor>" by linarith
  then show ?thesis by (auto simp: rnd_even_def Let_def)
qed

lemma rnd_even_le: "x \<le> of_int n \<Longrightarrow> rnd_even x \<le> n"
  using rnd_even_bounds(2) [of x] rnd_even_of_int [of n]
  by (cases "x = of_int n") (simp, linarith)

lemma pow2_pos [simp]: "0 < pow2 e"
  by (simp add: pow2_def)

lemma pow2_nonzero [simp]: "pow2 e \<noteq> 0"
  using pow2_pos [of e] by linarith

lemma pow2_add: "pow2 (a + b) = pow2 a * pow2 b"
proof -
  have p: "pow2 e = 2 powi e" for e
    by (simp add: pow2_def power_int_def inverse_eq_divide power_divide)
  show ?thesis unfolding p by (rule power_int_add) simp
qed

lemma pow2_mono: "a \<le> b \<Longrightarrow> pow2 a \<le> pow2 b"
proof -
  assume "a \<le> b"
  then have "pow2 b = pow2 a * pow2 (b - a)" by (simp add: pow2_add [symmetric])
  moreover have "1 \<le> pow2 (b - a)" using \<open>a \<le> b\<close> by (simp add: pow2_def)
  ultimately show ?thesis using mult_left_mono [of 1 "pow2 (b - a)" "pow2 a"] by (simp add: less_imp_le)
qed

lemma bit_length_bounds: "0 < n \<Longrightarrow> 2 ^ (bit_length n - 1) \<le> n \<and> n < 2 ^ bit_length n \<and> 0 < bit_length n"
proof (induction n rule: bit_length.induct)
  case (1 n)
  show ?case
  proof (cases "n = 1")
    case True
    then show ?thesis by (simp add: bit_length.simps)
  next
    case False
    with "1.prems" have d: "0 < n div 2" by simp
    with "1.prems" "1.IH" have IH: "2 ^ (bit_length (n div 2) - 1) \<le> n div 2"
      "n div 2 < 2 ^ bit_length (n div 2)" "0 < bit_length (n div 2)" by auto
    have b: "bit_length n = Suc (bit_length (n div 2))"
      using "1.prems" by (subst bit_length.simps) simp
    have "2 * 2 ^ (bit_length (n div 2) - 1) = (2::nat) ^ bit_length (n div 2)"
      using IH(3) by (cases "bit_length (n div 2)") auto
    then have "2 ^ bit_length (n div 2) \<le> n" using IH(1) by linarith
    moreover have "n < 2 * 2 ^ bit_length (n div 2)" using IH(2) by linarith
    ultimately show ?thesis by (simp add: b)
  qed
qed

lemma exponent_bounds:
  assumes "0 < x"
  shows "pow2 (exponent x) \<le> x" and "x < pow2 (exponent x + 1)"
proof -
  obtain a b where q: "quotient_of x = (a, b)" by (cases "quotient_of x")
  have b: "0 < b" using quotient_of_denom_pos [OF q] .
  have x: "x = of_int a / of_int b" using quotient_of_div [OF q] .
  with assms b have a: "0 < a" by (simp add: zero_less_divide_iff)
  define m n where "m = bit_length (nat a)" and "n = bit_length (nat b)"
  have pn: "pow2 (int k) = 2 ^ k" for k by (simp add: pow2_def)
  have A: "pow2 (int m - 1) \<le> of_int a" "of_int a < pow2 (int m)" and
       B: "pow2 (int n - 1) \<le> of_int b" "of_int b < pow2 (int n)"
  proof -
    have ma: "2 ^ (m - 1) \<le> nat a" "nat a < 2 ^ m" "0 < m"
      using bit_length_bounds [of "nat a"] a by (auto simp: m_def)
    have nb: "2 ^ (n - 1) \<le> nat b" "nat b < 2 ^ n" "0 < n"
      using bit_length_bounds [of "nat b"] b by (auto simp: n_def)
    have e: "int m - 1 = int (m - 1)" "int n - 1 = int (n - 1)" using ma(3) nb(3) by auto
    have a': "of_int a = (of_nat (nat a) :: rat)" and b': "of_int b = (of_nat (nat b) :: rat)"
      using a b by simp_all
    show "pow2 (int m - 1) \<le> of_int a" "of_int a < pow2 (int m)"
      unfolding e pn a' using ma(1,2) by (metis of_nat_le_iff of_nat_numeral of_nat_power)
        (metis ma(2) of_nat_less_iff of_nat_numeral of_nat_power)
    show "pow2 (int n - 1) \<le> of_int b" "of_int b < pow2 (int n)"
      unfolding e pn b' using nb(1,2) by (metis of_nat_le_iff of_nat_numeral of_nat_power)
        (metis nb(2) of_nat_less_iff of_nat_numeral of_nat_power)
  qed
  have b0: "(0::rat) < of_int b" using b by simp
  let ?e = "int m - int n"
  have "pow2 (?e - 1) * of_int b < pow2 (?e - 1) * pow2 (int n)" using B(2) by simp
  also have "\<dots> = pow2 (int m - 1)" by (simp add: pow2_add [symmetric])
  also have "\<dots> \<le> of_int a" by (rule A(1))
  finally have lo: "pow2 (?e - 1) < x" unfolding x using b0 by (simp add: pos_less_divide_eq)
  have "of_int a < pow2 (int m)" by (rule A(2))
  also have "\<dots> = pow2 (?e + 1) * pow2 (int n - 1)" by (simp add: pow2_add [symmetric])
  also have "\<dots> \<le> pow2 (?e + 1) * of_int b" using B(1) by simp
  finally have hi: "x < pow2 (?e + 1)" unfolding x using b0 by (simp add: pos_divide_less_eq)
  have ex: "exponent x = (if pow2 ?e \<le> x then ?e else ?e - 1)"
    by (simp add: exponent_def q m_def n_def Let_def)
  show "pow2 (exponent x) \<le> x" and "x < pow2 (exponent x + 1)"
    using lo hi by (auto simp: ex)
qed

lemma exponent_eqI:
  assumes "pow2 e \<le> x" and "x < pow2 (e + 1)"
  shows "exponent x = e"
proof -
  have x: "0 < x" using assms(1) pow2_pos [of e] by linarith
  note b = exponent_bounds [OF x]
  have "\<not> exponent x < e"
  proof
    assume "exponent x < e"
    then have "pow2 (exponent x + 1) \<le> pow2 e" by (intro pow2_mono) simp
    with b(2) assms(1) show False by simp
  qed
  moreover have "\<not> e < exponent x"
  proof
    assume "e < exponent x"
    then have "pow2 (e + 1) \<le> pow2 (exponent x)" by (intro pow2_mono) simp
    with b(1) assms(2) show False by simp
  qed
  ultimately show ?thesis by simp
qed

text \<open>Rounding moves a number by at most half a unit in the last place.\<close>

lemma round_value_error: "\<bar>round_value p emin x - x\<bar> \<le> pow2 (ulp_exponent p emin x) / 2"
proof -
  let ?q = "pow2 (ulp_exponent p emin x)" and ?y = "round_value p emin x"
  have y: "?y = of_int (rnd_even (x / ?q)) * ?q"
    by (simp add: round_value_def Let_def)
  have "\<bar>of_int (rnd_even (x / ?q)) - x / ?q\<bar> \<le> 1 / 2"
  proof (rule abs_leI)
    show "of_int (rnd_even (x / ?q)) - x / ?q \<le> 1 / 2"
      using rnd_even_bounds(2) [of "x / ?q"] by linarith
    show "- (of_int (rnd_even (x / ?q)) - x / ?q) \<le> 1 / 2"
      using rnd_even_bounds(1) [of "x / ?q"] by linarith
  qed
  then have "\<bar>of_int (rnd_even (x / ?q)) - x / ?q\<bar> * ?q \<le> 1 / 2 * ?q"
    by (intro mult_right_mono) (simp_all add: less_imp_le)
  moreover have "\<bar>of_int (rnd_even (x / ?q)) - x / ?q\<bar> * ?q = \<bar>?y - x\<bar>"
  proof -
    have q: "0 < ?q" by simp
    then have "\<bar>of_int (rnd_even (x / ?q)) - x / ?q\<bar> * ?q = \<bar>(of_int (rnd_even (x / ?q)) - x / ?q) * ?q\<bar>"
      by (simp only: abs_mult abs_of_pos)
    also have "(of_int (rnd_even (x / ?q)) - x / ?q) * ?q = ?y - x"
      unfolding y left_diff_distrib using q by simp
    finally show ?thesis .
  qed
  ultimately show ?thesis by simp
qed

section \<open>A comparison that survives rounding\<close>

text \<open>
  Dividing a \<open>float64\<close> by eight million and comparing with ten is exact, though the quotient is
  rounded: no representable number below eighty million is rounded up to the limit.
\<close>

lemma round64_grid:
  assumes "round64 x = Fin x" and "pow2 26 \<le> x"
  shows "\<exists>k. x = of_int k * pow2 (- 26)"
proof -
  have "0 < x" by (rule less_le_trans [OF pow2_pos assms(2)])
  then have x: "x \<noteq> 0" "0 < x" by simp_all
  let ?q = "ulp_exponent 53 (- 1022) x"
  have e: "26 \<le> exponent x"
  proof (rule ccontr)
    assume "\<not> 26 \<le> exponent x"
    then have "pow2 (exponent x + 1) \<le> pow2 26" by (intro pow2_mono) simp
    with exponent_bounds(2) [OF x(2)] assms(2) show False by simp
  qed
  then have q: "?q = (?q + 26) + (- 26)" "0 \<le> ?q + 26"
    using x by (auto simp: ulp_exponent_def)
  have "x = round_value 53 (- 1022) x"
    using assms(1) x by (auto simp: round64_def round_float_def Let_def split: if_splits)
  also have "\<dots> = of_int (rnd_even (x / pow2 ?q)) * (pow2 (?q + 26) * pow2 (- 26))"
    unfolding round_value_def Let_def pow2_add [symmetric] by simp
  also have "pow2 (?q + 26) = of_int (2 ^ nat (?q + 26))"
    using q(2) by (simp add: pow2_def)
  finally show ?thesis by (metis mult.assoc of_int_mult)
qed

lemma f64_less_round64:
  assumes "0 < y" and "c < pow2 1023"
  shows "f64_less (round64 y) c \<longleftrightarrow> round_value 53 (- 1022) y < c"
proof -
  have "pow2 1023 \<le> pow2 (1023 + 1)" by (rule pow2_mono) simp
  moreover have "0 \<le> round_value 53 (- 1022) y"
    unfolding round_value_def Let_def
    using assms(1) rnd_even_ge [of 0] by (simp add: less_imp_le)
  ultimately show ?thesis using assms
    by (auto simp: round64_def round_float_def Let_def)
qed

text \<open>The largest multiple of \<open>2\<^sup>-\<^sup>2\<^sup>6\<close> below eighty million is a whole step below it.\<close>

lemma below_limit_step:
  assumes "x = of_int k * pow2 (- 26)" and "x < 80000000"
  shows "x \<le> 80000000 - pow2 (- 26)"
proof -
  have p: "pow2 (- 26) = 1 / 67108864" by (simp add: pow2_def)
  have "of_int k < (80000000 * 67108864 :: rat)" using assms by (simp add: p)
  then have "k < 80000000 * 67108864" by linarith
  then have "k \<le> 80000000 * 67108864 - 1" by linarith
  then have "(of_int k :: rat) \<le> of_int (80000000 * 67108864 - 1)" by (simp only: of_int_le_iff)
  then show ?thesis unfolding assms(1) p by simp
qed

lemma ulp_exponent_3: "8 \<le> y \<Longrightarrow> y < 16 \<Longrightarrow> ulp_exponent 53 (- 1022) y = - 49"
  using exponent_eqI [of 3 y] by (simp add: ulp_exponent_def pow2_def)

lemma round_value_below_10:
  assumes "round64 x = Fin x" and "x < 80000000" and "0 < x"
  shows "round_value 53 (- 1022) (x / 8000000) < 10"
proof (cases "x < 68000000")
  case True
  let ?y = "x / 8000000"
  have y: "0 < ?y" "?y < 8.5" using True assms(3) by simp_all
  have "exponent ?y \<le> 3"
  proof (rule ccontr)
    assume "\<not> exponent ?y \<le> 3"
    then have "pow2 4 \<le> pow2 (exponent ?y)" by (intro pow2_mono) simp
    with exponent_bounds(1) [OF y(1)] have "pow2 4 \<le> ?y" by linarith
    with y(2) show False by (simp add: pow2_def)
  qed
  then have "pow2 (ulp_exponent 53 (- 1022) ?y) \<le> pow2 (- 49)"
    using y by (intro pow2_mono) (simp add: ulp_exponent_def)
  moreover have "pow2 (- 49) \<le> 1" by (simp add: pow2_def)
  ultimately show ?thesis
    using round_value_error [of 53 "- 1022" ?y] y(2) by linarith
next
  case False
  let ?y = "x / 8000000"
  have "pow2 26 \<le> x" using False by (simp add: pow2_def)
  with assms(1) obtain k where "x = of_int k * pow2 (- 26)" using round64_grid by blast
  then have "x \<le> 80000000 - pow2 (- 26)" using assms(2) below_limit_step by blast
  then have x: "x * 67108864 \<le> 80000000 * 67108864 - 1" by (simp add: pow2_def)
  have u: "ulp_exponent 53 (- 1022) ?y = - 49"
    using False assms(2) by (intro ulp_exponent_3) simp_all
  have p: "pow2 (- 49) = 1 / 562949953421312" by (simp add: pow2_def)
  have "?y / pow2 (- 49) < of_int (10 * 562949953421312) - 1 / 2"
    using x unfolding p by simp
  then have "rnd_even (?y / pow2 (- 49)) < 10 * 562949953421312" by (rule rnd_even_less)
  then have "(of_int (rnd_even (?y / pow2 (- 49))) :: rat) < of_int (10 * 562949953421312)"
    by (simp only: of_int_less_iff)
  then show ?thesis unfolding round_value_def u Let_def p by simp
qed

lemma round_value_at_least_10:
  assumes "80000000 \<le> x"
  shows "10 \<le> round_value 53 (- 1022) (x / 8000000)"
proof -
  let ?y = "x / 8000000"
  have y: "10 \<le> ?y" "0 < ?y" using assms by simp_all
  show ?thesis
  proof (cases "?y < 16")
    case True
    have u: "ulp_exponent 53 (- 1022) ?y = - 49" using True y by (intro ulp_exponent_3) simp_all
    have p: "pow2 (- 49) = 1 / 562949953421312" by (simp add: pow2_def)
    have "of_int (10 * 562949953421312) \<le> ?y / pow2 (- 49)" unfolding p using y by simp
    then have "10 * 562949953421312 \<le> rnd_even (?y / pow2 (- 49))" by (rule rnd_even_ge)
    then have "(of_int (10 * 562949953421312) :: rat) \<le> of_int (rnd_even (?y / pow2 (- 49)))"
      by (simp only: of_int_le_iff)
    then show ?thesis unfolding round_value_def u Let_def p by simp
  next
    case False
    let ?e = "exponent ?y"
    note b = exponent_bounds [OF y(2)]
    have e: "4 \<le> ?e"
    proof (rule ccontr)
      assume "\<not> 4 \<le> ?e"
      then have "pow2 (?e + 1) \<le> pow2 4" by (intro pow2_mono) simp
      with b(2) have "?y < pow2 4" by linarith
      with False show False by (simp add: pow2_def)
    qed
    have "\<bar>?y\<bar> = ?y" using y(2) by (rule abs_of_pos)
    then have u: "ulp_exponent 53 (- 1022) ?y = ?e - 52"
      using e unfolding ulp_exponent_def by simp
    have p: "pow2 ?e = pow2 52 * pow2 (?e - 52)" by (simp add: pow2_add [symmetric])
    have "of_int (2 ^ 52) = pow2 52" by (simp add: pow2_def)
    then have "of_int (2 ^ 52) \<le> ?y / pow2 (?e - 52)"
      using b(1) unfolding p by (simp only: pos_le_divide_eq [OF pow2_pos])
    then have "2 ^ 52 \<le> rnd_even (?y / pow2 (?e - 52))" by (rule rnd_even_ge)
    then have "(of_int (2 ^ 52) :: rat) \<le> of_int (rnd_even (?y / pow2 (?e - 52)))"
      by (simp only: of_int_le_iff)
    then have "of_int (2 ^ 52) * pow2 (?e - 52) \<le> round_value 53 (- 1022) ?y"
      unfolding round_value_def u Let_def by (intro mult_right_mono) (simp_all add: less_imp_le)
    moreover have "of_int (2 ^ 52) * pow2 (?e - 52) = pow2 ?e" unfolding p by (simp add: pow2_def)
    moreover have "pow2 4 \<le> pow2 ?e" using e by (rule pow2_mono)
    moreover have "pow2 4 = 16" by (simp add: pow2_def)
    ultimately show ?thesis by linarith
  qed
qed

lemma f64_div_8000000_less_10:
  assumes "round64 x = Fin x"
  shows "f64_less (f64_div (Fin x) 8000000) 10 \<longleftrightarrow> x < 80000000"
proof (cases "0 < x")
  case True
  have "(10 :: rat) < pow2 1023"
  proof -
    have "pow2 4 \<le> pow2 1023" by (rule pow2_mono) simp
    moreover have "pow2 4 = 16" by (simp add: pow2_def)
    ultimately show ?thesis by linarith
  qed
  with True have "f64_less (round64 (x / 8000000)) 10 \<longleftrightarrow> round_value 53 (- 1022) (x / 8000000) < 10"
    by (intro f64_less_round64) simp_all
  then show ?thesis
    using True round_value_below_10 [OF assms] round_value_at_least_10 [of x] by fastforce
next
  case False
  let ?q = "pow2 (ulp_exponent 53 (- 1022) (x / 8000000))"
  have "x / 8000000 / ?q \<le> of_int 0"
    using False less_imp_le [OF pow2_pos] by (simp add: divide_nonpos_nonneg)
  then have "rnd_even (x / 8000000 / ?q) \<le> 0" by (rule rnd_even_le)
  then have "round_value 53 (- 1022) (x / 8000000) \<le> 0"
    unfolding round_value_def Let_def
    by (intro mult_nonpos_nonneg) (simp_all add: less_imp_le)
  with False show ?thesis
    by (auto simp: round64_def round_float_def Let_def)
qed

end
