(* ===== verification/K8s_Client.thy ===== *)
theory K8s_Client
  imports Go_Strings
begin

text \<open>
  The data of the Kubernetes API that the program builds and reads (only the fields it uses),
  and the operations of libraries outside the repository that it calls: the typed clientset of
  client-go, the remote executor, \<open>wait.PollImmediate\<close> and \<open>errors.Wrapf\<close>. They are the fields
  of one record of functions, an argument of every definition that uses them; each reads and
  changes the world \<open>'w\<close> (the cluster), so two equal calls may answer differently. Nothing is
  assumed of them unless a lemma says so, with one of the laws at the end of this theory.
\<close>

section \<open>API objects\<close>

type_synonym protocol = string
type_synonym int32 = "32 word"

abbreviation ProtocolTCP :: protocol where "ProtocolTCP \<equiv> ''TCP''"
abbreviation ProtocolUDP :: protocol where "ProtocolUDP \<equiv> ''UDP''"
abbreviation ProtocolSCTP :: protocol where "ProtocolSCTP \<equiv> ''SCTP''"

abbreviation PodPending :: string where "PodPending \<equiv> ''Pending''"
abbreviation PodRunning :: string where "PodRunning \<equiv> ''Running''"
abbreviation PodSucceeded :: string where "PodSucceeded \<equiv> ''Succeeded''"
abbreviation PodFailed :: string where "PodFailed \<equiv> ''Failed''"

type_synonym labels = "string \<rightharpoonup> string"

record v1_container_port =
  cpContainerPort :: int32
  cpName :: string
  cpProtocol :: protocol

record v1_container =
  kcName :: string
  kcImagePullPolicy :: string
  kcImage :: string
  kcCommand :: "string list"
  kcPorts :: "v1_container_port list"

record v1_toleration =
  tolKey :: string
  tolValue :: string
  tolEffect :: string

record v1_pod_spec =
  psNodeName :: string
  psContainers :: "v1_container list"
  psInitContainers :: "v1_container list"
  psTerminationGracePeriodSeconds :: "int option"
  psHostNetwork :: bool
  psTolerations :: "v1_toleration list"
  psNodeSelector :: labels

record v1_pod =
  kpName :: string
  kpNamespace :: string
  kpLabels :: labels
  kpSpec :: v1_pod_spec
  kpPhase :: string
  kpPodIP :: string
  kpHostIP :: string

record v1_namespace =
  knName :: string
  knLabels :: labels

record v1_node =
  kdName :: string
  kdConditions :: "(string \<times> string) list"

record v1_service_port =
  spName :: string
  spProtocol :: protocol
  spPort :: int32
  spNodePort :: int32

text \<open>The labels of a service may be the nil map (\<open>None\<close>), which the code distinguishes.\<close>

record v1_service =
  ksName :: string
  ksNamespace :: string
  ksLabels :: "labels option"
  ksSelector :: labels
  ksType :: string
  ksPorts :: "v1_service_port list"
  ksClusterIP :: string
  ksExternalName :: string
  ksSessionAffinity :: string
  ksExternalTrafficPolicy :: string
  ksIngress :: "string list"

record v1_subset =
  suAddresses :: "string list"
  suNotReady :: "string list"

record v1_endpoints =
  keName :: string
  keSubsets :: "v1_subset list"

text \<open>The zero values of the API structs.\<close>

definition zero_pod_spec :: v1_pod_spec where
  "zero_pod_spec = \<lparr>psNodeName = '''', psContainers = [], psInitContainers = [],
     psTerminationGracePeriodSeconds = None, psHostNetwork = False, psTolerations = [],
     psNodeSelector = Map.empty\<rparr>"

definition zero_service :: v1_service where
  "zero_service = \<lparr>ksName = '''', ksNamespace = '''', ksLabels = None, ksSelector = Map.empty,
     ksType = '''', ksPorts = [], ksClusterIP = '''', ksExternalName = '''',
     ksSessionAffinity = '''', ksExternalTrafficPolicy = '''', ksIngress = []\<rparr>"

text \<open>
  What one \<open>select\<close> on a watch channel and a timer yields: the timer fires, or an event arrives
  with a service, with an endpoints object, or with anything else (a status object, or the nil
  object of a closed channel).
\<close>

datatype watch_object = WService v1_service | WEndpoints v1_endpoints | WOther

datatype watch_outcome = WatchEvent watch_object | WatchTimeout

record exec_request =
  rqPod :: string
  rqNamespace :: string
  rqContainer :: string
  rqCommand :: "string list"
  rqStdin :: bool
  rqStdout :: bool
  rqStderr :: bool
  rqTTY :: bool

type_synonym pending_pods = "(string, int) gomap"

section \<open>The operations of other libraries\<close>

record 'w client = "'w go_runtime" +
  errWrapf :: "err \<Rightarrow> string \<Rightarrow> err"
  spdyExecutor :: "exec_request \<Rightarrow> 'w \<Rightarrow> err \<times> 'w"
  execStream :: "exec_request \<Rightarrow> 'w \<Rightarrow> (string \<times> string \<times> err) \<times> 'w"
  podsCreate :: "string \<Rightarrow> v1_pod \<Rightarrow> 'w \<Rightarrow> (v1_pod \<times> err) \<times> 'w"
  podsGet :: "string \<Rightarrow> string \<Rightarrow> 'w \<Rightarrow> (v1_pod \<times> err) \<times> 'w"
  podsDelete :: "string \<Rightarrow> string \<Rightarrow> 'w \<Rightarrow> err \<times> 'w"
  podsPatch :: "string \<Rightarrow> string \<Rightarrow> string \<Rightarrow> 'w \<Rightarrow> err \<times> 'w"
  namespacesCreate :: "v1_namespace \<Rightarrow> 'w \<Rightarrow> (v1_namespace \<times> err) \<times> 'w"
  namespacesDelete :: "string \<Rightarrow> 'w \<Rightarrow> err \<times> 'w"
  nodesList :: "'w \<Rightarrow> (v1_node list \<times> err) \<times> 'w"
  servicesCreate :: "string \<Rightarrow> v1_service \<Rightarrow> 'w \<Rightarrow> (v1_service \<times> err) \<times> 'w"
  servicesGet :: "string \<Rightarrow> string \<Rightarrow> 'w \<Rightarrow> (v1_service \<times> err) \<times> 'w"
  servicesUpdate :: "string \<Rightarrow> v1_service \<Rightarrow> 'w \<Rightarrow> (v1_service \<times> err) \<times> 'w"
  servicesDelete :: "string \<Rightarrow> string \<Rightarrow> 'w \<Rightarrow> err \<times> 'w"
  servicesWatch :: "string \<Rightarrow> 'w \<Rightarrow> (nat option \<times> err) \<times> 'w"
  endpointsWatch :: "string \<Rightarrow> 'w \<Rightarrow> (nat option \<times> err) \<times> 'w"
  watchNext :: "nat \<Rightarrow> 'w \<Rightarrow> watch_outcome \<times> 'w"
  pollImmediate ::
    "('w \<times> pending_pods \<Rightarrow> (bool \<times> err) \<times> ('w \<times> pending_pods)) \<Rightarrow>
     'w \<times> pending_pods \<Rightarrow> err \<times> ('w \<times> pending_pods)"

section \<open>Documented behaviour of these libraries\<close>

text \<open>\<open>errors.Wrapf\<close>: ``If err is nil, Wrapf returns nil'', otherwise an error.\<close>

definition wrapf_law :: "('w, 'z) client_scheme \<Rightarrow> bool" where
  "wrapf_law E \<longleftrightarrow> (\<forall>m. errWrapf E None m = None) \<and> (\<forall>e m. errWrapf E (Some e) m \<noteq> None)"

lemma wrapf_None: "wrapf_law E \<Longrightarrow> errWrapf E None m = None"
  by (simp add: wrapf_law_def)

lemma wrapf_iff: "wrapf_law E \<Longrightarrow> errWrapf E e m = None \<longleftrightarrow> e = None"
  by (cases e) (simp_all add: wrapf_law_def)

lemma wrapf_Some: "wrapf_law E \<Longrightarrow> errWrapf E (Some e) m \<noteq> None"
  by (simp add: wrapf_law_def)

text \<open>
  \<open>wait.PollImmediate\<close> runs a condition until it reports done or an error, or the time is up;
  it always checks the condition before it waits, so the condition runs at least once.
\<close>

inductive polls ::
  "('s \<Rightarrow> (bool \<times> err) \<times> 's) \<Rightarrow> 's \<Rightarrow> err \<Rightarrow> 's \<Rightarrow> bool" for cond where
  poll_error: "cond s = ((d, Some e), s') \<Longrightarrow> polls cond s (Some e) s'"
| poll_done: "cond s = ((True, None), s') \<Longrightarrow> polls cond s None s'"
| poll_again: "cond s = ((False, None), s1) \<Longrightarrow> polls cond s1 r s' \<Longrightarrow> polls cond s r s'"
| poll_timeout: "cond s = ((False, None), s') \<Longrightarrow> polls cond s (Some e) s'"

definition poll_law :: "('w, 'z) client_scheme \<Rightarrow> bool" where
  "poll_law E \<longleftrightarrow> (\<forall>cond s. polls cond s (fst (pollImmediate E cond s)) (snd (pollImmediate E cond s)))"

lemma poll_lawD: "poll_law E \<Longrightarrow> pollImmediate E cond s = (r, s') \<Longrightarrow> polls cond s r s'"
  by (metis fst_conv poll_law_def snd_conv)

text \<open>What a condition establishes whenever it is done holds after a poll that ends without error.\<close>

lemma polls_done:
  assumes "polls cond s r s'" and "r = None"
    and "I s" and "\<And>s s1. I s \<Longrightarrow> cond s = ((False, None), s1) \<Longrightarrow> I s1"
  shows "\<exists>s0. I s0 \<and> cond s0 = ((True, None), s')"
  using assms(1,2,3)
proof (induction rule: polls.induct)
  case (poll_again s s1 r s')
  then show ?case using assms(4) by blast
qed auto

text \<open>A condition that is done at once ends the polling there.\<close>

lemma polls_at_once:
  assumes "polls cond s r s'" and "cond s = ((True, None), s1)"
  shows "r = None" and "s' = s1"
  using assms by (cases rule: polls.cases; simp)+

lemma polls_invariant:
  assumes "polls cond s r s'" and "I s" and "\<And>s x s1. I s \<Longrightarrow> cond s = (x, s1) \<Longrightarrow> I s1"
  shows "I s'"
  using assms(1,2)
proof (induction rule: polls.induct)
  case (poll_again s s1 r s')
  then show ?case using assms(3) by blast
qed (use assms(3) in blast)+

end
