(* ===== verification/Demo_Client.thy ===== *)
theory Demo_Client
  imports K8s_Client
begin

text \<open>
  A concrete client, for the examples that evaluate the program at a small input. Its world is a
  counter of the calls that observe time passing: a pod reads as pending before the counter
  reaches two and as running afterwards, the commands of pod \<open>a\<close> succeed and those of any other
  pod are refused, and a watch delivers one service with an address and then falls silent.
\<close>

definition refused :: err where
  "refused = Some (ErrText ''refused'')"

fun demo_poll :: "nat \<Rightarrow> ('s \<Rightarrow> (bool \<times> err) \<times> 's) \<Rightarrow> 's \<Rightarrow> err \<times> 's" where
  "demo_poll 0 cond s =
     (let ((d, e), s1) = cond s in if e \<noteq> None then (e, s1) else if d then (None, s1) else (refused, s1))"
| "demo_poll (Suc n) cond s =
     (let ((d, e), s1) = cond s in if e \<noteq> None then (e, s1) else if d then (None, s1) else demo_poll n cond s1)"

definition demo_pod :: "string \<Rightarrow> string \<Rightarrow> string \<Rightarrow> v1_pod" where
  "demo_pod ns name phase =
     \<lparr>kpName = name, kpNamespace = ns, kpLabels = Map.empty,
      kpSpec = zero_pod_spec\<lparr>psNodeName := ''n1''\<rparr>, kpPhase = phase,
      kpPodIP = ''10.0.0.1'', kpHostIP = ''192.168.0.1''\<rparr>"

definition demo_service :: v1_service where
  "demo_service = zero_service\<lparr>ksName := ''s-1'', ksNamespace := ''x'', ksClusterIP := ''10.96.0.1'',
     ksLabels := Some [''app'' \<mapsto> ''web''], ksIngress := [''1.2.3.4'']\<rparr>"

definition demo_client :: "nat client" where
  "demo_client =
     \<lparr>goOrder = (\<lambda>n w. (rev [0..<n], w)),
      randIntn = (\<lambda>n w. (0, w)),
      errWrapf = (\<lambda>e msg. case e of None \<Rightarrow> None | Some _ \<Rightarrow> Some (ErrText msg)),
      spdyExecutor = (\<lambda>req w. (None, w)),
      execStream = (\<lambda>req w. ((if rqPod req = ''a'' then ('''', '''', None) else ('''', '''', refused)), w)),
      podsCreate = (\<lambda>ns p w. ((p, None), w)),
      podsGet = (\<lambda>ns name w. ((demo_pod ns name (if w < 2 then PodPending else PodRunning), None), w + 1)),
      podsDelete = (\<lambda>ns name w. (None, w)),
      podsPatch = (\<lambda>ns name patch w. (None, w)),
      namespacesCreate = (\<lambda>ns w. ((ns, None), w)),
      namespacesDelete = (\<lambda>ns w. (None, w)),
      nodesList = (\<lambda>w. (([], None), w)),
      servicesCreate = (\<lambda>ns s w. ((s, None), w)),
      servicesGet = (\<lambda>ns name w. ((demo_service, None), w)),
      servicesUpdate = (\<lambda>ns s w. ((s, None), w)),
      servicesDelete = (\<lambda>ns name w. (None, w)),
      servicesWatch = (\<lambda>ns w. ((Some 0, None), w)),
      endpointsWatch = (\<lambda>ns w. ((Some 1, None), w)),
      watchNext = (\<lambda>ch w. if 0 < w then (WatchTimeout, w)
                          else if ch = 0 then (WatchEvent (WService demo_service), w + 1)
                          else (WatchEvent (WEndpoints \<lparr>keName = ''s-1'',
                                  keSubsets = [\<lparr>suAddresses = [''10.0.0.1''], suNotReady = []\<rparr>]\<rparr>), w + 1)),
      pollImmediate = (\<lambda>cond s. demo_poll 4 cond s)\<rparr>"

text \<open>It keeps the documented behaviour of the libraries.\<close>

lemma demo_wrapf_law: "wrapf_law demo_client"
  by (simp add: wrapf_law_def demo_client_def)

lemma mset_rev_upt: "mset (rev [0..<n]) = mset [0..<n]"
  by simp

lemma demo_order_law: "order_law demo_client"
  unfolding order_law_def by (simp add: demo_client_def del: mset_upt)

lemma demo_rand_law: "rand_law demo_client"
  by (simp add: rand_law_def demo_client_def)

lemma demo_polls: "polls cond s (fst (demo_poll n cond s)) (snd (demo_poll n cond s))"
proof (induction n arbitrary: s)
  case 0
  obtain d e s1 where "cond s = ((d, e), s1)" by (metis surj_pair)
  then show ?case
    by (cases e; cases d) (auto simp: refused_def intro: polls.intros)
next
  case (Suc n)
  obtain d e s1 where "cond s = ((d, e), s1)" by (metis surj_pair)
  with Suc show ?case
    by (cases e; cases d) (auto intro: polls.intros)
qed

lemma demo_poll_law: "poll_law demo_client"
  by (simp add: poll_law_def demo_client_def demo_polls)

end
