(* ===== verification/Exec.thy ===== *)
theory Exec
  imports Demo_Client
begin

text \<open>
  \<open>pkg/entities/kubernetes/exec.go\<close> and \<open>error.go\<close>, with \<open>pkg/consts/consts.go\<close>: running a
  command in a container, and waiting for a pod to run while counting the polls that find it
  pending.
\<close>

section \<open>Constants and sentinel errors\<close>

definition PollTimesToDeterminePendingPod :: int where
  "PollTimesToDeterminePendingPod = 2"

definition PerfTestBandWidthBenchMarkMegabytesPerSecond :: nat where
  "PerfTestBandWidthBenchMarkMegabytesPerSecond = 10"

definition IsLabelNotFound :: "err \<Rightarrow> bool" where
  "IsLabelNotFound e \<longleftrightarrow> e = Some ErrLabelNotFound"

section \<open>Executing a command in a container\<close>

record exec_options =
  eoCommand :: "string list"
  eoNamespace :: string
  eoPodName :: string
  eoContainerName :: string
  eoStdin :: bool
  eoCaptureStdout :: bool
  eoCaptureStderr :: bool
  eoPreserveWhitespace :: bool
  eoQuiet :: bool

text \<open>Without an executor nothing is streamed: the two buffers stay empty.\<close>

definition execute :: "('w, 'z) client_scheme \<Rightarrow> exec_request \<Rightarrow> 'w \<Rightarrow> (string \<times> string \<times> err) \<times> 'w" where
  "execute E req w =
     (let (e, w1) = spdyExecutor E req w
      in if e \<noteq> None then (('''', '''', e), w1) else execStream E req w1)"

definition exec_request_of :: "exec_options \<Rightarrow> exec_request" where
  "exec_request_of opts =
     \<lparr>rqPod = eoPodName opts, rqNamespace = eoNamespace opts, rqContainer = eoContainerName opts,
      rqCommand = eoCommand opts, rqStdin = eoStdin opts, rqStdout = eoCaptureStdout opts,
      rqStderr = eoCaptureStderr opts, rqTTY = False\<rparr>"

definition ExecWithOptions ::
  "('w, 'z) client_scheme \<Rightarrow> exec_options \<Rightarrow> 'w \<Rightarrow> (string \<times> string \<times> err) \<times> 'w" where
  "ExecWithOptions E opts w =
     (let ((stdout, stderr, e), w1) = execute E (exec_request_of opts) w
      in if eoPreserveWhitespace opts then ((stdout, stderr, e), w1)
         else ((TrimSpace stdout, TrimSpace stderr, e), w1))"

lemma ExecWithOptions_trimmed:
  assumes "ExecWithOptions E opts w = ((stdout, stderr, e), w')" and "\<not> eoPreserveWhitespace opts"
  shows "TrimSpace stdout = stdout" and "TrimSpace stderr = stderr"
  using assms by (auto simp: ExecWithOptions_def split: prod.splits)

section \<open>Waiting for a pod to run\<close>

text \<open>Reading a counter that is not in the map gives zero.\<close>

definition pending_count :: "pending_pods \<Rightarrow> string \<Rightarrow> int" where
  "pending_count m k = (case map_of m k of None \<Rightarrow> 0 | Some n \<Rightarrow> n)"

lemma pending_count_update [simp, go_maps]:
  "pending_count (AList.update k v m) k' = (if k' = k then v else pending_count m k')"
  by (simp add: pending_count_def map_of_update)

lemma pending_count_delete [go_maps]:
  "pending_count (AList.delete k m) k' = (if k' = k then 0 else pending_count m k')"
  by (simp add: pending_count_def delete_conv')

lemma pending_count_Nil [simp, go_maps]: "pending_count [] k = 0"
  by (simp add: pending_count_def)

definition podRunning ::
  "('w, 'z) client_scheme \<Rightarrow> string \<Rightarrow> string \<Rightarrow>
   'w \<times> pending_pods \<Rightarrow> (bool \<times> err) \<times> ('w \<times> pending_pods)" where
  "podRunning E podName namespace = (\<lambda>(w, pending).
     let ((pod, e), w1) = podsGet E namespace podName w in
     if e \<noteq> None then ((False, e), (w1, pending))
     else if kpPhase pod = PodRunning then ((True, None), (w1, pending))
     else if kpPhase pod = PodFailed \<or> kpPhase pod = PodSucceeded
       then ((False, Some ErrPodCompleted), (w1, pending))
     else if kpPhase pod = PodPending then
       (let n = pending_count pending podName + 1;
            pending1 = AList.update podName n pending
        in if n > PollTimesToDeterminePendingPod then ((True, None), (w1, pending1))
           else ((False, None), (w1, pending1)))
     else ((False, None), (w1, pending)))"

definition WaitForPodRunningInNamespace ::
  "('w, 'z) client_scheme \<Rightarrow> v1_pod \<Rightarrow> 'w \<times> pending_pods \<Rightarrow> err \<times> ('w \<times> pending_pods)" where
  "WaitForPodRunningInNamespace E pod s =
     (if kpPhase pod = PodRunning then (None, s)
      else pollImmediate E (podRunning E (kpName pod) (kpNamespace pod)) s)"

text \<open>One poll counts at most one pending observation, of its own pod only.\<close>

lemma podRunning_count:
  assumes "podRunning E podName namespace (w, pending) = (r, (w', pending'))"
  shows "pending_count pending podName \<le> pending_count pending' podName"
    and "pending_count pending' podName \<le> pending_count pending podName + 1"
    and "k \<noteq> podName \<Longrightarrow> pending_count pending' k = pending_count pending k"
    and "gomap_wf pending \<Longrightarrow> gomap_wf pending'"
  using assms
  by (auto simp: podRunning_def Let_def split: prod.splits if_splits)

text \<open>A poll that asks to wait has counted no more than the limit (if it counted at all).\<close>

lemma podRunning_waits:
  assumes "podRunning E podName namespace (w, pending) = ((False, None), (w', pending'))"
    and "pending_count pending podName \<le> PollTimesToDeterminePendingPod"
  shows "pending_count pending' podName \<le> PollTimesToDeterminePendingPod"
  using assms
  by (auto simp: podRunning_def Let_def split: prod.splits if_splits)

text \<open>A poll that is done saw the pod running, or saw it pending more often than the limit.\<close>

lemma podRunning_done:
  assumes "podRunning E podName namespace (w, pending) = ((True, None), (w', pending'))"
  shows "(kpPhase (fst (fst (podsGet E namespace podName w))) = PodRunning \<and> pending' = pending) \<or>
         (kpPhase (fst (fst (podsGet E namespace podName w))) = PodPending \<and>
          PollTimesToDeterminePendingPod < pending_count pending' podName \<and>
          pending_count pending' podName = pending_count pending podName + 1)"
  using assms
  by (auto simp: podRunning_def Let_def split: prod.splits if_splits)

text \<open>It has read the pod in the world it leaves.\<close>

lemma podRunning_reads:
  assumes "podRunning E podName namespace (w, pending) = ((True, None), (w', pending'))"
  shows "podsGet E namespace podName w = ((fst (fst (podsGet E namespace podName w)), None), w')"
  using assms by (auto simp: podRunning_def Let_def split: prod.splits if_splits)

section \<open>Properties\<close>

text \<open>
  C26. When waiting for a pod ends without error, the last answer it read from the cluster was a running
  pod, or a pending one whose count of pending polls had then passed \<open>PollTimesToDeterminePendingPod\<close>.
  And it does end that way for pods that never run: once the count stands at that limit, the next poll that
  reads the pod pending ends the wait, without an error and with the count one higher.
\<close>

theorem wait_for_pod_ends_running_or_pending:
  assumes "poll_law E" and "kpPhase pod \<noteq> PodRunning"
  shows "(\<forall>s w' pending'. WaitForPodRunningInNamespace E pod s = (None, (w', pending')) \<longrightarrow>
            (\<exists>w kubePod. podsGet E (kpNamespace pod) (kpName pod) w = ((kubePod, None), w') \<and>
               (if kpPhase kubePod = PodRunning then True
                else kpPhase kubePod = PodPending \<and> PollTimesToDeterminePendingPod < pending_count pending' (kpName pod)))) \<and>
         (\<forall>w pending kubePod w'. podsGet E (kpNamespace pod) (kpName pod) w = ((kubePod, None), w') \<longrightarrow>
            kpPhase kubePod = PodPending \<longrightarrow> PollTimesToDeterminePendingPod \<le> pending_count pending (kpName pod) \<longrightarrow>
            WaitForPodRunningInNamespace E pod (w, pending) =
              (None, (w', AList.update (kpName pod) (pending_count pending (kpName pod) + 1) pending)))"
proof (intro conjI allI impI)
  let ?cond = "podRunning E (kpName pod) (kpNamespace pod)"
  have wait: "WaitForPodRunningInNamespace E pod s = pollImmediate E ?cond s" for s
    using assms(2) by (simp add: WaitForPodRunningInNamespace_def)
  {
    fix s w' pending' assume "WaitForPodRunningInNamespace E pod s = (None, (w', pending'))"
    then have "polls ?cond s None (w', pending')" using poll_lawD [OF assms(1)] by (simp add: wait)
    from polls_done [OF this refl, of "\<lambda>_. True"] obtain w pending where
      "?cond (w, pending) = ((True, None), (w', pending'))" by auto
    from podRunning_reads [OF this] podRunning_done [OF this]
    show "\<exists>w kubePod. podsGet E (kpNamespace pod) (kpName pod) w = ((kubePod, None), w') \<and>
               (if kpPhase kubePod = PodRunning then True
                else kpPhase kubePod = PodPending \<and> PollTimesToDeterminePendingPod < pending_count pending' (kpName pod))"
      by (intro exI [of _ w]) auto
  next
    fix w pending kubePod w'
    assume get: "podsGet E (kpNamespace pod) (kpName pod) w = ((kubePod, None), w')" "kpPhase kubePod = PodPending"
      and count: "PollTimesToDeterminePendingPod \<le> pending_count pending (kpName pod)"
    let ?pending = "AList.update (kpName pod) (pending_count pending (kpName pod) + 1) pending"
    have "?cond (w, pending) = ((True, None), (w', ?pending))"
      using get count by (simp add: podRunning_def Let_def)
    from polls_at_once [OF poll_lawD [OF assms(1) prod.collapse [symmetric], of ?cond "(w, pending)"] this] show
      "WaitForPodRunningInNamespace E pod (w, pending) = (None, (w', ?pending))"
      unfolding wait by (metis prod.collapse)
  }
qed

text \<open>A wait that ends at a running pod, and one that ends at the third poll in all that finds it pending.\<close>

theorem wait_for_pod_ends_running_or_pending_witness:
  "(\<exists>w kubePod. podsGet demo_client ''x'' ''a'' w = ((kubePod, None), 3) \<and>
     (if kpPhase kubePod = PodRunning then True
      else kpPhase kubePod = PodPending \<and> PollTimesToDeterminePendingPod < pending_count [(''a'', 2)] ''a'')) \<and>
   WaitForPodRunningInNamespace demo_client (demo_pod ''x'' ''a'' PodPending) (0, [(''a'', 2)]) = (None, (1, [(''a'', 3)]))"
proof -
  let ?pod = "demo_pod ''x'' ''a'' PodPending"
  have run: "WaitForPodRunningInNamespace demo_client ?pod (0, []) = (None, (3, [(''a'', 2)]))"
    by (simp add: WaitForPodRunningInNamespace_def demo_client_def demo_pod_def podRunning_def
          PollTimesToDeterminePendingPod_def pending_count_def eval_nat_numeral)
  have pod: "kpName ?pod = ''a''" "kpNamespace ?pod = ''x''" "kpPhase ?pod = PodPending" "kpPhase ?pod \<noteq> PodRunning"
    by (simp_all add: demo_pod_def)
  have get: "podsGet demo_client ''x'' ''a'' 0 = ((?pod, None), 1)" by (simp add: demo_client_def)
  have count: "pending_count [(''a'', 2)] ''a'' = 2" by (simp add: pending_count_def)
  note ends = wait_for_pod_ends_running_or_pending [OF demo_poll_law pod(4), unfolded pod(1,2)]
  have "WaitForPodRunningInNamespace demo_client ?pod (0, [(''a'', 2)]) = (None, (1, [(''a'', 3)]))"
    using ends [THEN conjunct2, rule_format, OF get pod(3), of "[(''a'', 2)]"]
    by (simp add: count PollTimesToDeterminePendingPod_def)
  with ends [THEN conjunct1, rule_format, OF run] show ?thesis by (rule conjI)
qed

end
