(* ===== verification/Bandwidth.thy ===== *)
theory Bandwidth
  imports Go_Float Exec
begin

text \<open>
  \<open>pkg/matrix/result.go\<close>: the bandwidth iperf reports, parsed from its comma separated output,
  converted and printed. \<open>strconv.ParseFloat(s, 32)\<close> is an argument of the parser.
\<close>

record bandwidth_results =
  Bandwidth :: float64

text \<open>A pointer to a result that may be nil.\<close>

type_synonym bandwidth_ptr = "bandwidth_results option"

definition FromCommaSeparatedString ::
  "(string \<Rightarrow> float64 \<times> err) \<Rightarrow> string \<Rightarrow> (bandwidth_results \<times> err) go" where
  "FromCommaSeparatedString ParseFloat s =
     (let splits = Split CHR '','' s
      in if length splits \<le> 8 then Inl IndexOutOfRange
         else (let (b, e) = ParseFloat (splits ! 8) in Inr (\<lparr>Bandwidth = b\<rparr>, e)))"

definition prettyString :: "float64 \<Rightarrow> string \<Rightarrow> string" where
  "prettyString num unit_name =
     (if f64_less num 1000 then Sprintf_f num @ '' '' @ unit_name @ ''/sec''
      else if f64_less num 1000000 then Sprintf_f (f64_div num 1000) @ '' K'' @ unit_name @ ''/sec''
      else if f64_less num 1000000000 then Sprintf_f (f64_div num 1000000) @ '' M'' @ unit_name @ ''/sec''
      else Sprintf_f (f64_div num 1000000000) @ '' G'' @ unit_name @ ''/sec'')"

definition BandwidthToMegaBytes :: "bandwidth_results \<Rightarrow> float64" where
  "BandwidthToMegaBytes r = f64_div (Bandwidth r) 8000000"

definition BandwidthToBytes :: "bandwidth_results \<Rightarrow> float64" where
  "BandwidthToBytes r = f64_div (Bandwidth r) 8"

definition PrettyString :: "bandwidth_results \<Rightarrow> bool \<Rightarrow> string" where
  "PrettyString r inBytes =
     (if inBytes then prettyString (BandwidthToBytes r) ''Bytes''
      else prettyString (Bandwidth r) ''Bits'')"

text \<open>
  The documented behaviour of \<open>strconv.ParseFloat(s, 32)\<close> on the numbers iperf prints (a text of
  decimal digits): the nearest 32-bit float, without error when it is finite.
\<close>

definition parse_law :: "(string \<Rightarrow> float64 \<times> err) \<Rightarrow> bool" where
  "parse_law ParseFloat \<longleftrightarrow>
     (\<forall>n x. round32 (of_nat n) = Fin x \<longrightarrow> ParseFloat (dec_nat n) = (Fin x, None))"

lemma FromCommaSeparatedString_panics:
  "(\<exists>p. FromCommaSeparatedString ParseFloat s = Inl p) \<longleftrightarrow> count_list s CHR '','' < 8"
  by (auto simp: FromCommaSeparatedString_def length_Split Let_def split: prod.splits)

text \<open>The ninth field of a report line is what is parsed, whatever the other fields hold.\<close>

lemma FromCommaSeparatedString_field:
  assumes "length parts \<ge> 9" and "\<forall>f \<in> set parts. CHR '','' \<notin> set f"
  shows "FromCommaSeparatedString ParseFloat (Join '','' parts) =
           Inr (\<lparr>Bandwidth = fst (ParseFloat (parts ! 8))\<rparr>, snd (ParseFloat (parts ! 8)))"
proof -
  have "Split CHR '','' (Join '','' parts) = parts"
    by (rule Split_Join) (use assms in auto)
  with assms(1) show ?thesis
    by (simp add: FromCommaSeparatedString_def Let_def case_prod_unfold)
qed

lemma FromCommaSeparatedString_number:
  assumes "parse_law ParseFloat" and "round32 (of_nat n) = Fin x"
    and "length parts \<ge> 9" and "\<forall>f \<in> set parts. CHR '','' \<notin> set f" and "parts ! 8 = dec_nat n"
  shows "FromCommaSeparatedString ParseFloat (Join '','' parts) = Inr (\<lparr>Bandwidth = Fin x\<rparr>, None)"
  using assms by (simp add: FromCommaSeparatedString_field parse_law_def)

text \<open>The benchmark: below ten megabytes per second is below eighty million bits per second.\<close>

definition below_benchmark :: "bandwidth_results \<Rightarrow> bool" where
  "below_benchmark r \<longleftrightarrow>
     f64_less (BandwidthToMegaBytes r) (of_nat PerfTestBandWidthBenchMarkMegabytesPerSecond)"

lemma below_benchmark_bits:
  assumes "round64 x = Fin x"
  shows "below_benchmark \<lparr>Bandwidth = Fin x\<rparr> \<longleftrightarrow> x < 80000000"
  using f64_div_8000000_less_10 [OF assms]
  by (simp add: below_benchmark_def BandwidthToMegaBytes_def
        PerfTestBandWidthBenchMarkMegabytesPerSecond_def)

section \<open>Properties\<close>

text \<open>
  Parsing the output of iperf panics exactly when it has fewer than nine fields, and a line
  whose ninth field is the decimal number \<open>n\<close> is read, without an error, as the 32-bit float
  nearest to \<open>n\<close>, whatever the other fields hold.
\<close>

lemma iperf_output_bandwidth:
  assumes "parse_law ParseFloat" and "round32 (of_nat n) = Fin x"
    and "length parts \<ge> 9" and "\<forall>f \<in> set parts. CHR '','' \<notin> set f" and "parts ! 8 = dec_nat n"
  shows "FromCommaSeparatedString ParseFloat (Join '','' parts) = Inr (\<lparr>Bandwidth = Fin x\<rparr>, None) \<and>
         ((\<exists>p. FromCommaSeparatedString ParseFloat s = Inl p) \<longleftrightarrow> count_list s CHR '','' < 8)"
  using FromCommaSeparatedString_number [OF assms] FromCommaSeparatedString_panics by simp

lemma demo_float: "round32 (of_nat 512) = Fin 512"
  by code_simp

lemma demo_fields:
  "\<forall>f \<in> set ([[], [], [], [], [], [], [], []] @ [dec_nat 512]). CHR '','' \<notin> set f"
  by (simp add: dec_nat.simps digit_char_def)

text \<open>A parser of one number: what the law asks of it at the example below.\<close>

definition demo_ParseFloat :: "string \<Rightarrow> float64 \<times> err" where
  "demo_ParseFloat s = (round32 (of_nat (dec_value s)), None)"

text \<open>
  C39. The judgement of the benchmark, made in rounded 64-bit arithmetic, is exact: a result that
  is a 64-bit float counts as below the benchmark exactly when it is less than eighty million bits
  per second, which is ten megabytes per second.
\<close>

theorem benchmark_is_exact:
  assumes "round64 x = Fin x"
  shows "below_benchmark \<lparr>Bandwidth = Fin x\<rparr> \<longleftrightarrow> x < 80000000"
  by (rule below_benchmark_bits [OF assms])

theorem benchmark_is_exact_witness:
  "below_benchmark \<lparr>Bandwidth = Fin 79999999\<rparr> \<and> \<not> below_benchmark \<lparr>Bandwidth = Fin 80000000\<rparr>"
proof -
  have bits: "bit_length 80000000 = 27" "bit_length 79999999 = 27" "bit_length 1 = 1"
    by (simp_all add: bit_length.simps)
  then have e: "exponent 80000000 = 26" "exponent 79999999 = 26"
    by (simp_all add: exponent_def Let_def pow2_def)
  have "round64 79999999 = Fin 79999999" "round64 80000000 = Fin 80000000"
    by (simp_all add: round64_def round_float_def round_value_def ulp_exponent_def e pow2_def rnd_even_def Let_def)
  from this [THEN benchmark_is_exact] show ?thesis by simp
qed

end
