(* ===== verification/Truth_Table.thy ===== *)
theory Truth_Table
  imports Bandwidth
begin

text \<open>
  \<open>pkg/matrix/truthtable.go\<close>: a table of booleans (and of bandwidths) for ordered pairs of names,
  as nested Go maps. Writing below a row that is not there writes to a nil map and panics; the
  code's other complaints about unknown keys are printed only, and have no effect.
\<close>

type_synonym 'v table = "(string, (string, 'v) gomap) gomap"

record truth_table =
  Froms :: "string list"
  Tos :: "string list"
  toSet :: "(string, bool) gomap"
  Values :: "bool table"
  Bandwidths :: "bandwidth_ptr table"

section \<open>Nested maps\<close>

definition tab_get :: "'v table \<Rightarrow> string \<Rightarrow> string \<Rightarrow> 'v option" where
  "tab_get t from to = (case map_of t from of None \<Rightarrow> None | Some dict \<Rightarrow> map_of dict to)"

text \<open>\<open>dict := t[from]; dict[to] = v\<close>\<close>

definition tab_put :: "string \<Rightarrow> string \<Rightarrow> 'v \<Rightarrow> 'v table \<Rightarrow> 'v table go" where
  "tab_put from to v t =
     (case map_of t from of
        None \<Rightarrow> Inl NilMapWrite
      | Some dict \<Rightarrow> Inr (AList.update from (AList.update to v dict) t))"

definition tab_rows :: "'v table \<Rightarrow> string set" where
  "tab_rows t = dom (map_of t)"

definition tab_wf :: "'v table \<Rightarrow> bool" where
  "tab_wf t \<longleftrightarrow> gomap_wf t \<and> (\<forall>dict \<in> snd ` set t. gomap_wf dict)"

definition tab_entries :: "'v table \<Rightarrow> (string \<times> string \<times> 'v) list" where
  "tab_entries t = concat (map (\<lambda>(from, dict). map (\<lambda>(to, v). (from, to, v)) dict) t)"

lemma tab_put_get:
  "tab_put from to v t = Inr t' \<Longrightarrow>
     tab_get t' a b = (if a = from \<and> b = to then Some v else tab_get t a b)"
  by (auto simp: tab_put_def tab_get_def map_of_update split: option.splits if_splits)

lemma tab_put_rows: "tab_put from to v t = Inr t' \<Longrightarrow> tab_rows t' = tab_rows t"
  by (auto simp: tab_put_def tab_rows_def map_of_update split: option.splits if_splits)

lemma tab_put_ok: "from \<in> tab_rows t \<Longrightarrow> \<exists>t'. tab_put from to v t = Inr t'"
  by (auto simp: tab_put_def tab_rows_def)

lemma tab_put_nil: "from \<notin> tab_rows t \<Longrightarrow> tab_put from to v t = Inl NilMapWrite"
  by (auto simp: tab_put_def tab_rows_def split: option.splits)

lemma set_update_values: "snd ` set (AList.update k v m) \<subseteq> insert v (snd ` set m)"
  by (induction m) auto

lemma tab_put_wf: "tab_wf t \<Longrightarrow> tab_put from to v t = Inr t' \<Longrightarrow> tab_wf t'"
proof -
  assume wf: "tab_wf t" and put: "tab_put from to v t = Inr t'"
  then obtain dict where d: "map_of t from = Some dict"
    and t': "t' = AList.update from (AList.update to v dict) t"
    by (auto simp: tab_put_def split: option.splits)
  have "dict \<in> snd ` set t" using d by (force dest: map_of_SomeD)
  with wf have "\<forall>d \<in> insert (AList.update to v dict) (snd ` set t). gomap_wf d"
    by (auto simp: tab_wf_def)
  then have "\<forall>d \<in> snd ` set t'. gomap_wf d"
    unfolding t' using set_update_values by (meson subsetD)
  with wf show "tab_wf t'" by (simp add: tab_wf_def t')
qed

text \<open>The entries of a table are its pairs with a value, each once.\<close>

lemma tab_entries_iff:
  assumes "tab_wf t"
  shows "(a, b, v) \<in> set (tab_entries t) \<longleftrightarrow> tab_get t a b = Some v"
proof -
  have "(a, b, v) \<in> set (tab_entries t) \<longleftrightarrow> (\<exists>dict. (a, dict) \<in> set t \<and> (b, v) \<in> set dict)"
    by (force simp: tab_entries_def)
  also have "\<dots> \<longleftrightarrow> (\<exists>dict. map_of t a = Some dict \<and> map_of dict b = Some v)"
    using assms by (force simp: tab_wf_def gomap_lookup_iff)
  finally show ?thesis by (auto simp: tab_get_def split: option.splits)
qed

lemma tab_entries_keys_distinct:
  assumes "tab_wf t"
  shows "distinct (map (\<lambda>(a, b, v). (a, b)) (tab_entries t))"
  using assms
proof (induction t)
  case Nil
  then show ?case by (simp add: tab_entries_def)
next
  case (Cons x t)
  obtain fr dict where x: "x = (fr, dict)" by (cases x)
  have wf: "tab_wf t" and d: "gomap_wf dict" and nf: "fr \<notin> fst ` set t"
    using Cons.prems by (auto simp: tab_wf_def gomap_wf_def x)
  have row: "map (\<lambda>(a, b, v). (a, b)) (map (\<lambda>(to, v). (fr, to, v)) dict) = map (Pair fr) (map fst dict)"
    by (simp add: o_def case_prod_unfold)
  have e: "tab_entries (x # t) = map (\<lambda>(to, v). (fr, to, v)) dict @ tab_entries t"
    by (simp add: tab_entries_def x)
  have "distinct (map (Pair fr) (map fst dict))"
    using d by (simp add: gomap_wf_def distinct_map inj_on_def)
  moreover have "set (map (Pair fr) (map fst dict)) \<inter> set (map (\<lambda>(a, b, v). (a, b)) (tab_entries t)) = {}"
    using nf by (force simp: tab_entries_def)
  ultimately show ?case
    using Cons.IH [OF wf] unfolding e map_append row distinct_append by simp
qed

section \<open>Truth tables\<close>

definition table_row :: "string list \<Rightarrow> 'v option \<Rightarrow> (string, 'v) gomap" where
  "table_row tos dv =
     fold (\<lambda>to dict. case dv of None \<Rightarrow> dict | Some v \<Rightarrow> AList.update to v dict) tos []"

definition NewTruthTable :: "string list \<Rightarrow> string list \<Rightarrow> bool option \<Rightarrow> truth_table" where
  "NewTruthTable froms tos defaultValue =
     \<lparr>Froms = froms, Tos = tos,
      toSet = fold (\<lambda>to m. AList.update to True m) tos [],
      Values = fold (\<lambda>from m. AList.update from (table_row tos defaultValue) m) froms [],
      Bandwidths = fold (\<lambda>from m. AList.update from [] m) froms []\<rparr>"

definition NewTruthTableFromItems :: "string list \<Rightarrow> bool option \<Rightarrow> truth_table" where
  "NewTruthTableFromItems items defaultValue = NewTruthTable items items defaultValue"

text \<open>The loops that compare the keys read \<open>other[i]\<close> for every index \<open>i\<close> of the first list.\<close>

definition compare_keys :: "string list \<Rightarrow> string list \<Rightarrow> unit go" where
  "compare_keys keys other = (if length other < length keys then Inl IndexOutOfRange else Inr ())"

definition Compare :: "truth_table \<Rightarrow> truth_table \<Rightarrow> truth_table go" where
  "Compare tt other =
     go_bind (compare_keys (Froms tt) (Froms other)) (\<lambda>_.
     go_bind (compare_keys (Tos tt) (Tos other)) (\<lambda>_.
       Inr \<lparr>Froms = Froms tt, Tos = Tos tt, toSet = toSet tt,
            Values = map (\<lambda>(from, dict). (from, map (\<lambda>(to, val).
                       (to, val = (tab_get (Values other) from to = Some True))) dict)) (Values tt),
            Bandwidths = []\<rparr>))"

definition IsComplete :: "truth_table \<Rightarrow> bool" where
  "IsComplete tt \<longleftrightarrow>
     list_all (\<lambda>from. list_all (\<lambda>to. tab_get (Values tt) from to \<noteq> None) (Tos tt)) (Froms tt)"

definition tt_Set :: "string \<Rightarrow> string \<Rightarrow> bool \<Rightarrow> truth_table \<Rightarrow> truth_table go" where
  "tt_Set from to value tt =
     go_bind (tab_put from to value (Values tt)) (\<lambda>vs. Inr (tt\<lparr>Values := vs\<rparr>))"

definition SetBandwidth :: "string \<Rightarrow> string \<Rightarrow> bandwidth_ptr \<Rightarrow> truth_table \<Rightarrow> truth_table go" where
  "SetBandwidth from to bandwidth tt =
     go_bind (tab_put from to bandwidth (Bandwidths tt)) (\<lambda>bs. Inr (tt\<lparr>Bandwidths := bs\<rparr>))"

definition tt_Get :: "truth_table \<Rightarrow> string \<Rightarrow> string \<Rightarrow> bool" where
  "tt_Get tt from to = (tab_get (Values tt) from to = Some True)"

definition GetBandwidth :: "truth_table \<Rightarrow> string \<Rightarrow> string \<Rightarrow> bandwidth_ptr" where
  "GetBandwidth tt from to =
     (case tab_get (Bandwidths tt) from to of None \<Rightarrow> None | Some b \<Rightarrow> b)"

text \<open>The printed tables: a tab after every mark, and a tab between the cells.\<close>

abbreviation TAB :: char where "TAB \<equiv> CHR 0x09"
abbreviation NL :: char where "NL \<equiv> CHR 0x0A"

definition print_table :: "string \<Rightarrow> truth_table \<Rightarrow> (string \<Rightarrow> string \<Rightarrow> string) \<Rightarrow> string" where
  "print_table indent tt mark =
     Join [NL]
       ((indent @ Join [TAB] (([CHR ''-''] @ [TAB]) # Tos tt)) #
        map (\<lambda>from. indent @ Join [TAB] (from # map (\<lambda>to. mark from to @ [TAB]) (Tos tt))) (Froms tt))"

definition PrettyPrint :: "truth_table \<Rightarrow> string \<Rightarrow> string" where
  "PrettyPrint tt indent = print_table indent tt
     (\<lambda>from to. case tab_get (Values tt) from to of
        None \<Rightarrow> ''?'' | Some True \<Rightarrow> ''.'' | Some False \<Rightarrow> ''X'')"

definition PrettyPrintBandwidth :: "truth_table \<Rightarrow> string \<Rightarrow> string" where
  "PrettyPrintBandwidth tt indent = print_table indent tt
     (\<lambda>from to. case GetBandwidth tt from to of
        None \<Rightarrow> ''nil'' | Some b \<Rightarrow> PrettyString b True)"

section \<open>A new table\<close>

lemma fold_update_same:
  "map_of (fold (\<lambda>k m. AList.update k v m) ks m) = (\<lambda>k. if k \<in> set ks then Some v else map_of m k)"
  by (induction ks arbitrary: m) (auto simp: map_of_update fun_eq_iff)

lemma fold_update_wf: "gomap_wf m \<Longrightarrow> gomap_wf (fold (\<lambda>k m. AList.update k v m) ks m)"
  by (induction ks arbitrary: m) simp_all

lemma fold_update_values:
  "snd ` set (fold (\<lambda>k m. AList.update k v m) ks m) \<subseteq> insert v (snd ` set m)"
proof (induction ks arbitrary: m)
  case Nil
  then show ?case by auto
next
  case (Cons k ks)
  show ?case using Cons [of "AList.update k v m"] set_update_values [of k v m] by auto
qed

lemma table_row_None: "table_row tos None = []"
  unfolding table_row_def by (induction tos) simp_all

lemma table_row_get: "map_of (table_row tos dv) b = (if b \<in> set tos then dv else None)"
proof (cases dv)
  case None
  then show ?thesis by (simp add: table_row_None)
next
  case (Some v)
  then show ?thesis by (simp add: table_row_def fold_update_same)
qed

lemma table_row_wf: "gomap_wf (table_row tos dv)"
  by (cases dv) (simp_all add: table_row_None, simp add: table_row_def fold_update_wf)

text \<open>Every pair of the new table has the default value (none at all when there is no default).\<close>

lemma NewTruthTable_get:
  "tab_get (Values (NewTruthTable froms tos dv)) a b = (if a \<in> set froms \<and> b \<in> set tos then dv else None)"
  by (simp add: NewTruthTable_def tab_get_def fold_update_same table_row_get)

lemma NewTruthTable_bandwidth: "tab_get (Bandwidths (NewTruthTable froms tos dv)) a b = None"
  by (simp add: NewTruthTable_def tab_get_def fold_update_same)

lemma NewTruthTable_rows:
  "tab_rows (Values (NewTruthTable froms tos dv)) = set froms"
  "tab_rows (Bandwidths (NewTruthTable froms tos dv)) = set froms"
  by (auto simp: NewTruthTable_def tab_rows_def fold_update_same dom_def)

lemma NewTruthTable_wf:
  "tab_wf (Values (NewTruthTable froms tos dv))" "tab_wf (Bandwidths (NewTruthTable froms tos dv))"
  using fold_update_values [of "table_row tos dv" froms "[]"]
    fold_update_values [of "[] :: (string, bandwidth_ptr) gomap" froms "[]"]
  by (auto simp: NewTruthTable_def tab_wf_def fold_update_wf table_row_wf subset_iff)

lemma NewTruthTable_keys [simp]:
  "Froms (NewTruthTable froms tos dv) = froms" "Tos (NewTruthTable froms tos dv) = tos"
  by (simp_all add: NewTruthTable_def)

section \<open>Comparing tables\<close>

lemma Compare_ok:
  assumes "Compare tt other = Inr cmp"
  shows "Froms cmp = Froms tt" and "Tos cmp = Tos tt" and "Bandwidths cmp = []"
    and "tab_get (Values cmp) a b =
           map_option (\<lambda>v. v = (tab_get (Values other) a b = Some True)) (tab_get (Values tt) a b)"
    and "tab_wf (Values tt) \<Longrightarrow> tab_wf (Values cmp)"
proof -
  obtain P where P: "P = (\<lambda>fr to. tab_get (Values other) fr to = Some True)" by blast
  let ?row = "\<lambda>fr dict. map (\<lambda>(to, val). (to, val = P fr to)) dict"
  have v: "Values cmp = map (\<lambda>(fr, dict). (fr, ?row fr dict)) (Values tt)"
    and "Froms cmp = Froms tt" "Tos cmp = Tos tt" "Bandwidths cmp = []"
    using assms by (auto simp: Compare_def go_bind_eq_Inr_iff P)
  then show "Froms cmp = Froms tt" and "Tos cmp = Tos tt" and "Bandwidths cmp = []" by simp_all
  have row: "map_of (?row fr dict) b = map_option (\<lambda>v. v = P fr b) (map_of dict b)" for fr dict
    by (induction dict) auto
  have rows: "map_of (map (\<lambda>(fr, dict). (fr, ?row fr dict)) t) a = map_option (?row a) (map_of t a)" for t
    by (induction t) auto
  have "tab_get (Values cmp) a b = map_option (\<lambda>v. v = P a b) (tab_get (Values tt) a b)"
    unfolding tab_get_def v rows by (simp add: row split: option.splits)
  then show "tab_get (Values cmp) a b =
      map_option (\<lambda>v. v = (tab_get (Values other) a b = Some True)) (tab_get (Values tt) a b)"
    by (simp add: P)
  have "map fst (?row fr dict) = map fst dict" for fr dict by (induction dict) auto
  then show "tab_wf (Values tt) \<Longrightarrow> tab_wf (Values cmp)"
    by (auto simp: tab_wf_def gomap_wf_def v o_def case_prod_unfold image_iff)
qed

text \<open>Comparison panics exactly when the other table has fewer keys on one side.\<close>

lemma Compare_panics:
  "(\<exists>p. Compare tt other = Inl p) \<longleftrightarrow>
     length (Froms other) < length (Froms tt) \<or> length (Tos other) < length (Tos tt)"
  by (auto simp: Compare_def compare_keys_def)

lemma IsComplete_iff:
  "IsComplete tt \<longleftrightarrow> (\<forall>a \<in> set (Froms tt). \<forall>b \<in> set (Tos tt). tab_get (Values tt) a b \<noteq> None)"
  by (simp add: IsComplete_def list_all_iff)

section \<open>The interface of a writable table of pairs\<close>

text \<open>
  What the reachability code relies on: a write below an existing row is read back, leaves every
  other pair and the rows alone, and a write below a missing row panics.
\<close>

fun last_write :: "('a \<times> 'b \<times> 'v) list \<Rightarrow> 'a \<Rightarrow> 'b \<Rightarrow> 'v option" where
  "last_write [] a b = None"
| "last_write ((x, y, v) # ws) a b =
     (case last_write ws a b of
        Some u \<Rightarrow> Some u
      | None \<Rightarrow> (if x = a \<and> y = b then Some v else None))"

lemma last_write_None: "last_write ws a b = None \<longleftrightarrow> (\<forall>v. (a, b, v) \<notin> set ws)"
  by (induction ws a b rule: last_write.induct) (auto split: option.splits)

lemma last_write_in: "last_write ws a b = Some v \<Longrightarrow> (a, b, v) \<in> set ws"
  by (induction ws a b rule: last_write.induct) (auto split: option.splits if_splits)

lemma last_write_unique:
  assumes "(a, b, v) \<in> set ws" and "\<forall>u. (a, b, u) \<in> set ws \<longrightarrow> u = v"
  shows "last_write ws a b = Some v"
proof (cases "last_write ws a b")
  case None
  with assms(1) show ?thesis by (simp add: last_write_None)
next
  case (Some u)
  with assms(2) last_write_in [OF Some] show ?thesis by blast
qed

locale pair_table =
  fixes get :: "'t \<Rightarrow> 'a \<Rightarrow> 'b \<Rightarrow> 'v option"
    and put :: "'a \<Rightarrow> 'b \<Rightarrow> 'v \<Rightarrow> 't \<Rightarrow> 't go"
    and rows :: "'t \<Rightarrow> 'a set"
    and ok :: "'t \<Rightarrow> bool"
  assumes put_row: "ok t \<Longrightarrow> a \<in> rows t \<Longrightarrow> \<exists>t'. put a b v t = Inr t' \<and> ok t' \<and> rows t' = rows t"
    and put_get: "ok t \<Longrightarrow> put a b v t = Inr t' \<Longrightarrow>
                    get t' x y = (if x = a \<and> y = b then Some v else get t x y)"
    and put_no_row: "ok t \<Longrightarrow> a \<notin> rows t \<Longrightarrow> put a b v t = Inl NilMapWrite"
begin

text \<open>A loop of writes below existing rows ends with, at every pair, the last value written there.\<close>

lemma put_all:
  assumes "ok t" and "\<forall>w \<in> set ws. fst w \<in> rows t"
  shows "\<exists>t'. go_fold (\<lambda>(a, b, v). put a b v) ws t = Inr t' \<and> ok t' \<and> rows t' = rows t \<and>
           (\<forall>x y. get t' x y = (case last_write ws x y of Some v \<Rightarrow> Some v | None \<Rightarrow> get t x y))"
  using assms
proof (induction ws arbitrary: t)
  case Nil
  then show ?case by simp
next
  case (Cons w ws)
  obtain a b v where w: "w = (a, b, v)" by (cases w)
  obtain t1 where p: "put a b v t = Inr t1" and ok1: "ok t1" and r1: "rows t1 = rows t"
    using put_row [of t a b v] Cons.prems by (auto simp: w)
  have "\<forall>w \<in> set ws. fst w \<in> rows t1" using Cons.prems(2) unfolding r1 by simp
  from Cons.IH [OF ok1 this] obtain t' where t':
    "go_fold (\<lambda>(a, b, v). put a b v) ws t1 = Inr t'" "ok t'" "rows t' = rows t1"
    "\<forall>x y. get t' x y = (case last_write ws x y of Some v \<Rightarrow> Some v | None \<Rightarrow> get t1 x y)"
    by blast
  with put_get [OF Cons.prems(1) p] p r1 w show ?case
    by (auto split: option.splits)
qed

text \<open>Without two values for one pair, the order of the writes does not matter.\<close>

lemma put_all_unique:
  assumes "ok t" and "\<forall>w \<in> set ws. fst w \<in> rows t"
    and "\<And>a b u v. (a, b, u) \<in> set ws \<Longrightarrow> (a, b, v) \<in> set ws \<Longrightarrow> u = v"
    and "go_fold (\<lambda>(a, b, v). put a b v) ws t = Inr t'"
  shows "(a, b, v) \<in> set ws \<Longrightarrow> get t' a b = Some v"
    and "\<forall>v. (a, b, v) \<notin> set ws \<Longrightarrow> get t' a b = get t a b"
proof -
  have g: "\<forall>x y. get t' x y = (case last_write ws x y of Some v \<Rightarrow> Some v | None \<Rightarrow> get t x y)"
  proof -
    obtain t2 where "go_fold (\<lambda>(a, b, v). put a b v) ws t = Inr t2"
      and "\<forall>x y. get t2 x y = (case last_write ws x y of Some v \<Rightarrow> Some v | None \<Rightarrow> get t x y)"
      using put_all [OF assms(1,2)] by blast
    with assms(4) show ?thesis by simp
  qed
  show "get t' a b = Some v" if "(a, b, v) \<in> set ws"
  proof -
    have "last_write ws a b = Some v"
      by (rule last_write_unique [OF that]) (use assms(3) that in blast)
    with g show ?thesis by (metis option.simps(5))
  qed
  show "get t' a b = get t a b" if "\<forall>v. (a, b, v) \<notin> set ws"
  proof -
    have "last_write ws a b = None" using that by (simp only: last_write_None simp_thms)
    with g show ?thesis by (metis option.simps(4))
  qed
qed

text \<open>One write below a missing row stops the loop.\<close>

lemma put_all_panics:
  assumes "ok t" and "(a, b, v) \<in> set ws" and "a \<notin> rows t"
  shows "go_fold (\<lambda>(a, b, v). put a b v) ws t = Inl NilMapWrite"
  using assms
proof (induction ws arbitrary: t)
  case Nil
  then show ?case by simp
next
  case (Cons w ws)
  obtain x y u where w: "w = (x, y, u)" by (cases w)
  show ?case
  proof (cases "x \<in> rows t")
    case False
    then show ?thesis using put_no_row [OF Cons.prems(1)] by (simp add: w)
  next
    case True
    then obtain t1 where p: "put x y u t = Inr t1" "ok t1" "rows t1 = rows t"
      using put_row [OF Cons.prems(1)] by blast
    with Cons.prems True w have "(a, b, v) \<in> set ws" by auto
    with Cons.IH [OF p(2)] Cons.prems(3) p show ?thesis by (simp add: w)
  qed
qed

end

definition values_ok :: "truth_table \<Rightarrow> bool" where
  "values_ok tt \<longleftrightarrow> tab_wf (Values tt)"

definition bandwidths_ok :: "truth_table \<Rightarrow> bool" where
  "bandwidths_ok tt \<longleftrightarrow> tab_wf (Bandwidths tt)"

lemma tt_Set_iff:
  "tt_Set a b v tt = Inr tt' \<longleftrightarrow> (\<exists>vs. tab_put a b v (Values tt) = Inr vs \<and> tt' = tt\<lparr>Values := vs\<rparr>)"
  by (auto simp: tt_Set_def go_bind_eq_Inr_iff)

lemma SetBandwidth_iff:
  "SetBandwidth a b v tt = Inr tt' \<longleftrightarrow>
     (\<exists>bs. tab_put a b v (Bandwidths tt) = Inr bs \<and> tt' = tt\<lparr>Bandwidths := bs\<rparr>)"
  by (auto simp: SetBandwidth_def go_bind_eq_Inr_iff)

interpretation value_table: pair_table
  "\<lambda>tt. tab_get (Values tt)" tt_Set "\<lambda>tt. tab_rows (Values tt)" values_ok
proof (unfold_locales, goal_cases)
  case (1 t a b v)
  then obtain vs where vs: "tab_put a b v (Values t) = Inr vs"
    using tab_put_ok [of a "Values t" b v] by blast
  with 1 show ?case
    using tab_put_wf [OF _ vs] tab_put_rows [OF vs] by (auto simp: tt_Set_iff values_ok_def)
next
  case (2 t a b v t' x y)
  then obtain vs where "tab_put a b v (Values t) = Inr vs" "t' = t\<lparr>Values := vs\<rparr>"
    by (auto simp: tt_Set_iff)
  then show ?case by (simp add: tab_put_get)
next
  case (3 t a b v)
  then show ?case by (simp add: tt_Set_def tab_put_nil)
qed

interpretation bandwidth_table: pair_table
  "\<lambda>tt. tab_get (Bandwidths tt)" SetBandwidth "\<lambda>tt. tab_rows (Bandwidths tt)" bandwidths_ok
proof (unfold_locales, goal_cases)
  case (1 t a b v)
  then obtain bs where bs: "tab_put a b v (Bandwidths t) = Inr bs"
    using tab_put_ok [of a "Bandwidths t" b v] by blast
  with 1 show ?case
    using tab_put_wf [OF _ bs] tab_put_rows [OF bs] by (auto simp: SetBandwidth_iff bandwidths_ok_def)
next
  case (2 t a b v t' x y)
  then obtain bs where "tab_put a b v (Bandwidths t) = Inr bs" "t' = t\<lparr>Bandwidths := bs\<rparr>"
    by (auto simp: SetBandwidth_iff)
  then show ?case by (simp add: tab_put_get)
next
  case (3 t a b v)
  then show ?case by (simp add: SetBandwidth_def tab_put_nil)
qed

section \<open>Properties\<close>

text \<open>
  C21. The comparison of two tables panics exactly when the second has fewer keys than the first on a
  side. Otherwise it gives a table with the keys of the first, whose entry for a pair says whether the
  first table's entry equals what \<open>Get\<close> reads from the second; there is no entry where the first table
  has none, and no bandwidth.
\<close>

theorem compare_tables:
  "if length (Froms other) < length (Froms tt) then Compare tt other = Inl IndexOutOfRange
   else if length (Tos other) < length (Tos tt) then Compare tt other = Inl IndexOutOfRange
   else \<exists>cmp. Compare tt other = Inr cmp \<and> Froms cmp = Froms tt \<and> Tos cmp = Tos tt \<and> Bandwidths cmp = [] \<and>
          (\<forall>a b. tab_get (Values cmp) a b = map_option (\<lambda>v. v = tt_Get other a b) (tab_get (Values tt) a b))"
proof (cases "Compare tt other")
  case (Inl p)
  then have "length (Froms other) < length (Froms tt) \<or> length (Tos other) < length (Tos tt)"
    using Compare_panics [of tt other] by blast
  then show ?thesis by (auto simp: Compare_def compare_keys_def)
next
  case (Inr cmp)
  then have "\<not> (length (Froms other) < length (Froms tt) \<or> length (Tos other) < length (Tos tt))"
    using Compare_panics [of tt other] by auto
  with Inr Compare_ok(1-4) [OF Inr] show ?thesis by (simp add: tt_Get_def)
qed

text \<open>Two tables of one key, and one compared with a table without keys.\<close>

theorem compare_tables_witness:
  "(\<exists>cmp. Compare (NewTruthTableFromItems [''a''] (Some True)) (NewTruthTableFromItems [''a''] None) = Inr cmp \<and>
          tab_get (Values cmp) ''a'' ''a'' = Some False) \<and>
   Compare (NewTruthTableFromItems [''a''] (Some True)) (NewTruthTableFromItems [] None) = Inl IndexOutOfRange"
proof
  let ?tt = "NewTruthTableFromItems [''a''] (Some True)"
  have keys: "Froms (NewTruthTableFromItems ks d) = ks" "Tos (NewTruthTableFromItems ks d) = ks" for ks d
    by (simp_all add: NewTruthTableFromItems_def NewTruthTable_keys)
  show "Compare ?tt (NewTruthTableFromItems [] None) = Inl IndexOutOfRange"
    using compare_tables [of "NewTruthTableFromItems [] None" ?tt] by (simp add: keys)
  show "\<exists>cmp. Compare ?tt (NewTruthTableFromItems [''a''] None) = Inr cmp \<and> tab_get (Values cmp) ''a'' ''a'' = Some False"
    using compare_tables [of "NewTruthTableFromItems [''a''] None" ?tt]
    by (auto simp: keys) (simp add: NewTruthTableFromItems_def NewTruthTable_get tt_Get_def)
qed

end
