(* ===== verification/Commands.thy ===== *)
theory Commands
  imports Exec
begin

text \<open>
  \<open>pkg/commands\<close>: the probe commands (agnhost, iperf, netcat) as argument lists. A
  \<open>commandImpl\<close> holds where the command runs, where it connects to, and the rendered command.
\<close>

section \<open>The shared implementation\<close>

record commandImpl =
  nsFrom :: string
  podFrom :: string
  containerFrom :: string
  addrTo :: string
  ci_port :: string
  ci_protocol :: protocol
  cmd :: "string list"

definition DebugString :: "commandImpl \<Rightarrow> string" where
  "DebugString c = ''kubectl exec '' @ podFrom c @ '' -c '' @ containerFrom c @ '' -n '' @
     nsFrom c @ '' -- '' @ Join '' '' (cmd c)"

definition Execute :: "('w, 'z) client_scheme \<Rightarrow> commandImpl \<Rightarrow> 'w \<Rightarrow> (string \<times> string \<times> err) \<times> 'w" where
  "Execute E c = ExecWithOptions E
     \<lparr>eoCommand = cmd c, eoNamespace = nsFrom c, eoPodName = podFrom c,
      eoContainerName = containerFrom c, eoStdin = False, eoCaptureStdout = True,
      eoCaptureStderr = True, eoPreserveWhitespace = False, eoQuiet = False\<rparr>"

section \<open>agnhost\<close>

definition agn_ConnectCommand :: "commandImpl \<Rightarrow> string list" where
  "agn_ConnectCommand c =
     (if ci_protocol c = ProtocolTCP then
        [''/agnhost'', ''connect'', JoinHostPort (addrTo c) (ci_port c), ''--timeout=5s'', ''--protocol=tcp'']
      else if ci_protocol c = ProtocolUDP then
        [''/agnhost'', ''connect'', JoinHostPort (addrTo c) (ci_port c), ''--timeout=5s'', ''--protocol=udp'']
      else [])"

definition agn_ServeCommand :: "commandImpl \<Rightarrow> string list" where
  "agn_ServeCommand c =
     (if ci_protocol c = ProtocolTCP then
        [''/agnhost'', ''serve-hostname'', ''--tcp'', ''--http=false'', ''--port'', ci_port c]
      else if ci_protocol c = ProtocolUDP then
        [''/agnhost'', ''serve-hostname'', ''--udp'', ''--http=false'', ''--port'', ci_port c]
      else [])"

definition NewAgnHostClient ::
  "string \<Rightarrow> string \<Rightarrow> string \<Rightarrow> string \<Rightarrow> int \<Rightarrow> protocol \<Rightarrow> commandImpl" where
  "NewAgnHostClient ns pod cont addr port proto =
     (let agnHost = \<lparr>nsFrom = ns, podFrom = pod, containerFrom = cont, addrTo = addr,
                     ci_port = Itoa port, ci_protocol = proto, cmd = []\<rparr>
      in agnHost\<lparr>cmd := agn_ConnectCommand agnHost\<rparr>)"

definition NewAgnHostServer :: "int \<Rightarrow> protocol \<Rightarrow> commandImpl" where
  "NewAgnHostServer port proto =
     (let agnHost = \<lparr>nsFrom = '''', podFrom = '''', containerFrom = '''', addrTo = '''',
                     ci_port = Itoa port, ci_protocol = proto, cmd = []\<rparr>
      in agnHost\<lparr>cmd := agn_ServeCommand agnHost\<rparr>)"

section \<open>iperf\<close>

definition iperf_ConnectCommand :: "commandImpl \<Rightarrow> string list" where
  "iperf_ConnectCommand c =
     (if ci_protocol c = ProtocolTCP then
        [''/usr/bin/iperf'', ''--client'', addrTo c, ''--port'', ci_port c, ''-yC'']
      else if ci_protocol c = ProtocolUDP then
        [''/usr/bin/iperf'', ''--client'', addrTo c, ''--port'', ci_port c, ''--udp'', ''-yC'']
      else if ci_protocol c = ProtocolSCTP then
        [''/usr/bin/iperf'', ''--client'', addrTo c, ''--port'', ci_port c, ''--sctp'', ''-yC'']
      else [])"

definition iperf_ServeCommand :: "commandImpl \<Rightarrow> string list" where
  "iperf_ServeCommand c =
     (if ci_protocol c = ProtocolTCP then
        [''/usr/bin/iperf'', ''--server'', ''--port'', ci_port c]
      else if ci_protocol c = ProtocolUDP then
        [''/usr/bin/iperf'', ''--server'', ''--port'', ci_port c, ''--udp'']
      else if ci_protocol c = ProtocolSCTP then
        [''/usr/bin/iperf'', ''--server'', ''--port'', ci_port c, ''--sctp'']
      else [])"

definition NewIPerfClient ::
  "string \<Rightarrow> string \<Rightarrow> string \<Rightarrow> string \<Rightarrow> int \<Rightarrow> protocol \<Rightarrow> commandImpl" where
  "NewIPerfClient ns pod cont addr port proto =
     (let iperf = \<lparr>nsFrom = ns, podFrom = pod, containerFrom = cont, addrTo = addr,
                   ci_port = Itoa port, ci_protocol = proto, cmd = []\<rparr>
      in iperf\<lparr>cmd := iperf_ConnectCommand iperf\<rparr>)"

definition NewIPerfServer :: "int \<Rightarrow> protocol \<Rightarrow> commandImpl" where
  "NewIPerfServer port proto =
     (let iperf = \<lparr>nsFrom = '''', podFrom = '''', containerFrom = '''', addrTo = '''',
                   ci_port = Itoa port, ci_protocol = proto, cmd = []\<rparr>
      in iperf\<lparr>cmd := iperf_ServeCommand iperf\<rparr>)"

section \<open>netcat\<close>

definition nc_ConnectCommand :: "commandImpl \<Rightarrow> string list" where
  "nc_ConnectCommand c =
     (if ci_protocol c = ProtocolTCP then [''nc'', ''-w10'', addrTo c, ci_port c]
      else if ci_protocol c = ProtocolUDP then [''nc'', ''-u'', ''-w10'', addrTo c, ci_port c]
      else [])"

definition NewNcClient ::
  "string \<Rightarrow> string \<Rightarrow> string \<Rightarrow> string \<Rightarrow> int \<Rightarrow> protocol \<Rightarrow> commandImpl" where
  "NewNcClient ns pod cont addr port proto =
     (let nc = \<lparr>nsFrom = ns, podFrom = pod, containerFrom = cont, addrTo = addr,
                ci_port = Itoa port, ci_protocol = proto, cmd = []\<rparr>
      in nc\<lparr>cmd := nc_ConnectCommand nc\<rparr>)"

section \<open>The interface of a rendered command\<close>

text \<open>
  What the callers rely on: rendering looks only at the address, the port and the protocol (so
  the command a constructor stores is the one the method returns later), and gives a command
  exactly for the supported protocols.
\<close>

locale rendered_command =
  fixes render :: "commandImpl \<Rightarrow> string list"
    and supported :: "protocol set"
  assumes render_fields:
      "addrTo c = addrTo d \<Longrightarrow> ci_port c = ci_port d \<Longrightarrow> ci_protocol c = ci_protocol d \<Longrightarrow>
       render c = render d"
    and render_supported: "render c \<noteq> [] \<longleftrightarrow> ci_protocol c \<in> supported"
begin

lemma render_after_store: "render (c\<lparr>cmd := x\<rparr>) = render c"
  by (rule render_fields) simp_all

lemma stored_command:
  "cmd (c\<lparr>cmd := render c\<rparr>) = render (c\<lparr>cmd := render c\<rparr>)"
  by (simp add: render_after_store)

end

text \<open>A client also knows the pod it runs in; executing it sends the rendered command there.\<close>

locale client_command = rendered_command +
  fixes make :: "string \<Rightarrow> string \<Rightarrow> string \<Rightarrow> string \<Rightarrow> int \<Rightarrow> protocol \<Rightarrow> commandImpl"
  assumes make_eq:
    "make ns pod cont addr port proto =
       (let c = \<lparr>nsFrom = ns, podFrom = pod, containerFrom = cont, addrTo = addr,
                 ci_port = Itoa port, ci_protocol = proto, cmd = []\<rparr>
        in c\<lparr>cmd := render c\<rparr>)"
begin

lemma make_cmd: "cmd (make ns pod cont addr port proto) = render (make ns pod cont addr port proto)"
  by (simp add: make_eq Let_def) (rule render_fields, simp_all)

lemma make_supported: "cmd (make ns pod cont addr port proto) \<noteq> [] \<longleftrightarrow> proto \<in> supported"
  by (simp add: make_eq Let_def render_supported)

lemma Execute_request:
  "Execute E (make ns pod cont addr port proto) w =
     (let ((stdout, stderr, e), w1) = execute E
        \<lparr>rqPod = pod, rqNamespace = ns, rqContainer = cont,
         rqCommand = render (make ns pod cont addr port proto), rqStdin = False,
         rqStdout = True, rqStderr = True, rqTTY = False\<rparr> w
      in ((TrimSpace stdout, TrimSpace stderr, e), w1))"
  unfolding make_cmd [symmetric]
  by (simp add: make_eq Let_def Execute_def ExecWithOptions_def exec_request_of_def)

end

locale server_command = rendered_command +
  fixes serve :: "int \<Rightarrow> protocol \<Rightarrow> commandImpl"
  assumes serve_eq:
    "serve port proto =
       (let c = \<lparr>nsFrom = '''', podFrom = '''', containerFrom = '''', addrTo = '''',
                 ci_port = Itoa port, ci_protocol = proto, cmd = []\<rparr>
        in c\<lparr>cmd := render c\<rparr>)"
begin

lemma serve_supported: "render (serve port proto) \<noteq> [] \<longleftrightarrow> proto \<in> supported"
  by (simp add: serve_eq Let_def render_supported)

end

lemmas command_defs =
  agn_ConnectCommand_def agn_ServeCommand_def iperf_ConnectCommand_def iperf_ServeCommand_def
  nc_ConnectCommand_def NewAgnHostClient_def NewAgnHostServer_def NewIPerfClient_def
  NewIPerfServer_def NewNcClient_def

interpretation agn_client: client_command agn_ConnectCommand "{ProtocolTCP, ProtocolUDP}" NewAgnHostClient
  by unfold_locales (auto simp: command_defs)

interpretation iperf_client: client_command iperf_ConnectCommand
    "{ProtocolTCP, ProtocolUDP, ProtocolSCTP}" NewIPerfClient
  by unfold_locales (auto simp: command_defs)

interpretation nc_client: client_command nc_ConnectCommand "{ProtocolTCP, ProtocolUDP}" NewNcClient
  by unfold_locales (auto simp: command_defs)

interpretation agn_server: server_command agn_ServeCommand "{ProtocolTCP, ProtocolUDP}" NewAgnHostServer
  by unfold_locales (auto simp: command_defs)

interpretation iperf_server: server_command iperf_ServeCommand
    "{ProtocolTCP, ProtocolUDP, ProtocolSCTP}" NewIPerfServer
  by unfold_locales (auto simp: command_defs)

section \<open>Properties\<close>

text \<open>
  Executing an agnhost client runs, in the pod, namespace and container it was made for, a
  connect command to its address and port with its protocol (no command for a protocol agnhost
  does not support), and returns what the remote execution printed, trimmed, with its error.
\<close>

lemma agnhost_client_request:
  "Execute E (NewAgnHostClient ns pod cont addr port proto) w =
     (let ((stdout, stderr, e), w1) = execute E
        \<lparr>rqPod = pod, rqNamespace = ns, rqContainer = cont,
         rqCommand = (if proto \<in> {ProtocolTCP, ProtocolUDP}
                      then [''/agnhost'', ''connect'', JoinHostPort addr (Itoa port), ''--timeout=5s'',
                            ''--protocol='' @ (if proto = ProtocolTCP then ''tcp'' else ''udp'')]
                      else []),
         rqStdin = False, rqStdout = True, rqStderr = True, rqTTY = False\<rparr> w
      in ((TrimSpace stdout, TrimSpace stderr, e), w1))"
proof -
  have "agn_ConnectCommand (NewAgnHostClient ns pod cont addr port proto) =
      (if proto \<in> {ProtocolTCP, ProtocolUDP}
       then [''/agnhost'', ''connect'', JoinHostPort addr (Itoa port), ''--timeout=5s'',
             ''--protocol='' @ (if proto = ProtocolTCP then ''tcp'' else ''udp'')]
       else [])"
    by (simp add: command_defs)
  then show ?thesis unfolding agn_client.Execute_request by (rule arg_cong)
qed

end
