(* ===== verification/Containers.thy ===== *)
theory Containers
  imports Commands
begin

text \<open>
  \<open>pkg/entities/container.go\<close>: the model of a container and its rendering as a Kubernetes
  container. \<open>GetName\<close> stores the name it makes up, so it returns the container too.
\<close>

definition NotSpecifiedImage :: string where
  "NotSpecifiedImage = ''''"

definition AgnhostImage :: string where
  "AgnhostImage = ''k8s.gcr.io/e2e-test-images/agnhost:2.31''"

record container =
  c_Name :: string
  c_Image :: string
  c_Command :: "string list"
  c_Protocol :: protocol
  c_Port :: int32

text \<open>\<open>"%d-%s"\<close> of the port and the protocol in lower case, which both names end in.\<close>

definition port_proto :: "int32 \<Rightarrow> protocol \<Rightarrow> string" where
  "port_proto port proto = Itoa (sint port) @ ''-'' @ ToLower proto"

definition GetName ::
  "('w, 'z) go_runtime_scheme \<Rightarrow> container \<Rightarrow> 'w \<Rightarrow> (string \<times> container) \<times> 'w" where
  "GetName E c w =
     (if c_Name c = '''' then
        (if c_Port c = 0 then
           (let (n, w1) = randIntn E 100000 w; name = ''cont-'' @ Itoa (int n)
            in ((name, c\<lparr>c_Name := name\<rparr>), w1))
         else
           (let name = ''cont-'' @ port_proto (c_Port c) (c_Protocol c)
            in ((name, c\<lparr>c_Name := name\<rparr>), w)))
      else ((c_Name c, c), w))"

definition PortName :: "('w, 'z) go_runtime_scheme \<Rightarrow> container \<Rightarrow> 'w \<Rightarrow> string \<times> 'w" where
  "PortName E c w =
     (if c_Port c = 0 then (let (n, w1) = randIntn E 100000 w in (''serve-'' @ Itoa (int n), w1))
      else (''serve-'' @ port_proto (c_Port c) (c_Protocol c), w))"

definition c_ToK8SSpec ::
  "('w, 'z) go_runtime_scheme \<Rightarrow> container \<Rightarrow> 'w \<Rightarrow> (v1_container \<times> container) \<times> 'w" where
  "c_ToK8SSpec E c w =
     (let ((name, c1), w1) = GetName E c w;
          image = (if c_Image c1 \<noteq> NotSpecifiedImage then c_Image c1 else AgnhostImage);
          cmd1 = (if c_Command c = [] then
                    (if image = AgnhostImage
                     then agn_ServeCommand (NewAgnHostServer (sint (c_Port c1)) (c_Protocol c1))
                     else [])
                  else c_Command c);
          (ports, w2) =
            (if 0 < sint (c_Port c1) then
               (let (portName, w2) = PortName E c1 w1
                in ([\<lparr>cpContainerPort = c_Port c1, cpName = portName, cpProtocol = c_Protocol c1\<rparr>], w2))
             else ([], w1))
      in ((\<lparr>kcName = name, kcImagePullPolicy = ''IfNotPresent'', kcImage = image,
            kcCommand = cmd1, kcPorts = ports\<rparr>, c1), w2))"

section \<open>Names\<close>

lemma GetName_stored:
  "GetName E c w = ((name, c1), w1) \<Longrightarrow> c_Name c1 = name \<and> name \<noteq> ''''"
  by (auto simp: GetName_def Let_def split: if_splits prod.splits)

lemma GetName_only_name:
  "GetName E c w = ((name, c1), w1) \<Longrightarrow> c1 = c\<lparr>c_Name := name\<rparr>"
  by (auto simp: GetName_def Let_def split: if_splits prod.splits)

text \<open>The name never changes again, and asking again draws no random number.\<close>

lemma GetName_named: "c_Name c \<noteq> '''' \<Longrightarrow> GetName E c w = ((c_Name c, c), w)"
  by (simp add: GetName_def)

lemma GetName_twice:
  "GetName E c w = ((name, c1), w1) \<Longrightarrow> GetName E c1 w' = ((name, c1), w')"
  using GetName_stored [of E c w name c1 w1] by (auto simp: GetName_named)

lemma GetName_world: "c_Port c \<noteq> 0 \<Longrightarrow> snd (GetName E c w) = w"
  by (simp add: GetName_def Let_def)

lemma PortName_port: "c_Port c \<noteq> 0 \<Longrightarrow> PortName E c w = (''serve-'' @ port_proto (c_Port c) (c_Protocol c), w)"
  by (simp add: PortName_def)

lemma port_proto_inject:
  assumes "0 \<le> sint p" and "0 \<le> sint q"
  shows "port_proto p x = port_proto q y \<longleftrightarrow> p = q \<and> ToLower x = ToLower y"
proof -
  have "port_proto p x = port_proto q y \<longleftrightarrow> Itoa (sint p) = Itoa (sint q) \<and> ToLower x = ToLower y"
    unfolding port_proto_def append.simps
    by (rule sep_append_inject) (use assms dash_not_dec_nat in \<open>simp_all add: Itoa_def\<close>)
  then show ?thesis by (auto intro: signed_word_eqI)
qed

text \<open>
  A Kubernetes port name has at most 15 characters. The rendered name keeps to that for every
  port number up to 65535 and every protocol of at most three letters.
\<close>

lemma Itoa_length: "0 \<le> i \<Longrightarrow> i < 10 ^ k \<Longrightarrow> 0 < k \<Longrightarrow> length (Itoa i) \<le> k"
  by (auto simp: Itoa_def nat_less_iff intro!: dec_nat_length)

lemma PortName_length:
  assumes "c_Port c \<noteq> 0" and "0 \<le> sint (c_Port c)" and "sint (c_Port c) \<le> 65535"
    and "length (c_Protocol c) \<le> 3"
  shows "length (fst (PortName E c w)) \<le> 15"
proof -
  have "length (Itoa (sint (c_Port c))) \<le> 5"
    by (rule Itoa_length) (use assms in auto)
  with assms show ?thesis by (simp add: PortName_port port_proto_def)
qed

section \<open>The rendered container\<close>

lemma c_ToK8SSpec_container:
  assumes "c_ToK8SSpec E c w = ((spec, c1), w1)"
  shows "c1 = c\<lparr>c_Name := kcName spec\<rparr>" and "kcName spec \<noteq> ''''"
    and "c_Name c \<noteq> '''' \<longrightarrow> kcName spec = c_Name c"
proof -
  obtain name c2 w2 where g: "GetName E c w = ((name, c2), w2)" by (metis surj_pair)
  note o = GetName_only_name [OF g]
  have c1: "c1 = c2" and name: "kcName spec = name"
    using assms unfolding c_ToK8SSpec_def g Let_def by (auto split: prod.splits)
  show "c1 = c\<lparr>c_Name := kcName spec\<rparr>" by (simp add: c1 name o)
  show "kcName spec \<noteq> ''''" using GetName_stored [OF g] by (simp add: name)
  show "c_Name c \<noteq> '''' \<longrightarrow> kcName spec = c_Name c"
    using g by (auto simp: name GetName_named)
qed

text \<open>Rendering again gives the same container, and changes nothing.\<close>

lemma c_ToK8SSpec_twice:
  assumes "c_ToK8SSpec E c w = ((spec, c1), w1)"
  shows "c_ToK8SSpec E c1 w' = ((spec, c1), w')"
proof -
  obtain name c2 w2 where g: "GetName E c w = ((name, c2), w2)" by (metis surj_pair)
  note g2 = GetName_twice [OF g] and o = GetName_only_name [OF g]
  show ?thesis
    using assms unfolding c_ToK8SSpec_def g Let_def o
    by (auto simp: g2 [unfolded o] PortName_def split: if_splits)
qed

lemma c_ToK8SSpec_ports:
  assumes "c_ToK8SSpec E c w = ((spec, c1), w1)"
  shows "kcPorts spec =
    (if 0 < sint (c_Port c)
     then [\<lparr>cpContainerPort = c_Port c, cpName = ''serve-'' @ port_proto (c_Port c) (c_Protocol c),
            cpProtocol = c_Protocol c\<rparr>]
     else [])"
proof -
  obtain name c2 w2 where g: "GetName E c w = ((name, c2), w2)" by (metis surj_pair)
  note o = GetName_only_name [OF g]
  show ?thesis
    using assms unfolding c_ToK8SSpec_def g Let_def o
    by (auto simp: PortName_def split: if_splits)
qed

text \<open>
  The container the agnhost image runs serves the container's port; a self-provided image runs
  its own command.
\<close>

lemma c_ToK8SSpec_command:
  assumes "c_ToK8SSpec E c w = ((spec, c1), w1)"
  shows "kcImage spec = (if c_Image c = NotSpecifiedImage then AgnhostImage else c_Image c)"
    and "c_Command c \<noteq> [] \<Longrightarrow> kcCommand spec = c_Command c"
    and "c_Command c = [] \<Longrightarrow> kcImage spec = AgnhostImage \<Longrightarrow>
           kcCommand spec = agn_ServeCommand (NewAgnHostServer (sint (c_Port c)) (c_Protocol c))"
proof -
  obtain name c2 w2 where g: "GetName E c w = ((name, c2), w2)" by (metis surj_pair)
  note o = GetName_only_name [OF g]
  show "kcImage spec = (if c_Image c = NotSpecifiedImage then AgnhostImage else c_Image c)"
    and "c_Command c \<noteq> [] \<Longrightarrow> kcCommand spec = c_Command c"
    and "c_Command c = [] \<Longrightarrow> kcImage spec = AgnhostImage \<Longrightarrow>
           kcCommand spec = agn_ServeCommand (NewAgnHostServer (sint (c_Port c)) (c_Protocol c))"
    using assms unfolding c_ToK8SSpec_def g Let_def o
    by (auto split: if_splits prod.splits)
qed

section \<open>Properties\<close>

text \<open>
  The rendered container of a port between 1 and 65535 and a protocol of at most three letters
  exposes exactly that port and protocol, under a port name that Kubernetes accepts: at most 15
  characters.
\<close>

lemma rendered_port_name_fits:
  assumes "c_ToK8SSpec E c w = ((spec, c1), w1)"
    and "0 < sint (c_Port c)" and "sint (c_Port c) \<le> 65535" and "length (c_Protocol c) \<le> 3"
  shows "\<exists>name. kcPorts spec = [\<lparr>cpContainerPort = c_Port c, cpName = name, cpProtocol = c_Protocol c\<rparr>] \<and>
           length name \<le> 15"
proof -
  have "c_Port c \<noteq> 0" using assms(2) by auto
  with assms PortName_length [of c] show ?thesis
    by (simp add: c_ToK8SSpec_ports [OF assms(1)] PortName_port)
qed

definition demo_container :: container where
  "demo_container = \<lparr>c_Name = '''', c_Image = NotSpecifiedImage, c_Command = [], c_Protocol = ProtocolUDP, c_Port = 65535\<rparr>"

end
