(* ===== verification/Pods.thy ===== *)
theory Pods
  imports Containers
begin

text \<open>
  \<open>pkg/entities/pod.go\<close>: the model of a pod, its accessors, its rendering as a Kubernetes pod,
  and the text (node/namespace/name) that identifies it in the reachability matrix.
\<close>

section \<open>External addresses\<close>

record external_ip =
  eip_IP :: string
  eip_Protocol :: protocol

definition NewExternalIP :: "string \<Rightarrow> protocol \<Rightarrow> external_ip" where
  "NewExternalIP ip proto = \<lparr>eip_IP = ip, eip_Protocol = proto\<rparr>"

definition NewExternalIPs :: "string list \<Rightarrow> protocol \<Rightarrow> external_ip list" where
  "NewExternalIPs ips proto = map (\<lambda>ip. NewExternalIP ip proto) ips"

section \<open>Pods\<close>

text \<open>\<open>p_InitContainers\<close> may be the nil slice and \<open>p_Labels\<close> the nil map, which the code tests for.\<close>

record pod =
  p_Namespace :: string
  p_Name :: string
  p_NodeName :: string
  p_InitContainers :: "container list option"
  p_Containers :: "container list"
  p_ExternalIPs :: "external_ip list"
  p_SkipProbe :: bool
  p_serviceName :: string
  p_clusterIP :: string
  p_PodIP :: string
  p_HostIP :: string
  p_ToPort :: int32
  p_HostNetwork :: bool
  p_Labels :: "labels option"

definition GetToPort :: "pod \<Rightarrow> int32" where "GetToPort p = p_ToPort p"
definition SetToPort :: "int32 \<Rightarrow> pod \<Rightarrow> pod" where "SetToPort toPort p = p\<lparr>p_ToPort := toPort\<rparr>"
definition GetHostIP :: "pod \<Rightarrow> string" where "GetHostIP p = p_HostIP p"
definition SetHostIP :: "string \<Rightarrow> pod \<Rightarrow> pod" where "SetHostIP hostIP p = p\<lparr>p_HostIP := hostIP\<rparr>"
definition GetNodeName :: "pod \<Rightarrow> string" where "GetNodeName p = p_NodeName p"
definition SetNodeName :: "string \<Rightarrow> pod \<Rightarrow> pod" where "SetNodeName nodeName p = p\<lparr>p_NodeName := nodeName\<rparr>"
definition GetClusterIP :: "pod \<Rightarrow> string" where "GetClusterIP p = p_clusterIP p"
definition SetClusterIP :: "string \<Rightarrow> pod \<Rightarrow> pod" where "SetClusterIP ip p = p\<lparr>p_clusterIP := ip\<rparr>"
definition GetServiceName :: "pod \<Rightarrow> string" where "GetServiceName p = p_serviceName p"
definition SetServiceName :: "string \<Rightarrow> pod \<Rightarrow> pod" where "SetServiceName name p = p\<lparr>p_serviceName := name\<rparr>"
definition GetPodIP :: "pod \<Rightarrow> string" where "GetPodIP p = p_PodIP p"
definition SetPodIP :: "string \<Rightarrow> pod \<Rightarrow> pod" where "SetPodIP ip p = p\<lparr>p_PodIP := ip\<rparr>"
definition GetExternalIPs :: "pod \<Rightarrow> external_ip list" where "GetExternalIPs p = p_ExternalIPs p"
definition SetExternalIPs :: "external_ip list \<Rightarrow> pod \<Rightarrow> pod" where
  "SetExternalIPs ips p = p\<lparr>p_ExternalIPs := ips\<rparr>"

lemmas pod_accessors =
  GetToPort_def SetToPort_def GetHostIP_def SetHostIP_def GetNodeName_def SetNodeName_def
  GetClusterIP_def SetClusterIP_def GetServiceName_def SetServiceName_def GetPodIP_def SetPodIP_def
  GetExternalIPs_def SetExternalIPs_def

definition GetExternalIPsByProtocol :: "pod \<Rightarrow> protocol \<Rightarrow> external_ip list" where
  "GetExternalIPsByProtocol p proto = filter (\<lambda>ip. eip_Protocol ip = proto) (p_ExternalIPs p)"

definition IsPerf :: "pod \<Rightarrow> bool" where
  "IsPerf p \<longleftrightarrow>
     list_ex (\<lambda>c. list_ex (\<lambda>a. Contains a ''iperf'') (c_Command c)) (p_Containers p)"

definition ServiceName :: "pod \<Rightarrow> string" where
  "ServiceName p = ''s-'' @ p_Namespace p @ ''-'' @ p_Name p"

definition QualifiedServiceAddress :: "pod \<Rightarrow> string \<Rightarrow> string" where
  "QualifiedServiceAddress p dnsDomain =
     ServiceName p @ ''.'' @ p_Namespace p @ ''.svc.'' @ dnsDomain"

text \<open>The labels are created when nil and always get the pod's own name; the map is kept in the pod.\<close>

definition LabelSelector :: "pod \<Rightarrow> labels \<times> pod" where
  "LabelSelector p =
     (let m = (case p_Labels p of None \<Rightarrow> Map.empty | Some m \<Rightarrow> m);
          m1 = m(''pod'' \<mapsto> p_Name p)
      in (m1, p\<lparr>p_Labels := Some m1\<rparr>))"

fun ContainersToK8SSpec ::
  "('w, 'z) go_runtime_scheme \<Rightarrow> container list \<Rightarrow> 'w \<Rightarrow> (v1_container list \<times> container list) \<times> 'w"
where
  "ContainersToK8SSpec E [] w = (([], []), w)"
| "ContainersToK8SSpec E (c # cs) w =
     (let ((k, c1), w1) = c_ToK8SSpec E c w;
          ((ks, cs1), w2) = ContainersToK8SSpec E cs w1
      in ((k # ks, c1 # cs1), w2))"

definition DefaultTolerationsForWindowsNodes :: "v1_toleration list" where
  "DefaultTolerationsForWindowsNodes =
     [\<lparr>tolKey = ''os'', tolValue = ''windows'', tolEffect = ''NoSchedule''\<rparr>]"

definition p_ToK8SSpec ::
  "('w, 'z) go_runtime_scheme \<Rightarrow> pod \<Rightarrow> 'w \<Rightarrow> (v1_pod \<times> pod) \<times> 'w" where
  "p_ToK8SSpec E p w =
     (let ((ks, cs), w1) = ContainersToK8SSpec E (p_Containers p) w;
          p1 = p\<lparr>p_Containers := cs\<rparr>;
          podSpec = zero_pod_spec\<lparr>psContainers := ks, psTerminationGracePeriodSeconds := Some 0,
                      psHostNetwork := p_HostNetwork p1,
                      psTolerations := DefaultTolerationsForWindowsNodes\<rparr>;
          podSpec1 = (if p_NodeName p1 \<noteq> ''''
                      then podSpec\<lparr>psNodeSelector := [''kubernetes.io/hostname'' \<mapsto> p_NodeName p1]\<rparr>
                      else podSpec);
          ((podSpec2, p2), w2) =
            (case p_InitContainers p1 of
               None \<Rightarrow> ((podSpec1, p1), w1)
             | Some ics \<Rightarrow>
                 (let ((iks, ics1), w2) = ContainersToK8SSpec E ics w1
                  in ((podSpec1\<lparr>psInitContainers := iks\<rparr>, p1\<lparr>p_InitContainers := Some ics1\<rparr>), w2)));
          (lbls, p3) = LabelSelector p2
      in ((\<lparr>kpName = p_Name p3, kpNamespace = p_Namespace p3, kpLabels = lbls, kpSpec = podSpec2,
            kpPhase = '''', kpPodIP = '''', kpHostIP = ''''\<rparr>, p3), w2))"

definition p_Reset :: "pod \<Rightarrow> pod" where
  "p_Reset p = p\<lparr>p_ExternalIPs := [], p_SkipProbe := False, p_serviceName := '''',
                 p_clusterIP := '''', p_ToPort := 0, p_HostNetwork := False\<rparr>"

section \<open>Pod strings\<close>

type_synonym pod_string = string

definition NewPodString :: "string \<Rightarrow> string \<Rightarrow> string \<Rightarrow> pod_string" where
  "NewPodString nodeName namespace podName = nodeName @ ''/'' @ namespace @ ''/'' @ podName"

definition PodString :: "pod \<Rightarrow> pod_string" where
  "PodString p = NewPodString (p_NodeName p) (p_Namespace p) (p_Name p)"

text \<open>A string without three pieces is logged, then read out of range.\<close>

definition ps_split :: "pod_string \<Rightarrow> (string \<times> string \<times> string) go" where
  "ps_split ps =
     (case Split CHR ''/'' ps of
        a # b # c # _ \<Rightarrow> Inr (a, b, c)
      | _ \<Rightarrow> Inl IndexOutOfRange)"

definition ps_Namespace :: "pod_string \<Rightarrow> string go" where
  "ps_Namespace ps = go_bind (ps_split ps) (\<lambda>(_, ns, _). Inr ns)"

definition ps_PodName :: "pod_string \<Rightarrow> string go" where
  "ps_PodName ps = go_bind (ps_split ps) (\<lambda>(_, _, podName). Inr podName)"

definition ps_NodeName :: "pod_string \<Rightarrow> string go" where
  "ps_NodeName ps = go_bind (ps_split ps) (\<lambda>(nodeName, _, _). Inr nodeName)"

text \<open>Kubernetes names hold no slash; then a pod string gives its three parts back.\<close>

definition slash_free :: "pod \<Rightarrow> bool" where
  "slash_free p \<longleftrightarrow> CHR ''/'' \<notin> set (p_NodeName p) \<and> CHR ''/'' \<notin> set (p_Namespace p) \<and>
                    CHR ''/'' \<notin> set (p_Name p)"

lemma ps_split_NewPodString:
  assumes "CHR ''/'' \<notin> set n" and "CHR ''/'' \<notin> set ns" and "CHR ''/'' \<notin> set name"
  shows "ps_split (NewPodString n ns name) = Inr (n, ns, name)"
  using assms by (simp add: ps_split_def NewPodString_def Split_append_sep Split_no_sep)

lemma ps_split_PodString:
  "slash_free p \<Longrightarrow> ps_split (PodString p) = Inr (p_NodeName p, p_Namespace p, p_Name p)"
  by (simp add: PodString_def slash_free_def ps_split_NewPodString)

lemma ps_parts [simp]:
  assumes "slash_free p"
  shows "ps_NodeName (PodString p) = Inr (p_NodeName p)"
    and "ps_Namespace (PodString p) = Inr (p_Namespace p)"
    and "ps_PodName (PodString p) = Inr (p_Name p)"
  using assms
  by (simp_all add: ps_NodeName_def ps_Namespace_def ps_PodName_def ps_split_PodString)

text \<open>Splitting panics exactly on strings with fewer than two slashes; a pod's own string never does.\<close>

lemma ps_split_panics: "ps_split ps = Inl e \<longleftrightarrow> e = IndexOutOfRange \<and> count_list ps CHR ''/'' < 2"
proof -
  have "length (Split CHR ''/'' ps) = Suc (count_list ps CHR ''/'')" by (rule length_Split)
  then show ?thesis
    by (auto simp: ps_split_def split: list.splits)
qed

lemma ps_split_PodString_total: "\<exists>r. ps_split (PodString p) = Inr r"
proof (cases "ps_split (PodString p)")
  case (Inl e)
  then have "count_list (PodString p) CHR ''/'' < 2" by (simp add: ps_split_panics)
  then show ?thesis by (simp add: PodString_def NewPodString_def count_list_append)
next
  case (Inr r)
  then show ?thesis by blast
qed

lemma PodString_inject:
  assumes "slash_free p" and "slash_free q"
  shows "PodString p = PodString q \<longleftrightarrow>
         p_NodeName p = p_NodeName q \<and> p_Namespace p = p_Namespace q \<and> p_Name p = p_Name q"
proof
  assume "PodString p = PodString q"
  with assms show "p_NodeName p = p_NodeName q \<and> p_Namespace p = p_Namespace q \<and> p_Name p = p_Name q"
    using ps_split_PodString [of p] ps_split_PodString [of q] by simp
qed (simp add: PodString_def)

section \<open>Rendering a pod\<close>

lemma ContainersToK8SSpec_twice:
  "ContainersToK8SSpec E cs w = ((ks, cs1), w1) \<Longrightarrow> ContainersToK8SSpec E cs1 w' = ((ks, cs1), w')"
proof (induction cs arbitrary: w ks cs1 w1 w')
  case Nil
  then show ?case by simp
next
  case (Cons c cs)
  then obtain k c1 wa ks' cs' where
      c: "c_ToK8SSpec E c w = ((k, c1), wa)" and
      cs: "ContainersToK8SSpec E cs wa = ((ks', cs'), w1)" and
      r: "ks = k # ks'" "cs1 = c1 # cs'"
    by (auto simp: Let_def split: prod.splits)
  show ?case
    unfolding r using c_ToK8SSpec_twice [OF c] Cons.IH [OF cs] by simp
qed

lemma ContainersToK8SSpec_containers:
  "ContainersToK8SSpec E cs w = ((ks, cs1), w1) \<Longrightarrow>
     list_all2 (\<lambda>c c1. c1 = c\<lparr>c_Name := c_Name c1\<rparr> \<and> c_Name c1 \<noteq> '''') cs cs1 \<and>
     map kcName ks = map c_Name cs1"
proof (induction cs arbitrary: w ks cs1 w1)
  case Nil
  then show ?case by simp
next
  case (Cons c cs)
  then obtain k c1 wa ks' cs' where
      c: "c_ToK8SSpec E c w = ((k, c1), wa)" and
      cs: "ContainersToK8SSpec E cs wa = ((ks', cs'), w1)" and
      r: "ks = k # ks'" "cs1 = c1 # cs'"
    by (auto simp: Let_def split: prod.splits)
  from c_ToK8SSpec_container [OF c] have "c1 = c\<lparr>c_Name := kcName k\<rparr>" "kcName k \<noteq> ''''"
    by auto
  with Cons.IH [OF cs] r show ?case by auto
qed

lemma LabelSelector_twice:
  "LabelSelector p = (m, p1) \<Longrightarrow> LabelSelector p1 = (m, p1)"
  by (auto simp: LabelSelector_def Let_def split: option.splits)

text \<open>Rendering the same pod again gives the same specification and changes nothing more.\<close>

lemma p_ToK8SSpec_twice:
  assumes "p_ToK8SSpec E p w = ((spec, p1), w1)"
  shows "p_ToK8SSpec E p1 w' = ((spec, p1), w')"
proof -
  obtain ks cs wa where c: "ContainersToK8SSpec E (p_Containers p) w = ((ks, cs), wa)"
    by (metis surj_pair)
  show ?thesis
  proof (cases "p_InitContainers p")
    case None
    with assms show ?thesis
      by (auto simp: p_ToK8SSpec_def c ContainersToK8SSpec_twice [OF c] LabelSelector_def Let_def)
  next
    case (Some ics)
    obtain iks ics1 wb where i: "ContainersToK8SSpec E ics wa = ((iks, ics1), wb)"
      by (metis surj_pair)
    with assms Some show ?thesis
      by (auto simp: p_ToK8SSpec_def c ContainersToK8SSpec_twice [OF c]
            ContainersToK8SSpec_twice [OF i] LabelSelector_def Let_def)
  qed
qed

text \<open>What rendering a pod changes in it: the names of its containers and its labels.\<close>

lemma p_ToK8SSpec_pod:
  assumes "p_ToK8SSpec E p w = ((spec, p1), w1)"
  shows "p1 = p\<lparr>p_Containers := p_Containers p1, p_InitContainers := p_InitContainers p1,
                 p_Labels := p_Labels p1\<rparr>"
    and "map c_Name (p_Containers p1) = map kcName (psContainers (kpSpec spec))"
    and "\<forall>c \<in> set (p_Containers p1). c_Name c \<noteq> ''''"
    and "length (p_Containers p1) = length (p_Containers p)"
    and "p_Labels p1 = Some (kpLabels spec)"
    and "kpName spec = p_Name p" and "kpNamespace spec = p_Namespace p"
    and "kpPhase spec = ''''" and "psNodeName (kpSpec spec) = ''''"
proof -
  obtain ks cs wa where c: "ContainersToK8SSpec E (p_Containers p) w = ((ks, cs), wa)"
    by (metis surj_pair)
  note cc = ContainersToK8SSpec_containers [OF c]
  show "p1 = p\<lparr>p_Containers := p_Containers p1, p_InitContainers := p_InitContainers p1,
                 p_Labels := p_Labels p1\<rparr>"
    and "p_Labels p1 = Some (kpLabels spec)"
    and "kpName spec = p_Name p" and "kpNamespace spec = p_Namespace p"
    and "kpPhase spec = ''''" and "psNodeName (kpSpec spec) = ''''"
    using assms
    by (auto simp: p_ToK8SSpec_def c LabelSelector_def Let_def zero_pod_spec_def
          split: option.splits prod.splits if_splits)
  have p1: "p_Containers p1 = cs" and k: "psContainers (kpSpec spec) = ks"
    using assms
    by (auto simp: p_ToK8SSpec_def c LabelSelector_def Let_def zero_pod_spec_def
          split: option.splits prod.splits if_splits)
  show "map c_Name (p_Containers p1) = map kcName (psContainers (kpSpec spec))"
    using cc by (simp add: p1 k)
  show "length (p_Containers p1) = length (p_Containers p)"
    using conjunct1 [OF cc, THEN list_all2_lengthD] by (simp add: p1)
  show "\<forall>c \<in> set (p_Containers p1). c_Name c \<noteq> ''''"
    using conjunct1 [OF cc] unfolding p1
    by (induction rule: list_all2_induct) simp_all
qed

lemma p_ToK8SSpec_PodString:
  assumes "p_ToK8SSpec E p w = ((spec, p1), w1)"
  shows "PodString p1 = PodString p"
  by (subst p_ToK8SSpec_pod(1) [OF assms]) (simp add: PodString_def)

text \<open>The node a pod is pinned to appears as a node selector, and only there.\<close>

lemma p_ToK8SSpec_node:
  assumes "p_ToK8SSpec E p w = ((spec, p1), w1)"
  shows "psNodeSelector (kpSpec spec) =
    (if p_NodeName p = '''' then Map.empty else [''kubernetes.io/hostname'' \<mapsto> p_NodeName p])"
proof -
  obtain ks cs wa where c: "ContainersToK8SSpec E (p_Containers p) w = ((ks, cs), wa)"
    by (metis surj_pair)
  show ?thesis
    using assms
    by (auto simp: p_ToK8SSpec_def c LabelSelector_def Let_def zero_pod_spec_def
          split: option.splits prod.splits if_splits)
qed

section \<open>Properties\<close>

definition demo_model_pod :: "string \<Rightarrow> pod" where
  "demo_model_pod name =
     \<lparr>p_Namespace = ''x'', p_Name = name, p_NodeName = ''n1'', p_InitContainers = None,
      p_Containers = [\<lparr>c_Name = '''', c_Image = NotSpecifiedImage, c_Command = [],
                       c_Protocol = ProtocolTCP, c_Port = 80\<rparr>],
      p_ExternalIPs = [], p_SkipProbe = False, p_serviceName = '''', p_clusterIP = '''', p_PodIP = '''',
      p_HostIP = '''', p_ToPort = 0, p_HostNetwork = False, p_Labels = None\<rparr>"

text \<open>
  C35. The pod strings that identify pods in the reachability matrix determine them: as long as no
  name holds a slash (Kubernetes names do not), the three accessors give back node, namespace and
  name, and two pods have the same pod string only when they agree in all three.
\<close>

theorem pod_string_identifies:
  assumes "slash_free p" and "slash_free q"
  shows "ps_NodeName (PodString p) = Inr (p_NodeName p) \<and> ps_Namespace (PodString p) = Inr (p_Namespace p) \<and>
         ps_PodName (PodString p) = Inr (p_Name p) \<and>
         (PodString p = PodString q \<longleftrightarrow>
          (p_NodeName p, p_Namespace p, p_Name p) = (p_NodeName q, p_Namespace q, p_Name q))"
  using assms by (simp add: PodString_inject)

theorem pod_string_identifies_witness:
  "ps_PodName (PodString (demo_model_pod ''a'')) = Inr ''a'' \<and>
   PodString (demo_model_pod ''a'') \<noteq> PodString (demo_model_pod ''b'')"
proof -
  have s: "slash_free (demo_model_pod ''a'')" "slash_free (demo_model_pod ''b'')"
    by (simp_all add: slash_free_def demo_model_pod_def)
  have n: "p_Name (demo_model_pod x) = x" for x by (simp add: demo_model_pod_def)
  from pod_string_identifies [OF s] show ?thesis by (simp add: n)
qed

text \<open>
  Each accessor of a pod string panics exactly on the strings with fewer than two slashes,
  so never on the string of a pod.
\<close>

lemma pod_string_accessors_panic:
  "((\<exists>e. ps_NodeName ps = Inl e) \<longleftrightarrow> count_list ps CHR ''/'' < 2) \<and>
   ((\<exists>e. ps_Namespace ps = Inl e) \<longleftrightarrow> count_list ps CHR ''/'' < 2) \<and>
   ((\<exists>e. ps_PodName ps = Inl e) \<longleftrightarrow> count_list ps CHR ''/'' < 2) \<and>
   (\<exists>name. ps_PodName (PodString p) = Inr name)"
proof -
  obtain a b c where "ps_split (PodString p) = Inr (a, b, c)" using ps_split_PodString_total by (metis surj_pair)
  moreover have "(\<exists>e. ps_split ps = Inl e) \<longleftrightarrow> count_list ps CHR ''/'' < 2" by (simp add: ps_split_panics)
  ultimately show ?thesis
    by (cases "ps_split ps") (auto simp: ps_NodeName_def ps_Namespace_def ps_PodName_def)
qed

text \<open>
  C36. Rendering a pod for Kubernetes settles it: rendering the pod it leaves behind gives the same
  specification, draws no more random names and changes nothing; its identity is kept, each
  container has the name it was rendered with, and the node it is assigned to is selected.
\<close>

theorem rendering_settles_pod:
  assumes "p_ToK8SSpec E p w = ((spec, p1), w1)"
  shows "p_ToK8SSpec E p1 w2 = ((spec, p1), w2) \<and> PodString p1 = PodString p \<and>
         map c_Name (p_Containers p1) = map kcName (psContainers (kpSpec spec)) \<and>
         psNodeSelector (kpSpec spec) =
           (if p_NodeName p = '''' then Map.empty else [''kubernetes.io/hostname'' \<mapsto> p_NodeName p])"
  using p_ToK8SSpec_twice [OF assms] p_ToK8SSpec_PodString [OF assms] p_ToK8SSpec_pod(2) [OF assms]
    p_ToK8SSpec_node [OF assms] by simp

theorem rendering_settles_pod_witness:
  "\<exists>spec p1. p_ToK8SSpec demo_client (demo_model_pod ''a'') 0 = ((spec, p1), 0) \<and>
     p_ToK8SSpec demo_client p1 5 = ((spec, p1), 5) \<and>
     psNodeSelector (kpSpec spec) = [''kubernetes.io/hostname'' \<mapsto> ''n1'']"
proof -
  obtain spec p1 w1 where r: "p_ToK8SSpec demo_client (demo_model_pod ''a'') 0 = ((spec, p1), w1)"
    by (metis surj_pair)
  moreover have "w1 = 0"
    using r by (auto simp: p_ToK8SSpec_def c_ToK8SSpec_def GetName_def PortName_def demo_model_pod_def Let_def
        split: prod.splits)
  moreover have "p_NodeName (demo_model_pod ''a'') = ''n1''" by (simp add: demo_model_pod_def)
  ultimately show ?thesis using rendering_settles_pod [OF r] by simp
qed

end
