(* ===== verification/Namespaces.thy ===== *)
theory Namespaces
  imports Pods
begin

text \<open>
  \<open>pkg/entities/namespace.go\<close>. Pods are shared through pointers (a namespace, the model's cache
  and a reachability table hold the same pods), so they live in a store: a pod reference is a
  position in the list of all pods ever created, and creating pods appends to it. A namespace
  holds references.
\<close>

type_synonym pod_ref = nat
type_synonym pod_store = "pod list"

definition IPerfNamespaceSuffix :: string where
  "IPerfNamespaceSuffix = ''-iperf''"

record namespace =
  ns_Name :: string
  ns_Pods :: "pod_ref list"

definition ns_LabelSelector :: "namespace \<Rightarrow> labels" where
  "ns_LabelSelector ns = [''ns'' \<mapsto> ns_Name ns]"

definition ns_Spec :: "namespace \<Rightarrow> v1_namespace" where
  "ns_Spec ns = \<lparr>knName = ns_Name ns, knLabels = ns_LabelSelector ns\<rparr>"

text \<open>A pod literal that names only its namespace, name and containers; every other field is zero.\<close>

definition new_pod :: "string \<Rightarrow> string \<Rightarrow> container list \<Rightarrow> pod" where
  "new_pod namespaceName podName cs =
     \<lparr>p_Namespace = namespaceName, p_Name = podName, p_NodeName = '''', p_InitContainers = None,
      p_Containers = cs, p_ExternalIPs = [], p_SkipProbe = False, p_serviceName = '''',
      p_clusterIP = '''', p_PodIP = '''', p_HostIP = '''', p_ToPort = 0, p_HostNetwork = False,
      p_Labels = None\<rparr>"

text \<open>The two nested loops over ports and protocols.\<close>

definition port_containers ::
  "int32 list \<Rightarrow> protocol list \<Rightarrow> (int32 \<Rightarrow> protocol \<Rightarrow> container) \<Rightarrow> container list" where
  "port_containers ports protocols mk =
     concat (map (\<lambda>port. map (\<lambda>protocol. mk port protocol) protocols) ports)"

text \<open>The pods are put into the store one after the other, and the namespace refers to them.\<close>

definition alloc_namespace :: "string \<Rightarrow> pod list \<Rightarrow> pod_store \<Rightarrow> namespace \<times> pod_store" where
  "alloc_namespace name pods h =
     (\<lparr>ns_Name = name, ns_Pods = [length h ..< length h + length pods]\<rparr>, h @ pods)"

definition NewNamespaceWithPodsGivenImageAndCommand ::
  "string \<Rightarrow> string list \<Rightarrow> int32 list \<Rightarrow> protocol list \<Rightarrow> string \<Rightarrow> string list \<Rightarrow>
   pod_store \<Rightarrow> namespace \<times> pod_store" where
  "NewNamespaceWithPodsGivenImageAndCommand namespaceName podNames ports protocols img command h =
     (let mk = (\<lambda>port protocol. \<lparr>c_Name = '''', c_Image = img, c_Command = command,
                                 c_Protocol = protocol, c_Port = port\<rparr>);
          pods = map (\<lambda>podName. new_pod namespaceName podName (port_containers ports protocols mk)) podNames
      in alloc_namespace namespaceName pods h)"

definition NewNamespaceWithIPerfPods ::
  "string \<Rightarrow> string list \<Rightarrow> int32 list \<Rightarrow> protocol list \<Rightarrow> pod_store \<Rightarrow> namespace \<times> pod_store" where
  "NewNamespaceWithIPerfPods namespaceName podNames ports protocols h =
     (let mk = (\<lambda>port protocol. \<lparr>c_Name = '''', c_Image = AgnhostImage,
                                 c_Command = iperf_ServeCommand (NewIPerfServer (sint port) protocol),
                                 c_Protocol = protocol, c_Port = port\<rparr>);
          pods = map (\<lambda>podName. new_pod namespaceName podName (port_containers ports protocols mk)) podNames
      in alloc_namespace namespaceName pods h)"

definition NewNamespaceWithPods ::
  "string \<Rightarrow> string list \<Rightarrow> int32 list \<Rightarrow> protocol list \<Rightarrow> pod_store \<Rightarrow> namespace \<times> pod_store" where
  "NewNamespaceWithPods namespaceName podNames ports protocols h =
     NewNamespaceWithPodsGivenImageAndCommand namespaceName podNames ports protocols
       NotSpecifiedImage [] h"

section \<open>What a new namespace holds\<close>

text \<open>A namespace is allocated in a store when all its references are in it.\<close>

definition ns_allocated :: "pod_store \<Rightarrow> namespace \<Rightarrow> bool" where
  "ns_allocated h ns \<longleftrightarrow> (\<forall>r \<in> set (ns_Pods ns). r < length h)"

definition pods_of :: "pod_store \<Rightarrow> namespace \<Rightarrow> pod list" where
  "pods_of h ns = map (\<lambda>r. h ! r) (ns_Pods ns)"

lemma alloc_namespace_pods:
  assumes "alloc_namespace name pods h = (ns, h')"
  shows "h' = h @ pods" and "pods_of h' ns = pods" and "ns_Name ns = name"
    and "ns_Pods ns = [length h ..< length h']"
proof -
  show h': "h' = h @ pods" and "ns_Name ns = name" and r: "ns_Pods ns = [length h ..< length h']"
    using assms by (auto simp: alloc_namespace_def)
  show "pods_of h' ns = pods"
    unfolding pods_of_def r h' by (rule nth_equalityI) (simp_all add: nth_append)
qed

lemma alloc_namespace_refs:
  assumes "alloc_namespace name pods h = (ns, h')"
  shows "ns_allocated h' ns" and "\<forall>r \<in> set (ns_Pods ns). length h \<le> r" and "distinct (ns_Pods ns)"
  using alloc_namespace_pods(4) [OF assms] by (auto simp: ns_allocated_def)

text \<open>Both constructors allocate pods with the given names, in the new namespace.\<close>

lemma new_namespace_alloc:
  shows "\<exists>pods. NewNamespaceWithPodsGivenImageAndCommand n podNames ports protocols img command h =
                  alloc_namespace n pods h \<and>
                map p_Name pods = podNames \<and> (\<forall>p \<in> set pods. p_Namespace p = n)"
    and "\<exists>pods. NewNamespaceWithIPerfPods n podNames ports protocols h = alloc_namespace n pods h \<and>
                map p_Name pods = podNames \<and> (\<forall>p \<in> set pods. p_Namespace p = n)"
  unfolding NewNamespaceWithPodsGivenImageAndCommand_def NewNamespaceWithIPerfPods_def Let_def
  by (rule exI, rule conjI, rule refl, simp add: new_pod_def o_def)+

text \<open>Every pod gets one container per port and protocol, in the order of the loops.\<close>

lemma port_containers_product:
  "port_containers ports protocols mk = map (\<lambda>(port, protocol). mk port protocol) (List.product ports protocols)"
  by (induction ports) (simp_all add: port_containers_def)

lemma NewNamespaceGiven_containers:
  assumes "NewNamespaceWithPodsGivenImageAndCommand n podNames ports protocols img command h = (ns, h')"
    and "p \<in> set (pods_of h' ns)"
  shows "map (\<lambda>c. (c_Port c, c_Protocol c)) (p_Containers p) = List.product ports protocols"
    and "\<forall>c \<in> set (p_Containers p). c_Name c = '''' \<and> c_Image c = img \<and> c_Command c = command"
proof -
  from assms obtain podName where
    "p = new_pod n podName (port_containers ports protocols
           (\<lambda>port protocol. \<lparr>c_Name = '''', c_Image = img, c_Command = command,
              c_Protocol = protocol, c_Port = port\<rparr>))"
    using assms(2)
      alloc_namespace_pods(2) [OF assms(1) [unfolded NewNamespaceWithPodsGivenImageAndCommand_def Let_def]]
    by auto
  then show "map (\<lambda>c. (c_Port c, c_Protocol c)) (p_Containers p) = List.product ports protocols"
    and "\<forall>c \<in> set (p_Containers p). c_Name c = '''' \<and> c_Image c = img \<and> c_Command c = command"
    by (auto simp: new_pod_def port_containers_product o_def case_prod_unfold)
qed

text \<open>
  Rendering such a pod gives its containers different names (Kubernetes rejects a pod whose
  containers share one), as long as the ports are different positive numbers and the protocols
  differ in lower case.
\<close>

lemma ContainersToK8SSpec_unnamed:
  assumes "\<forall>c \<in> set cs. c_Name c = '''' \<and> c_Port c \<noteq> 0"
    and "ContainersToK8SSpec E cs w = ((ks, cs1), w1)"
  shows "map kcName ks = map (\<lambda>c. ''cont-'' @ port_proto (c_Port c) (c_Protocol c)) cs"
  using assms
proof (induction cs arbitrary: w ks cs1 w1)
  case Nil
  then show ?case by simp
next
  case (Cons c cs)
  then obtain k c1 wa ks' cs' where
      c: "c_ToK8SSpec E c w = ((k, c1), wa)" and
      cs: "ContainersToK8SSpec E cs wa = ((ks', cs'), w1)" and
      r: "ks = k # ks'" "cs1 = c1 # cs'"
    by (auto simp: Let_def split: prod.splits)
  have "kcName k = ''cont-'' @ port_proto (c_Port c) (c_Protocol c)"
    using c Cons.prems(1)
    by (auto simp: c_ToK8SSpec_def GetName_def Let_def split: prod.splits if_splits)
  with Cons.IH [OF _ cs] Cons.prems(1) r show ?case by simp
qed

lemma container_names_distinct:
  assumes "distinct ports" and "\<forall>p \<in> set ports. 0 < sint p"
    and "distinct (map ToLower protocols)"
    and "map (\<lambda>c. (c_Port c, c_Protocol c)) cs = List.product ports protocols"
    and "\<forall>c \<in> set cs. c_Name c = ''''"
    and "ContainersToK8SSpec E cs w = ((ks, cs1), w1)"
  shows "distinct (map kcName ks)"
proof -
  let ?pp = "\<lambda>(p, x). ''cont-'' @ port_proto p x"
  have ports: "c_Port c \<in> set ports" if "c \<in> set cs" for c
    using arg_cong [OF assms(4), of set] that by (auto simp: image_iff set_eq_iff)
  have "\<forall>c \<in> set cs. c_Name c = '''' \<and> c_Port c \<noteq> 0"
    using ports assms(2,5) by fastforce
  then have "map kcName ks = map (\<lambda>c. ''cont-'' @ port_proto (c_Port c) (c_Protocol c)) cs"
    using assms(6) by (rule ContainersToK8SSpec_unnamed)
  also have "\<dots> = map ?pp (map (\<lambda>c. (c_Port c, c_Protocol c)) cs)" by simp
  also have "\<dots> = map ?pp (List.product ports protocols)" by (simp only: assms(4))
  finally have eq: "map kcName ks = map ?pp (List.product ports protocols)" .
  have "distinct (List.product ports protocols)"
    using assms(1,3) distinct_map by (auto intro: distinct_product)
  moreover have "inj_on ?pp (set (List.product ports protocols))"
  proof (rule inj_onI, clarsimp)
    fix p x q y
    assume *: "p \<in> set ports" "q \<in> set ports" "x \<in> set protocols" "y \<in> set protocols"
      "port_proto p x = port_proto q y"
    then have "p = q" and "ToLower x = ToLower y"
      using assms(2) by (auto simp: port_proto_inject less_imp_le)
    moreover have "inj_on ToLower (set protocols)" using assms(3) by (simp add: distinct_map)
    ultimately show "p = q \<and> x = y" using * by (auto dest: inj_onD)
  qed
  ultimately show ?thesis by (simp add: eq distinct_map)
qed

lemma IsPerf_iperf_command:
  assumes "p_Containers p = c # cs" and "c_Command c = iperf_ServeCommand (NewIPerfServer port proto)"
    and "proto \<in> {ProtocolTCP, ProtocolUDP, ProtocolSCTP}"
  shows "IsPerf p"
proof -
  have "Contains ''/usr/bin/iperf'' ''iperf''" by (simp add: Contains_def)
  with assms show ?thesis
    by (auto simp: IsPerf_def iperf_ServeCommand_def NewIPerfServer_def Let_def)
qed

section \<open>Two pods, for the examples\<close>

definition demo_board_pod :: "string \<Rightarrow> pod" where
  "demo_board_pod name =
     (new_pod ''x'' name [\<lparr>c_Name = ''cont-80-tcp'', c_Image = NotSpecifiedImage, c_Command = [],
                           c_Protocol = ProtocolTCP, c_Port = 80\<rparr>])\<lparr>p_NodeName := ''n1'', p_PodIP := ''10.0.0.1''\<rparr>"

definition demo_store :: pod_store where
  "demo_store = [demo_board_pod ''a'', demo_board_pod ''b'']"

lemma demo_pods:
  "demo_store ! 0 = demo_board_pod ''a''" "demo_store ! 1 = demo_board_pod ''b''"
  "p_Name (demo_board_pod n) = n" "p_Namespace (demo_board_pod n) = ''x''"
  "p_NodeName (demo_board_pod n) = ''n1''" "\<not> p_SkipProbe (demo_board_pod n)"
  by (simp_all add: demo_store_def demo_board_pod_def new_pod_def)

lemma demo_slash_free: "slash_free (demo_store ! 0)" "slash_free (demo_store ! 1)"
  unfolding slash_free_def demo_pods by simp_all

section \<open>Properties\<close>

text \<open>
  Every pod of a new namespace gets one container for each port and protocol, in the order of
  the loops, and when ports are distinct positive numbers and the protocols differ in lower case,
  rendering a pod gives its containers distinct names (Kubernetes rejects a pod otherwise).
\<close>

lemma new_namespace_containers:
  assumes "NewNamespaceWithPodsGivenImageAndCommand n podNames ports protocols img command h = (ns, h')"
    and "r \<in> set (ns_Pods ns)"
    and "distinct ports" and "\<forall>p \<in> set ports. 0 < sint p" and "distinct (map ToLower protocols)"
    and "p_ToK8SSpec E (h' ! r) w = ((spec, p1), w1)"
  shows "map (\<lambda>c. (c_Port c, c_Protocol c)) (p_Containers (h' ! r)) = List.product ports protocols \<and>
         distinct (map kcName (psContainers (kpSpec spec)))"
proof -
  have "h' ! r \<in> set (pods_of h' ns)" using assms(2) by (simp add: pods_of_def)
  note c = NewNamespaceGiven_containers [OF assms(1) this]
  obtain ks cs wa where k: "ContainersToK8SSpec E (p_Containers (h' ! r)) w = ((ks, cs), wa)"
    by (metis surj_pair)
  have "psContainers (kpSpec spec) = ks"
    using assms(6)
    by (auto simp: p_ToK8SSpec_def k LabelSelector_def Let_def zero_pod_spec_def
          split: option.splits prod.splits if_splits)
  with container_names_distinct [OF assms(3-5) c(1) _ k] c show ?thesis by simp
qed

end
