(* ===== verification/Services.thy ===== *)
theory Services
  imports Namespaces
begin

text \<open>
  \<open>pkg/entities/service.go\<close>: Kubernetes services built from a pod. Every service gets a number
  from the process-wide counter \<open>SvcID\<close> (nil before its first use), so that no two services of a
  run share a name.
\<close>

abbreviation PodIP :: string where "PodIP \<equiv> ''podip''"
abbreviation ClusterIP :: string where "ClusterIP \<equiv> ''clusteip''"
abbreviation NodePort :: string where "NodePort \<equiv> ''nodeport''"
abbreviation ExternalName :: string where "ExternalName \<equiv> ''externalname''"
abbreviation LoadBalancer :: string where "LoadBalancer \<equiv> ''loadbalancer''"
abbreviation Allprotocols :: string where "Allprotocols \<equiv> ''allprotocols''"

record protocol_port_pair =
  ppp_Protocol :: protocol
  ppp_Port :: int32

record service_template =
  t_Name :: string
  t_Namespace :: string
  t_Selector :: labels
  t_ProtocolPorts :: "protocol_port_pair list"
  t_SessionAffinity :: bool

section \<open>Service numbers\<close>

type_synonym svc_id = "int option"

definition IncreaseServiceID :: "svc_id \<Rightarrow> svc_id" where
  "IncreaseServiceID s = Some ((case s of None \<Rightarrow> 0 | Some n \<Rightarrow> n) + 1)"

definition SvcID_ID :: "svc_id \<Rightarrow> int go" where
  "SvcID_ID s = (case s of None \<Rightarrow> Inl NilDereference | Some n \<Rightarrow> Inr n)"

definition svc_count :: "svc_id \<Rightarrow> int" where
  "svc_count s = (case s of None \<Rightarrow> 0 | Some n \<Rightarrow> n)"

lemma SvcID_after_increase: "SvcID_ID (IncreaseServiceID s) = Inr (svc_count s + 1)"
  by (simp add: SvcID_ID_def IncreaseServiceID_def svc_count_def)

lemma svc_count_increase [simp]: "svc_count (IncreaseServiceID s) = svc_count s + 1"
  by (simp add: svc_count_def IncreaseServiceID_def)

section \<open>Services of a pod\<close>

text \<open>The pod's labels are the selector, created in the pod when it has none.\<close>

definition NewService :: "pod \<Rightarrow> svc_id \<Rightarrow> ((v1_service \<times> pod) \<times> svc_id) go" where
  "NewService p s =
     (let s1 = IncreaseServiceID s in
      go_bind (SvcID_ID s1) (\<lambda>ID.
        let (sel, p1) = LabelSelector p
        in Inr ((zero_service\<lparr>ksName := ServiceName p @ ''-'' @ Itoa ID, ksNamespace := p_Namespace p,
                              ksSelector := sel\<rparr>, p1), s1)))"

definition container_service_port :: "container \<Rightarrow> v1_service_port" where
  "container_service_port c =
     \<lparr>spName = ''service-port-'' @ ToLower (c_Protocol c) @ ''-'' @ Itoa (sint (c_Port c)),
      spProtocol = c_Protocol c, spPort = c_Port c, spNodePort = 0\<rparr>"

text \<open>The set of ports (a map to \<open>true\<close>), and the list of its keys in the order of the map's range.\<close>

fun portsSet :: "container list \<Rightarrow> protocol \<Rightarrow> (v1_service_port, bool) gomap \<Rightarrow> (v1_service_port, bool) gomap"
where
  "portsSet [] protocol m = m"
| "portsSet (c # cs) protocol m =
     (if protocol \<noteq> Allprotocols \<and> protocol \<noteq> c_Protocol c then portsSet cs protocol m
      else portsSet cs protocol (AList.update (container_service_port c) True m))"

definition portFromContainer ::
  "('w, 'z) go_runtime_scheme \<Rightarrow> container list \<Rightarrow> protocol \<Rightarrow> 'w \<Rightarrow> v1_service_port list \<times> 'w" where
  "portFromContainer E containers protocol w =
     (let m = portsSet containers protocol [];
          (is, w1) = goOrder E (length m) w
      in (map fst (in_order is m), w1))"

text \<open>The services of each type: the base service with its type, and its ports where it has any.\<close>

definition service_with_ports ::
  "('w, 'z) go_runtime_scheme \<Rightarrow> pod \<Rightarrow> (v1_service \<Rightarrow> v1_service) \<Rightarrow> protocol \<Rightarrow> svc_id \<Rightarrow> 'w \<Rightarrow>
   ((v1_service \<times> pod) \<times> svc_id \<times> 'w) go" where
  "service_with_ports E p upd protocol s w =
     go_bind (NewService p s) (\<lambda>((service, p1), s1).
       let (ports, w1) = portFromContainer E (p_Containers p1) protocol w
       in Inr (((upd service)\<lparr>ksPorts := ports\<rparr>, p1), s1, w1))"

definition ClusterIPService ::
  "('w, 'z) go_runtime_scheme \<Rightarrow> pod \<Rightarrow> svc_id \<Rightarrow> 'w \<Rightarrow> ((v1_service \<times> pod) \<times> svc_id \<times> 'w) go" where
  "ClusterIPService E p s w =
     service_with_ports E p (\<lambda>service. service\<lparr>ksType := ''ClusterIP''\<rparr>) Allprotocols s w"

definition NodePortService ::
  "('w, 'z) go_runtime_scheme \<Rightarrow> pod \<Rightarrow> svc_id \<Rightarrow> 'w \<Rightarrow> ((v1_service \<times> pod) \<times> svc_id \<times> 'w) go" where
  "NodePortService E p s w =
     service_with_ports E p (\<lambda>service. service\<lparr>ksType := ''NodePort''\<rparr>) Allprotocols s w"

definition ExternalNameService :: "pod \<Rightarrow> string \<Rightarrow> svc_id \<Rightarrow> ((v1_service \<times> pod) \<times> svc_id) go" where
  "ExternalNameService p domain s =
     go_bind (NewService p s) (\<lambda>((service, p1), s1).
       Inr ((service\<lparr>ksType := ''ExternalName'', ksExternalName := domain\<rparr>, p1), s1))"

definition LoadBalancerServiceByProtocol ::
  "('w, 'z) go_runtime_scheme \<Rightarrow> pod \<Rightarrow> protocol \<Rightarrow> svc_id \<Rightarrow> 'w \<Rightarrow>
   ((v1_service \<times> pod) \<times> svc_id \<times> 'w) go" where
  "LoadBalancerServiceByProtocol E p protocol s w =
     service_with_ports E p (\<lambda>service. service\<lparr>ksType := ''LoadBalancer''\<rparr>) protocol s w"

definition NodePortLocalService ::
  "('w, 'z) go_runtime_scheme \<Rightarrow> pod \<Rightarrow> svc_id \<Rightarrow> 'w \<Rightarrow> ((v1_service \<times> pod) \<times> svc_id \<times> 'w) go" where
  "NodePortLocalService E p s w =
     service_with_ports E p
       (\<lambda>service. service\<lparr>ksType := ''NodePort'', ksExternalTrafficPolicy := ''Local''\<rparr>) Allprotocols s w"

section \<open>Ports\<close>

definition wanted_container :: "protocol \<Rightarrow> container \<Rightarrow> bool" where
  "wanted_container protocol c \<longleftrightarrow> protocol = Allprotocols \<or> protocol = c_Protocol c"

lemma portsSet_wf: "gomap_wf m \<Longrightarrow> gomap_wf (portsSet cs protocol m)"
  by (induction cs protocol m rule: portsSet.induct) auto

lemma portsSet_keys:
  "fst ` set (portsSet cs protocol m) =
     fst ` set m \<union> container_service_port ` set (filter (wanted_container protocol) cs)"
  by (induction cs protocol m rule: portsSet.induct) (auto simp: keys_update wanted_container_def)

text \<open>
  Whatever order the map is ranged over in, the ports of a service are those of the wanted
  containers, each once.
\<close>

lemma portFromContainer_ports:
  assumes "order_law E" and "portFromContainer E cs protocol w = (ports, w1)"
  shows "distinct ports"
    and "set ports = container_service_port ` set (filter (wanted_container protocol) cs)"
proof -
  let ?m = "portsSet cs protocol []"
  obtain "is" where o: "goOrder E (length ?m) w = (is, w1)" and ports: "ports = map fst (in_order is ?m)"
    using assms(2) by (auto simp: portFromContainer_def Let_def split: prod.splits)
  have perm: "mset (in_order is ?m) = mset ?m" by (rule mset_goOrder [OF assms(1) o])
  have mset: "mset ports = mset (map fst ?m)"
    unfolding ports mset_map perm ..
  have "distinct (map fst ?m)" using portsSet_wf [of "[]" cs protocol] by (simp add: gomap_wf_def)
  with mset show "distinct ports" by (metis mset_eq_imp_distinct_iff)
  have "set ports = set (map fst ?m)" by (rule mset_eq_setD [OF mset])
  then show "set ports = container_service_port ` set (filter (wanted_container protocol) cs)"
    by (simp add: portsSet_keys)
qed

section \<open>Service names\<close>

lemma NewService_name:
  assumes "NewService p s = Inr ((service, p1), s1)"
  shows "ksName service = ServiceName p @ ''-'' @ Itoa (svc_count s + 1)"
    and "svc_count s1 = svc_count s + 1"
    and "ksNamespace service = p_Namespace p"
    and "ksSelector service ''pod'' = Some (p_Name p)"
    and "p_Labels p1 = Some (ksSelector service)"
    and "p_Containers p1 = p_Containers p"
  using assms
  by (auto simp: NewService_def SvcID_after_increase Let_def LabelSelector_def zero_service_def
        split: prod.splits)

lemma NewService_total: "\<exists>r. NewService p s = Inr r"
  by (auto simp: NewService_def SvcID_after_increase Let_def split: prod.splits)

text \<open>
  The interface of whatever draws service numbers: each draw returns a text that ends in a dash
  and the number drawn, and moves the counter on. Names drawn at different counts differ, no
  matter what stands before the number.
\<close>

locale numbered_names =
  fixes draw :: "'a \<Rightarrow> svc_id \<Rightarrow> (string \<times> svc_id) go"
  assumes draw_name:
      "draw x s = Inr (name, s1) \<Longrightarrow>
       \<exists>stem. name = stem @ ''-'' @ Itoa (svc_count s + 1)"
    and draw_count: "draw x s = Inr (name, s1) \<Longrightarrow> svc_count s1 = svc_count s + 1"
    and draw_total: "\<exists>r. draw x s = Inr r"
begin

lemma draws_differ:
  assumes "draw x s = Inr (name, s1)" and "draw y t = Inr (name', t1)"
    and "0 \<le> svc_count s" and "svc_count s < svc_count t"
  shows "name \<noteq> name'"
proof
  assume "name = name'"
  moreover obtain a where "name = a @ ''-'' @ Itoa (svc_count s + 1)" using draw_name assms(1) by blast
  moreover obtain b where "name' = b @ ''-'' @ Itoa (svc_count t + 1)" using draw_name assms(2) by blast
  ultimately have "a @ ''-'' @ dec_nat (nat (svc_count s + 1)) = b @ ''-'' @ dec_nat (nat (svc_count t + 1))"
    using assms(3,4) by (simp add: Itoa_def)
  then have "nat (svc_count s + 1) = nat (svc_count t + 1)" using dash_number_inject by blast
  with assms(3,4) show False by simp
qed

text \<open>A list of draws, one after the other: all names differ.\<close>

lemma draw_list:
  assumes "0 \<le> svc_count s"
  shows "\<exists>names s1. go_fold (\<lambda>x (names, s). go_bind (draw x s) (\<lambda>(name, s1). Inr (names @ [name], s1)))
            xs (ns0, s) = Inr (ns0 @ names, s1) \<and> length names = length xs \<and>
          svc_count s1 = svc_count s + int (length xs) \<and> distinct names \<and>
          (\<forall>n \<in> set names. \<exists>stem k. n = stem @ ''-'' @ Itoa k \<and> svc_count s < k \<and> k \<le> svc_count s1)"
  using assms
proof (induction xs arbitrary: s ns0)
  case Nil
  then show ?case by simp
next
  case (Cons x xs)
  obtain name s1 where d: "draw x s = Inr (name, s1)" using draw_total [of x s] by (metis surj_pair)
  note c1 = draw_count [OF d]
  have "0 \<le> svc_count s1" using Cons.prems c1 by simp
  from Cons.IH [OF this, of "ns0 @ [name]"] obtain names s2 where
    f: "go_fold (\<lambda>x (names, s). go_bind (draw x s) (\<lambda>(name, s1). Inr (names @ [name], s1)))
          xs (ns0 @ [name], s1) = Inr ((ns0 @ [name]) @ names, s2)" and
    l: "length names = length xs" and c2: "svc_count s2 = svc_count s1 + int (length xs)" and
    dn: "distinct names" and
    st: "\<forall>n \<in> set names. \<exists>stem k. n = stem @ ''-'' @ Itoa k \<and> svc_count s1 < k \<and> k \<le> svc_count s2"
    by auto
  obtain stem where stem: "name = stem @ ''-'' @ Itoa (svc_count s + 1)" using draw_name [OF d] by blast
  have "name \<notin> set names"
  proof
    assume "name \<in> set names"
    with st obtain stem' k where k: "name = stem' @ ''-'' @ Itoa k" "svc_count s1 < k" by blast
    with stem Cons.prems c1 have
      "stem @ ''-'' @ dec_nat (nat (svc_count s + 1)) = stem' @ ''-'' @ dec_nat (nat k)"
      by (simp add: Itoa_def)
    then have "nat (svc_count s + 1) = nat k" using dash_number_inject by blast
    with k c1 Cons.prems show False by simp
  qed
  with d f l c1 c2 dn st stem show ?case
    by (intro exI [of _ "name # names"] exI [of _ s2]) fastforce
qed

end

definition NewService_named :: "pod \<Rightarrow> svc_id \<Rightarrow> (string \<times> svc_id) go" where
  "NewService_named p s = go_bind (NewService p s) (\<lambda>((service, _), s1). Inr (ksName service, s1))"

interpretation pod_services: numbered_names NewService_named
proof
  fix x :: pod and s name s1
  assume "NewService_named x s = Inr (name, s1)"
  then obtain service p1 where n: "NewService x s = Inr ((service, p1), s1)" "name = ksName service"
    by (auto simp: NewService_named_def go_bind_eq_Inr_iff)
  then show "\<exists>stem. name = stem @ ''-'' @ Itoa (svc_count s + 1)" and "svc_count s1 = svc_count s + 1"
    using NewService_name [OF n(1)] by blast+
next
  fix x :: pod and s
  show "\<exists>r. NewService_named x s = Inr r"
    using NewService_total [of x s] by (auto simp: NewService_named_def)
qed

section \<open>Properties\<close>

text \<open>The names of the services made from pods, one after the other.\<close>

definition service_names :: "pod list \<Rightarrow> svc_id \<Rightarrow> (string list \<times> svc_id) go" where
  "service_names ps s =
     go_fold (\<lambda>p (names, s). go_bind (NewService p s) (\<lambda>((service, _), s1). Inr (names @ [ksName service], s1)))
       ps ([], s)"

lemma service_names_draws:
  "service_names ps s =
     go_fold (\<lambda>x (names, s). go_bind (NewService_named x s) (\<lambda>(name, s1). Inr (names @ [name], s1))) ps ([], s)"
  unfolding service_names_def NewService_named_def
  by (rule go_fold_cong) (auto simp: go_bind_def split: sum.splits prod.splits)

text \<open>
  However many services a run makes, from whatever pods, making them never panics, no two of
  them share a name, and the counter counts them.
\<close>

lemma service_names_distinct:
  assumes "0 \<le> svc_count s"
  shows "\<exists>names s1. service_names ps s = Inr (names, s1) \<and> length names = length ps \<and> distinct names \<and>
           svc_count s1 = svc_count s + int (length ps)"
  using pod_services.draw_list [OF assms, of ps "[]"] unfolding service_names_draws by auto

text \<open>
  The ports of a load balancer service for a protocol are those of the pod's containers with
  that protocol, each once, whatever the order in which the set of ports is ranged over; its
  selector is the pod's own label, and the pod keeps its containers.
\<close>

lemma load_balancer_service_ports:
  assumes "order_law E" and "protocol \<noteq> Allprotocols"
    and "LoadBalancerServiceByProtocol E p protocol s w = Inr ((service, p1), s1, w1)"
  shows "distinct (ksPorts service) \<and>
         set (ksPorts service) = container_service_port ` {c \<in> set (p_Containers p). c_Protocol c = protocol} \<and>
         ksType service = ''LoadBalancer'' \<and> ksSelector service ''pod'' = Some (p_Name p) \<and>
         p_Containers p1 = p_Containers p"
proof -
  obtain service0 q t where n: "NewService p s = Inr ((service0, q), t)" using NewService_total by (metis surj_pair)
  obtain xs w2 where x: "portFromContainer E (p_Containers q) protocol w = (xs, w2)" by (metis surj_pair)
  from n x assms(3) have n: "NewService p s = Inr ((service0, p1), s1)"
    and ports: "portFromContainer E (p_Containers p1) protocol w = (ksPorts service, w1)"
    and "ksType service = ''LoadBalancer''" "ksSelector service = ksSelector service0"
    using assms(3)
    by (auto simp: LoadBalancerServiceByProtocol_def service_with_ports_def)
  moreover have "set (filter (wanted_container protocol) (p_Containers p)) =
      {c \<in> set (p_Containers p). c_Protocol c = protocol}"
    using assms(2) by (auto simp: wanted_container_def)
  ultimately show ?thesis
    using portFromContainer_ports [OF assms(1) ports] NewService_name(4,6) [OF n] by simp
qed

end
