(* ===== verification/Reachability.thy ===== *)
theory Reachability
  imports Truth_Table Services
begin

text \<open>
  \<open>pkg/matrix/reachability.go\<close> and \<open>analyzer.go\<close>: the expected and the observed connectivity of
  every ordered pair of pods, and the summary that counts where they agree.
\<close>

record reachability =
  Expected :: truth_table
  Observed :: truth_table
  r_Pods :: "pod_ref list"

record test_case =
  tc_ToPort :: int
  tc_Protocol :: protocol
  tc_Reachability :: "reachability option"
  tc_ServiceType :: string

definition tc_SetServiceType :: "string \<Rightarrow> test_case \<Rightarrow> test_case" where
  "tc_SetServiceType serviceType t = t\<lparr>tc_ServiceType := serviceType\<rparr>"

definition tc_GetServiceType :: "test_case \<Rightarrow> string" where
  "tc_GetServiceType t = tc_ServiceType t"

definition NewReachability :: "pod_store \<Rightarrow> pod_ref list \<Rightarrow> bool \<Rightarrow> reachability" where
  "NewReachability h pods defaultExpectation =
     (let podNames = map (\<lambda>r. PodString (h ! r)) pods
      in \<lparr>Expected = NewTruthTableFromItems podNames (Some defaultExpectation),
          Observed = NewTruthTableFromItems podNames None,
          r_Pods = pods\<rparr>)"

section \<open>The summary\<close>

text \<open>A bandwidth was measured and lies below the benchmark.\<close>

definition too_slow :: "bandwidth_ptr \<Rightarrow> bool" where
  "too_slow bandwidth \<longleftrightarrow> (case bandwidth of None \<Rightarrow> False | Some b \<Rightarrow> below_benchmark b)"

text \<open>One turn of the loop over the comparison; the counters are those of right, wrong and ignored.\<close>

fun summary_step ::
  "bool \<Rightarrow> bool \<Rightarrow> truth_table \<Rightarrow> string \<times> string \<times> bool \<Rightarrow> nat \<times> nat \<times> nat \<Rightarrow> nat \<times> nat \<times> nat" where
  "summary_step ignoreLoopback measureBandWidth observed (from, to, val) (trueObs, falseObs, ignoredObs) =
     (if ignoreLoopback \<and> from = to then (trueObs, falseObs, ignoredObs + 1)
      else if val then
        (if \<not> measureBandWidth then (trueObs + 1, falseObs, ignoredObs)
         else if tt_Get observed from to \<and> too_slow (GetBandwidth observed from to)
           then (trueObs, falseObs + 1, ignoredObs)
           else (trueObs + 1, falseObs, ignoredObs))
      else (trueObs, falseObs + 1, ignoredObs))"

definition Summary :: "reachability \<Rightarrow> bool \<Rightarrow> bool \<Rightarrow> ((nat \<times> nat \<times> nat) \<times> truth_table) go" where
  "Summary r ignoreLoopback measureBandWidth =
     go_bind (Compare (Expected r) (Observed r)) (\<lambda>comparison.
       Inr (fold (summary_step ignoreLoopback measureBandWidth (Observed r))
              (tab_entries (Values comparison)) (0, 0, 0), comparison))"

text \<open>The texts the summary logs.\<close>

definition PrintSummary :: "reachability \<Rightarrow> bool \<Rightarrow> bool \<Rightarrow> bool \<Rightarrow> bool \<Rightarrow> string list go" where
  "PrintSummary r printExpected printObserved printComparison printBandwidth =
     go_bind (Summary r False False) (\<lambda>((right, wrong, ignored), comparison).
       let nl = [NL] in
       Inr ((if 0 < ignored
             then [''warning: this test doesn'' @ [CHR 0x27] @
                   ''t take into consideration hairpin traffic, i.e. traffic whose source and destination is the same pod: ''
                   @ Itoa (int ignored) @ '' cases ignored''] else []) @
            [''Reachability results ('' @ (if wrong = 0 then ''true'' else ''false'') @ ''): correct: ''
               @ Itoa (int right) @ '', incorrect: '' @ Itoa (int wrong)] @
            (if printExpected
             then [''expected:'' @ nl @ nl @ PrettyPrint (Expected r) '''' @ nl @ nl @ nl] else []) @
            (if \<not> printBandwidth \<and> printObserved
             then [''observed:'' @ nl @ nl @ PrettyPrint (Observed r) '''' @ nl @ nl @ nl] else []) @
            (if printBandwidth
             then [''observed bandwidth:'' @ nl @ nl @ PrettyPrintBandwidth (Observed r) '''' @ nl @ nl @ nl]
             else []) @
            (if printComparison
             then [''comparison:'' @ nl @ nl @ PrettyPrint comparison '''' @ nl @ nl @ nl] else [])))"

section \<open>Peers\<close>

record peer =
  peer_Namespace :: string
  peer_Pod :: string

definition Matches :: "peer \<Rightarrow> pod_string \<Rightarrow> bool go" where
  "Matches p ps =
     go_bind (if peer_Namespace p = '''' then Inr True
              else go_bind (ps_Namespace ps) (\<lambda>ns. Inr (peer_Namespace p = ns))) (\<lambda>ns_matches.
     if \<not> ns_matches then Inr False
     else if peer_Pod p = '''' then Inr True
     else go_bind (ps_PodName ps) (\<lambda>name. Inr (peer_Pod p = name)))"

definition ExpectPeer ::
  "pod_store \<Rightarrow> peer \<Rightarrow> peer \<Rightarrow> bool \<Rightarrow> reachability \<Rightarrow> reachability go" where
  "ExpectPeer h from to conn r =
     go_bind
       (go_fold (\<lambda>fromPod e.
          go_bind (Matches from (PodString (h ! fromPod))) (\<lambda>b.
            if \<not> b then Inr e
            else go_fold (\<lambda>toPod e.
                   go_bind (Matches to (PodString (h ! toPod))) (\<lambda>b.
                     if \<not> b then Inr e
                     else tt_Set (PodString (h ! fromPod)) (PodString (h ! toPod)) conn e))
                 (r_Pods r) e))
        (r_Pods r) (Expected r))
       (\<lambda>e. Inr (r\<lparr>Expected := e\<rparr>))"

definition Observe ::
  "pod_string \<Rightarrow> pod_string \<Rightarrow> bool \<Rightarrow> bandwidth_ptr \<Rightarrow> reachability \<Rightarrow> reachability go" where
  "Observe fromPod toPod isConnected bandwidth r =
     go_bind (tt_Set fromPod toPod isConnected (Observed r)) (\<lambda>o1.
     go_bind (SetBandwidth fromPod toPod bandwidth o1) (\<lambda>o2.
       Inr (r\<lparr>Observed := o2\<rparr>)))"

section \<open>Collected results\<close>

record label_rec =
  lb_key :: string
  lb_value :: string

record result_rec =
  rs_Name :: string
  rs_label :: label_rec
  rs_Result :: bool
  rs_WrongNum :: int

definition Collect :: "result_rec \<Rightarrow> result_rec list \<Rightarrow> result_rec list" where
  "Collect r rs = rs @ [r]"

section \<open>What the summary counts\<close>

definition pair_ignored :: "bool \<Rightarrow> string \<Rightarrow> string \<Rightarrow> bool" where
  "pair_ignored ignoreLoopback a b \<longleftrightarrow> ignoreLoopback \<and> a = b"

text \<open>
  A pair is wrong when the observation differs from the expectation (an absent observation counts
  as ``not connected''), or when the bandwidth matters and a connected pair was too slow.
\<close>

definition pair_wrong :: "reachability \<Rightarrow> bool \<Rightarrow> bool \<Rightarrow> string \<Rightarrow> string \<Rightarrow> bool" where
  "pair_wrong r ignoreLoopback measureBandWidth a b \<longleftrightarrow>
     \<not> pair_ignored ignoreLoopback a b \<and>
     (tt_Get (Expected r) a b \<noteq> tt_Get (Observed r) a b \<or>
      measureBandWidth \<and> tt_Get (Observed r) a b \<and> too_slow (GetBandwidth (Observed r) a b))"

definition expected_pairs :: "reachability \<Rightarrow> (string \<times> string) set" where
  "expected_pairs r = {(a, b). tab_get (Values (Expected r)) a b \<noteq> None}"

definition reach_wf :: "reachability \<Rightarrow> bool" where
  "reach_wf r \<longleftrightarrow> tab_wf (Values (Expected r)) \<and> tab_wf (Values (Observed r)) \<and> tab_wf (Bandwidths (Observed r))"

definition entry_ignored :: "bool \<Rightarrow> string \<times> string \<times> bool \<Rightarrow> bool" where
  "entry_ignored ign = (\<lambda>(a, b, v). pair_ignored ign a b)"

definition entry_wrong :: "bool \<Rightarrow> bool \<Rightarrow> truth_table \<Rightarrow> string \<times> string \<times> bool \<Rightarrow> bool" where
  "entry_wrong ign bw obs = (\<lambda>(a, b, v). \<not> pair_ignored ign a b \<and>
     (\<not> v \<or> bw \<and> tt_Get obs a b \<and> too_slow (GetBandwidth obs a b)))"

lemma summary_step_counts:
  "summary_step ign bw obs e (t, f, i) =
     (t + (if \<not> entry_wrong ign bw obs e \<and> \<not> entry_ignored ign e then 1 else 0),
      f + (if entry_wrong ign bw obs e then 1 else 0),
      i + (if entry_ignored ign e then 1 else 0))"
  by (cases e) (simp add: entry_wrong_def entry_ignored_def pair_ignored_def)

lemma summary_fold:
  "fold (summary_step ign bw obs) es (t, f, i) =
     (t + length (filter (\<lambda>e. \<not> entry_wrong ign bw obs e \<and> \<not> entry_ignored ign e) es),
      f + length (filter (entry_wrong ign bw obs) es),
      i + length (filter (entry_ignored ign) es))"
proof (induction es arbitrary: t f i)
  case Nil
  then show ?case by simp
next
  case (Cons e es)
  show ?case by (simp add: summary_step_counts Cons del: summary_step.simps)
qed

lemma filter_three:
  "(\<And>x. P x \<Longrightarrow> \<not> Q x) \<Longrightarrow>
   length (filter (\<lambda>x. \<not> P x \<and> \<not> Q x) xs) + length (filter P xs) + length (filter Q xs) = length xs"
  by (induction xs) auto

text \<open>The number of entries with a property is the number of pairs with it.\<close>

lemma count_entries:
  assumes "tab_wf t"
  shows "length (filter P (tab_entries t)) = card {(a, b). \<exists>v. tab_get t a b = Some v \<and> P (a, b, v)}"
proof -
  let ?key = "\<lambda>(a, b, v). (a, b)"
  have "distinct (map ?key (tab_entries t))" using assms by (rule tab_entries_keys_distinct)
  then have d: "distinct (map ?key (filter P (tab_entries t)))" by (rule distinct_map_filter)
  have "length (filter P (tab_entries t)) = card (set (map ?key (filter P (tab_entries t))))"
    using distinct_card [OF d] by simp
  also have "set (map ?key (filter P (tab_entries t))) =
      {(a, b). \<exists>v. tab_get t a b = Some v \<and> P (a, b, v)}"
    by (force simp: tab_entries_iff [OF assms])
  finally show ?thesis .
qed

lemma tt_Get_expected:
  "tab_get (Values tt) a b = Some v \<Longrightarrow> tt_Get tt a b = v"
  by (cases v) (simp_all add: tt_Get_def)

theorem Summary_counts:
  assumes "reach_wf r" and "Summary r ign bw = Inr ((t, f, i), cmp)"
  shows "f = card {(a, b) \<in> expected_pairs r. pair_wrong r ign bw a b}"
    and "i = card {(a, b) \<in> expected_pairs r. pair_ignored ign a b}"
    and "t + f + i = card (expected_pairs r)"
proof -
  have c: "Compare (Expected r) (Observed r) = Inr cmp"
    and s: "fold (summary_step ign bw (Observed r)) (tab_entries (Values cmp)) (0, 0, 0) = (t, f, i)"
    using assms(2) by (auto simp: Summary_def go_bind_eq_Inr_iff)
  have wf: "tab_wf (Values cmp)" using Compare_ok(5) [OF c] assms(1) by (simp add: reach_wf_def)
  let ?es = "tab_entries (Values cmp)"
  have get: "tab_get (Values cmp) a b =
      map_option (\<lambda>v. v = tt_Get (Observed r) a b) (tab_get (Values (Expected r)) a b)" for a b
    by (simp only: Compare_ok(4) [OF c] tt_Get_def)
  have f: "f = length (filter (entry_wrong ign bw (Observed r)) ?es)"
    and i: "i = length (filter (entry_ignored ign) ?es)"
    and t: "t = length (filter (\<lambda>e. \<not> entry_wrong ign bw (Observed r) e \<and> \<not> entry_ignored ign e) ?es)"
    using s unfolding summary_fold by simp_all
  have wrong: "(\<exists>v. tab_get (Values cmp) a b = Some v \<and> entry_wrong ign bw (Observed r) (a, b, v)) \<longleftrightarrow>
      (a, b) \<in> expected_pairs r \<and> pair_wrong r ign bw a b" for a b
  proof (cases "tab_get (Values (Expected r)) a b")
    case None
    then show ?thesis by (simp add: get expected_pairs_def)
  next
    case (Some e)
    then show ?thesis
      using tt_Get_expected [OF Some]
      by (auto simp: get expected_pairs_def entry_wrong_def pair_wrong_def)
  qed
  show "f = card {(a, b) \<in> expected_pairs r. pair_wrong r ign bw a b}"
    unfolding f count_entries [OF wf] wrong by (rule arg_cong [of _ _ card]) auto
  show "i = card {(a, b) \<in> expected_pairs r. pair_ignored ign a b}"
    unfolding i count_entries [OF wf]
    by (rule arg_cong [of _ _ card]) (auto simp: get entry_ignored_def expected_pairs_def)
  have "t + f + i = length ?es"
    unfolding t f i by (rule filter_three) (auto simp: entry_wrong_def entry_ignored_def)
  also have "\<dots> = length (filter (\<lambda>_. True) ?es)" by simp
  also have "\<dots> = card (expected_pairs r)"
    unfolding count_entries [OF wf]
    by (rule arg_cong [of _ _ card]) (auto simp: get expected_pairs_def)
  finally show "t + f + i = card (expected_pairs r)" .
qed

text \<open>The counts do not depend on the order in which the comparison is ranged over.\<close>

lemma summary_order:
  "mset es = mset es' \<Longrightarrow>
     fold (summary_step ign bw obs) es (0, 0, 0) = fold (summary_step ign bw obs) es' (0, 0, 0)"
  unfolding summary_fold size_mset [symmetric] mset_filter by simp

lemma Summary_total:
  assumes "length (Froms (Expected r)) \<le> length (Froms (Observed r))"
    and "length (Tos (Expected r)) \<le> length (Tos (Observed r))"
  shows "\<exists>s. Summary r ign bw = Inr s"
proof -
  have "\<nexists>p. Compare (Expected r) (Observed r) = Inl p"
    unfolding Compare_panics using assms by simp
  then obtain cmp where "Compare (Expected r) (Observed r) = Inr cmp"
    by (cases "Compare (Expected r) (Observed r)") simp_all
  then show ?thesis by (simp only: Summary_def go_bind_Inr) blast
qed

section \<open>A new reachability\<close>

definition pod_names :: "pod_store \<Rightarrow> pod_ref list \<Rightarrow> string list" where
  "pod_names h pods = map (\<lambda>r. PodString (h ! r)) pods"

text \<open>
  A reachability over the given names: both tables have these keys, every pair has an
  expectation, and rows exist for every name.
\<close>

definition reach_over :: "string list \<Rightarrow> reachability \<Rightarrow> bool" where
  "reach_over names r \<longleftrightarrow>
     reach_wf r \<and>
     Froms (Expected r) = names \<and> Tos (Expected r) = names \<and>
     Froms (Observed r) = names \<and> Tos (Observed r) = names \<and>
     expected_pairs r = set names \<times> set names \<and>
     tab_rows (Values (Expected r)) = set names \<and>
     tab_rows (Values (Observed r)) = set names \<and>
     tab_rows (Bandwidths (Observed r)) = set names"

lemma NewReachability_over: "reach_over (pod_names h pods) (NewReachability h pods d)"
  by (auto simp: reach_over_def reach_wf_def NewReachability_def Let_def NewTruthTableFromItems_def
        NewTruthTable_wf NewTruthTable_rows NewTruthTable_get expected_pairs_def pod_names_def)

lemma NewReachability_expected:
  assumes "a \<in> set (pod_names h pods)" and "b \<in> set (pod_names h pods)"
  shows "tt_Get (Expected (NewReachability h pods d)) a b = d"
  using assms
  by (simp add: NewReachability_def Let_def NewTruthTableFromItems_def tt_Get_def NewTruthTable_get
        pod_names_def)

lemma NewReachability_observed: "\<not> tt_Get (Observed (NewReachability h pods d)) a b"
  by (simp add: NewReachability_def Let_def NewTruthTableFromItems_def tt_Get_def NewTruthTable_get)

section \<open>Observations\<close>

text \<open>
  An observation writes both tables of the observed side; together they are a writable table of
  pairs in the sense of the interface of truth tables.
\<close>

definition obs_get :: "reachability \<Rightarrow> string \<Rightarrow> string \<Rightarrow> (bool \<times> bandwidth_ptr) option" where
  "obs_get r a b =
     (case tab_get (Values (Observed r)) a b of
        None \<Rightarrow> None
      | Some c \<Rightarrow> map_option (Pair c) (tab_get (Bandwidths (Observed r)) a b))"

definition obs_put :: "string \<Rightarrow> string \<Rightarrow> bool \<times> bandwidth_ptr \<Rightarrow> reachability \<Rightarrow> reachability go" where
  "obs_put a b v r = Observe a b (fst v) (snd v) r"

definition obs_rows :: "reachability \<Rightarrow> string set" where
  "obs_rows r = tab_rows (Values (Observed r)) \<inter> tab_rows (Bandwidths (Observed r))"

definition obs_ok :: "reachability \<Rightarrow> bool" where
  "obs_ok r \<longleftrightarrow> tab_wf (Values (Observed r)) \<and> tab_wf (Bandwidths (Observed r))"

lemma Observe_iff:
  "Observe a b c bw r = Inr r' \<longleftrightarrow>
     (\<exists>vs bs. tab_put a b c (Values (Observed r)) = Inr vs \<and>
              tab_put a b bw (Bandwidths (Observed r)) = Inr bs \<and>
              r' = r\<lparr>Observed := (Observed r)\<lparr>Values := vs, Bandwidths := bs\<rparr>\<rparr>)"
  by (auto simp: Observe_def go_bind_eq_Inr_iff tt_Set_iff SetBandwidth_iff)

interpretation observations: pair_table obs_get obs_put obs_rows obs_ok
proof (unfold_locales, goal_cases)
  case (1 r a b v)
  then obtain vs bs where
    vs: "tab_put a b (fst v) (Values (Observed r)) = Inr vs" and
    bs: "tab_put a b (snd v) (Bandwidths (Observed r)) = Inr bs"
    using tab_put_ok [of a "Values (Observed r)" b "fst v"]
      tab_put_ok [of a "Bandwidths (Observed r)" b "snd v"] by (auto simp: obs_rows_def)
  with 1 show ?case
    using tab_put_wf [OF _ vs] tab_put_wf [OF _ bs] tab_put_rows [OF vs] tab_put_rows [OF bs]
    by (auto simp: obs_put_def Observe_iff obs_ok_def obs_rows_def)
next
  case (2 r a b v r' x y)
  then obtain vs bs where
    "tab_put a b (fst v) (Values (Observed r)) = Inr vs"
    "tab_put a b (snd v) (Bandwidths (Observed r)) = Inr bs"
    "r' = r\<lparr>Observed := (Observed r)\<lparr>Values := vs, Bandwidths := bs\<rparr>\<rparr>"
    by (auto simp: obs_put_def Observe_iff)
  then show ?case by (auto simp: obs_get_def tab_put_get split: option.split)
next
  case (3 r a b v)
  show ?case
  proof (cases "a \<in> tab_rows (Values (Observed r))")
    case False
    then show ?thesis by (simp add: obs_put_def Observe_def tt_Set_def tab_put_nil)
  next
    case True
    with 3 have "a \<notin> tab_rows (Bandwidths (Observed r))" by (simp add: obs_rows_def)
    moreover obtain vs where "tab_put a b (fst v) (Values (Observed r)) = Inr vs"
      using tab_put_ok [OF True, of b "fst v"] by blast
    ultimately show ?thesis
      by (simp add: obs_put_def Observe_def tt_Set_def SetBandwidth_def tab_put_nil)
  qed
qed

lemma Observe_keeps:
  assumes "Observe a b c bw r = Inr r'"
  shows "Expected r' = Expected r" and "r_Pods r' = r_Pods r"
    and "Froms (Observed r') = Froms (Observed r)" and "Tos (Observed r') = Tos (Observed r)"
  using assms by (auto simp: Observe_iff)

lemma Observe_reach_over:
  assumes "reach_over names r" and "a \<in> set names"
  shows "\<exists>r'. Observe a b c bw r = Inr r' \<and> reach_over names r'"
proof -
  have "obs_ok r" and "a \<in> obs_rows r"
    using assms by (auto simp: reach_over_def reach_wf_def obs_ok_def obs_rows_def)
  then obtain r' where o: "Observe a b c bw r = Inr r'" and "obs_ok r'"
    using observations.put_row [of r a b "(c, bw)"] by (auto simp: obs_put_def)
  then obtain vs bs where v: "tab_put a b c (Values (Observed r)) = Inr vs"
    "tab_put a b bw (Bandwidths (Observed r)) = Inr bs"
    "r' = r\<lparr>Observed := (Observed r)\<lparr>Values := vs, Bandwidths := bs\<rparr>\<rparr>"
    by (auto simp: Observe_iff)
  with assms(1) \<open>obs_ok r'\<close> have "reach_over names r'"
    by (auto simp: reach_over_def reach_wf_def obs_ok_def expected_pairs_def
          tab_put_rows [OF v(1)] tab_put_rows [OF v(2)])
  with o show ?thesis by blast
qed

section \<open>Expectations\<close>

text \<open>A peer matches a pod: each of its two names is empty or the pod's.\<close>

definition peer_matches :: "peer \<Rightarrow> pod \<Rightarrow> bool" where
  "peer_matches p pd \<longleftrightarrow>
     (peer_Namespace p = '''' \<or> peer_Namespace p = p_Namespace pd) \<and>
     (peer_Pod p = '''' \<or> peer_Pod p = p_Name pd)"

lemma Matches_PodString:
  assumes "slash_free pd"
  shows "Matches p (PodString pd) = Inr (peer_matches p pd)"
  using ps_parts [OF assms] by (auto simp: Matches_def peer_matches_def)

definition expect_writes ::
  "pod_store \<Rightarrow> peer \<Rightarrow> peer \<Rightarrow> bool \<Rightarrow> pod_ref list \<Rightarrow> (string \<times> string \<times> bool) list" where
  "expect_writes h pf pt c pods =
     concat (map (\<lambda>f. map (\<lambda>t. (PodString (h ! f), PodString (h ! t), c))
                        (filter (\<lambda>t. peer_matches pt (h ! t)) pods))
              (filter (\<lambda>f. peer_matches pf (h ! f)) pods))"

text \<open>The nested loops of \<open>ExpectPeer\<close> are one loop over the pairs that match.\<close>

lemma ExpectPeer_writes:
  assumes "\<forall>r \<in> set pods. slash_free (h ! r)" and "r_Pods r = pods"
  shows "ExpectPeer h pf pt c r =
     go_bind (go_fold (\<lambda>(a, b, v). tt_Set a b v) (expect_writes h pf pt c pods) (Expected r))
       (\<lambda>e. Inr (r\<lparr>Expected := e\<rparr>))"
proof -
  let ?set = "\<lambda>(a, b, v). tt_Set a b v"
  have inner: "go_fold (\<lambda>t e. go_bind (Matches pt (PodString (h ! t))) (\<lambda>b.
                 if \<not> b then Inr e else tt_Set (PodString (h ! f)) (PodString (h ! t)) c e)) pods e =
      go_fold ?set (map (\<lambda>t. (PodString (h ! f), PodString (h ! t), c))
                      (filter (\<lambda>t. peer_matches pt (h ! t)) pods)) e" for f e
    unfolding go_fold_map go_fold_filter
    by (rule go_fold_cong) (use assms(1) in \<open>simp add: Matches_PodString\<close>)
  have "go_fold (\<lambda>f e. go_bind (Matches pf (PodString (h ! f))) (\<lambda>b. if \<not> b then Inr e
           else go_fold (\<lambda>t e. go_bind (Matches pt (PodString (h ! t))) (\<lambda>b.
                  if \<not> b then Inr e
                  else tt_Set (PodString (h ! f)) (PodString (h ! t)) c e)) pods e)) pods (Expected r) =
      go_fold ?set (expect_writes h pf pt c pods) (Expected r)"
    unfolding expect_writes_def go_fold_concat go_fold_map [of "go_fold ?set"] go_fold_filter inner
    by (rule go_fold_cong) (use assms(1) in \<open>simp add: Matches_PodString\<close>)
  then show ?thesis unfolding ExpectPeer_def assms(2) by (rule arg_cong [of _ _ "\<lambda>m. go_bind m _"])
qed

lemma expect_writes_iff:
  "(a, b, v) \<in> set (expect_writes h pf pt c pods) \<longleftrightarrow>
     v = c \<and> (\<exists>f \<in> set pods. a = PodString (h ! f) \<and> peer_matches pf (h ! f)) \<and>
     (\<exists>t \<in> set pods. b = PodString (h ! t) \<and> peer_matches pt (h ! t))"
  by (auto simp: expect_writes_def)

text \<open>
  After \<open>ExpectPeer\<close> every pair whose two pods match the peers has the given expectation, and
  every other pair keeps the one it had.
\<close>

lemma peer_matches_PodString:
  assumes "slash_free x" and "slash_free y" and "PodString x = PodString y"
  shows "peer_matches p x = peer_matches p y"
  using PodString_inject [OF assms(1,2)] assms(3) by (simp add: peer_matches_def)

lemma ExpectPeer_expected:
  assumes over: "reach_over (pod_names h (r_Pods r)) r"
    and sf: "\<forall>x \<in> set (r_Pods r). slash_free (h ! x)"
  shows "\<exists>r'. ExpectPeer h pf pt c r = Inr r' \<and> reach_over (pod_names h (r_Pods r)) r' \<and>
           r_Pods r' = r_Pods r \<and> Observed r' = Observed r \<and>
           (\<forall>f \<in> set (r_Pods r). \<forall>t \<in> set (r_Pods r).
              tt_Get (Expected r') (PodString (h ! f)) (PodString (h ! t)) =
                (if peer_matches pf (h ! f) \<and> peer_matches pt (h ! t) then c
                 else tt_Get (Expected r) (PodString (h ! f)) (PodString (h ! t))))"
proof -
  let ?ws = "expect_writes h pf pt c (r_Pods r)"
  let ?names = "pod_names h (r_Pods r)"
  have ok: "values_ok (Expected r)"
    using over by (simp add: reach_over_def reach_wf_def values_ok_def)
  have rows: "\<forall>w \<in> set ?ws. fst w \<in> tab_rows (Values (Expected r))"
    using over by (auto simp: reach_over_def expect_writes_def pod_names_def)
  have uniq: "\<And>a b u v. (a, b, u) \<in> set ?ws \<Longrightarrow> (a, b, v) \<in> set ?ws \<Longrightarrow> u = v"
    by (simp add: expect_writes_iff)
  let ?I = "\<lambda>e. values_ok e \<and> Froms e = ?names \<and> Tos e = ?names \<and> tab_rows (Values e) = set ?names \<and>
      {(a, b). tab_get (Values e) a b \<noteq> None} = set ?names \<times> set ?names"
  have "?I (Expected r)"
    using over by (simp add: reach_over_def reach_wf_def values_ok_def expected_pairs_def)
  then have "\<exists>e. go_fold (\<lambda>(a, b, v). tt_Set a b v) ?ws (Expected r) = Inr e \<and> ?I e"
  proof (rule go_fold_invariant)
    fix w e
    assume w: "w \<in> set ?ws" and I: "?I e"
    obtain a b v where w': "w = (a, b, v)" by (cases w)
    have a: "a \<in> set ?names" "b \<in> set ?names"
      using w by (auto simp: w' expect_writes_iff pod_names_def)
    then obtain e' where e': "tt_Set a b v e = Inr e'" "values_ok e'"
        "tab_rows (Values e') = tab_rows (Values e)"
      using value_table.put_row [of e a b v] I by blast
    have g: "tab_get (Values e') x y = (if x = a \<and> y = b then Some v else tab_get (Values e) x y)" for x y
      using value_table.put_get [OF _ e'(1)] I by blast
    have "{(x, y). tab_get (Values e') x y \<noteq> None} =
        insert (a, b) {(x, y). tab_get (Values e) x y \<noteq> None}"
      by (auto simp: g)
    with I a e' have "?I e'" by (auto simp: tt_Set_iff)
    with e'(1) show "\<exists>e'. (case w of (a, b, v) \<Rightarrow> tt_Set a b v) e = Inr e' \<and> ?I e'"
      by (simp add: w')
  qed
  then obtain e where e: "go_fold (\<lambda>(a, b, v). tt_Set a b v) ?ws (Expected r) = Inr e" and Ie: "?I e"
    by blast
  have u: "(a, b, v) \<in> set ?ws \<Longrightarrow> tab_get (Values e) a b = Some v"
      "\<forall>v. (a, b, v) \<notin> set ?ws \<Longrightarrow> tab_get (Values e) a b = tab_get (Values (Expected r)) a b" for a b v
    using value_table.put_all_unique [OF ok rows _ e, of a b] uniq by blast+
  let ?r = "r\<lparr>Expected := e\<rparr>"
  have r': "ExpectPeer h pf pt c r = Inr ?r"
    by (simp add: ExpectPeer_writes [OF sf refl] e)
  have "tt_Get e (PodString (h ! f)) (PodString (h ! t)) =
      (if peer_matches pf (h ! f) \<and> peer_matches pt (h ! t) then c
       else tt_Get (Expected r) (PodString (h ! f)) (PodString (h ! t)))"
    if ft: "f \<in> set (r_Pods r)" "t \<in> set (r_Pods r)" for f t
  proof (cases "peer_matches pf (h ! f) \<and> peer_matches pt (h ! t)")
    case True
    with ft have "(PodString (h ! f), PodString (h ! t), c) \<in> set ?ws"
      by (auto simp: expect_writes_iff)
    from u(1) [OF this] True show ?thesis by (simp add: tt_Get_def)
  next
    case False
    then have "\<forall>v. (PodString (h ! f), PodString (h ! t), v) \<notin> set ?ws"
      using ft sf peer_matches_PodString unfolding expect_writes_iff by metis
    from u(2) [OF this] False show ?thesis by (auto simp: tt_Get_def)
  qed
  moreover have "reach_over ?names ?r"
    using over Ie by (simp add: reach_over_def reach_wf_def values_ok_def expected_pairs_def)
  ultimately show ?thesis using r' by (intro exI [of _ ?r]) simp
qed

section \<open>Properties\<close>

definition demo_small :: reachability where
  "demo_small = \<lparr>Expected = NewTruthTableFromItems [''a'', ''b''] (Some True),
     Observed = NewTruthTableFromItems [''a'', ''b''] (Some False), r_Pods = [0, 1]\<rparr>"

text \<open>
  C19. The summary counts the pairs that have an expectation: those whose observation differs from
  the expectation (or that were connected but too slow, when bandwidth is measured) are wrong, the
  pairs of a pod with itself are ignored when asked, and right, wrong and ignored add up to all.
\<close>

theorem summary_counts_pairs:
  assumes "reach_wf r"
    and "Summary r ignoreLoopback measureBandWidth = Inr ((right, wrong, ignored), comparison)"
  shows "wrong = card {(a, b). (a, b) \<in> expected_pairs r \<and> pair_wrong r ignoreLoopback measureBandWidth a b} \<and>
         ignored = card {(a, b). (a, b) \<in> expected_pairs r \<and> pair_ignored ignoreLoopback a b} \<and>
         right + wrong + ignored = card (expected_pairs r)"
  using Summary_counts [OF assms] by simp

lemma demo_small_summary: "\<exists>cmp. Summary demo_small True False = Inr ((0, 2, 2), cmp)"
  by (simp add: Summary_def Compare_def compare_keys_def demo_small_def NewTruthTableFromItems_def
        NewTruthTable_def table_row_def tab_get_def tab_entries_def)

theorem summary_counts_pairs_witness:
  "2 = card {(a, b). (a, b) \<in> expected_pairs demo_small \<and> pair_wrong demo_small True False a b} \<and>
   0 + 2 + 2 = card (expected_pairs demo_small)"
proof -
  have "reach_wf demo_small"
    by (simp add: reach_wf_def demo_small_def NewTruthTableFromItems_def NewTruthTable_wf)
  moreover obtain cmp where "Summary demo_small True False = Inr ((0, 2, 2), cmp)"
    using demo_small_summary by blast
  ultimately show ?thesis using summary_counts_pairs [of demo_small True False 0 2 2 cmp] by simp
qed

text \<open>
  C20. \<open>ExpectPeer\<close> sets the expectation of exactly the ordered pairs whose two pods match the two
  peers (an empty name in a peer matches every pod), leaves every other expectation and all
  observations alone, and never panics on the pods of the reachability.
\<close>

theorem expect_peer_sets_matching_pairs:
  assumes "reach_over (pod_names h (r_Pods r)) r" and "\<forall>x \<in> set (r_Pods r). slash_free (h ! x)"
    and "f \<in> set (r_Pods r)" and "t \<in> set (r_Pods r)"
  shows "\<exists>r'. ExpectPeer h peerFrom peerTo c r = Inr r' \<and> Observed r' = Observed r \<and>
           tt_Get (Expected r') (PodString (h ! f)) (PodString (h ! t)) =
             (if peer_matches peerFrom (h ! f) \<and> peer_matches peerTo (h ! t) then c
              else tt_Get (Expected r) (PodString (h ! f)) (PodString (h ! t)))"
  using ExpectPeer_expected [OF assms(1,2), of peerFrom peerTo c] assms(3,4) by blast

theorem expect_peer_sets_matching_pairs_witness:
  "\<exists>r'. ExpectPeer demo_store \<lparr>peer_Namespace = ''x'', peer_Pod = ''''\<rparr> \<lparr>peer_Namespace = '''', peer_Pod = ''b''\<rparr> False
          (NewReachability demo_store [0, 1] True) = Inr r' \<and>
        \<not> tt_Get (Expected r') (PodString (demo_store ! 0)) (PodString (demo_store ! 1))"
proof -
  let ?r = "NewReachability demo_store [0, 1] True"
  have pods: "r_Pods ?r = [0, 1]" by (simp add: NewReachability_def Let_def)
  have over: "reach_over (pod_names demo_store (r_Pods ?r)) ?r"
    unfolding pods by (rule NewReachability_over)
  have sf: "\<forall>x \<in> set (r_Pods ?r). slash_free (demo_store ! x)"
    unfolding pods using demo_slash_free by simp
  have "peer_matches \<lparr>peer_Namespace = ''x'', peer_Pod = ''''\<rparr> (demo_store ! 0) \<and>
        peer_matches \<lparr>peer_Namespace = '''', peer_Pod = ''b''\<rparr> (demo_store ! 1)"
    unfolding peer_matches_def demo_pods by simp
  with expect_peer_sets_matching_pairs [OF over sf, of 0 1] pods show ?thesis by fastforce
qed

end
