(* ===== verification/Model.thy ===== *)
theory Model
  imports Reachability
begin

text \<open>
  \<open>pkg/matrix/model.go\<close>: the namespaces of a test, and lazily filled caches of their pods, ports and
  protocols. Slices that the code edits in place are lists together with what the backing array
  still holds; nothing else shares the arrays of a model.
\<close>

record model =
  m_pods :: "pod_ref list option"
  m_ports :: "int32 list option"
  m_protocols :: "protocol list option"
  m_Namespaces :: "namespace list"
  m_dnsDomain :: string

section \<open>Building a model\<close>

fun NewModel_loop ::
  "string list \<Rightarrow> string list \<Rightarrow> int32 list \<Rightarrow> protocol list \<Rightarrow> pod_store \<Rightarrow> namespace list \<times> pod_store" where
  "NewModel_loop [] podNames ports protocols h = ([], h)"
| "NewModel_loop (ns # nss) podNames ports protocols h =
     (let (n, h1) = NewNamespaceWithPods ns podNames ports protocols h;
          (rest, h2) = NewModel_loop nss podNames ports protocols h1
      in (n # rest, h2))"

definition NewModel ::
  "string list \<Rightarrow> string list \<Rightarrow> int32 list \<Rightarrow> protocol list \<Rightarrow> string \<Rightarrow> pod_store \<Rightarrow> model \<times> pod_store" where
  "NewModel namespaceNames podNames ports protocols dnsDomain h =
     (let (namespaces, h') = NewModel_loop namespaceNames podNames ports protocols h
      in (\<lparr>m_pods = None, m_ports = None, m_protocols = None,
           m_Namespaces = namespaces, m_dnsDomain = dnsDomain\<rparr>, h'))"

text \<open>The caches of ports and protocols are cleared by none of these, the cache of pods by two of them.\<close>

definition AddNamespaceWithImageAndCommands ::
  "string \<Rightarrow> string list \<Rightarrow> int32 list \<Rightarrow> protocol list \<Rightarrow> string \<Rightarrow> string list \<Rightarrow>
   model \<Rightarrow> pod_store \<Rightarrow> namespace \<times> model \<times> pod_store" where
  "AddNamespaceWithImageAndCommands namespaceName podNames ports protocols img cmds m h =
     (let (ns, h') = NewNamespaceWithPodsGivenImageAndCommand namespaceName podNames ports protocols img cmds h
      in (ns, m\<lparr>m_Namespaces := m_Namespaces m @ [ns]\<rparr>, h'))"

definition AddNamespace ::
  "string \<Rightarrow> string list \<Rightarrow> int32 list \<Rightarrow> protocol list \<Rightarrow> model \<Rightarrow> pod_store \<Rightarrow> namespace \<times> model \<times> pod_store" where
  "AddNamespace namespaceName podNames ports protocols m h =
     (let (ns, h') = NewNamespaceWithPods namespaceName podNames ports protocols h
      in (ns, m\<lparr>m_Namespaces := m_Namespaces m @ [ns], m_pods := None\<rparr>, h'))"

definition AddIPerfNamespace ::
  "string \<Rightarrow> string list \<Rightarrow> int32 list \<Rightarrow> protocol list \<Rightarrow> model \<Rightarrow> pod_store \<Rightarrow> namespace \<times> model \<times> pod_store" where
  "AddIPerfNamespace namespaceName podNames ports protocols m h =
     (let (ns, h') = NewNamespaceWithIPerfPods namespaceName podNames ports protocols h
      in (ns, m\<lparr>m_Namespaces := m_Namespaces m @ [ns], m_pods := None\<rparr>, h'))"

section \<open>Ports and protocols\<close>

fun intOnSlice :: "int32 \<Rightarrow> int32 list \<Rightarrow> bool" where
  "intOnSlice value [] = False"
| "intOnSlice value (item # items) = (if item = value then True else intOnSlice value items)"

fun protocolOnSlice :: "protocol \<Rightarrow> protocol list \<Rightarrow> bool" where
  "protocolOnSlice value [] = False"
| "protocolOnSlice value (item # items) = (if item = value then True else protocolOnSlice value items)"

definition extract_step :: "container \<Rightarrow> int32 list \<times> protocol list \<Rightarrow> int32 list \<times> protocol list" where
  "extract_step c = (\<lambda>(ports, protocols).
     (if c_Port c \<noteq> 0 \<and> \<not> intOnSlice (c_Port c) ports then ports @ [c_Port c] else ports,
      if c_Protocol c \<noteq> '''' \<and> \<not> protocolOnSlice (c_Protocol c) protocols
      then protocols @ [c_Protocol c] else protocols))"

definition extractPortProtocols :: "pod_store \<Rightarrow> namespace list \<Rightarrow> int32 list \<times> protocol list" where
  "extractPortProtocols h namespaces =
     fold (\<lambda>ns. fold (\<lambda>r. fold extract_step (p_Containers (h ! r))) (ns_Pods ns)) namespaces ([], [])"

definition NewModelWithNamespace :: "pod_store \<Rightarrow> namespace list \<Rightarrow> string \<Rightarrow> model" where
  "NewModelWithNamespace h namespaces dnsDomain =
     (let (ports, protocols) = extractPortProtocols h namespaces
      in \<lparr>m_pods = None, m_ports = Some ports, m_protocols = Some protocols,
          m_Namespaces = namespaces, m_dnsDomain = dnsDomain\<rparr>)"

text \<open>A cache is read through its pointer: nil panics.\<close>

definition deref :: "'a option \<Rightarrow> 'a go" where
  "deref p = (case p of None \<Rightarrow> Inl NilDereference | Some x \<Rightarrow> Inr x)"

lemma deref_simps [simp]: "deref None = Inl NilDereference" "deref (Some x) = Inr x"
  by (simp_all add: deref_def)

definition AllPortsProtocol :: "pod_store \<Rightarrow> model \<Rightarrow> ((int32 list \<times> protocol list) \<times> model) go" where
  "AllPortsProtocol h m =
     (let m' = (if m_ports m = None \<and> m_protocols m = None
                then let (ports, protocols) = extractPortProtocols h (m_Namespaces m)
                     in m\<lparr>m_ports := Some ports, m_protocols := Some protocols\<rparr>
                else m)
      in go_bind (deref (m_ports m')) (\<lambda>ports.
         go_bind (deref (m_protocols m')) (\<lambda>protocols. Inr ((ports, protocols), m'))))"

section \<open>Pods\<close>

definition all_refs :: "namespace list \<Rightarrow> pod_ref list" where
  "all_refs nss = fold (\<lambda>ns pods. pods @ ns_Pods ns) nss []"

definition AllPods :: "model \<Rightarrow> pod_ref list \<times> model" where
  "AllPods m =
     (case m_pods m of
        Some pods \<Rightarrow> (pods, m)
      | None \<Rightarrow> (let pods = all_refs (m_Namespaces m) in (pods, m\<lparr>m_pods := Some pods\<rparr>)))"

definition ResetAllPods :: "model \<Rightarrow> pod_store \<Rightarrow> model \<times> pod_store" where
  "ResetAllPods m h =
     (let (pods, m') = AllPods m
      in (m', fold (\<lambda>p h. h[p := p_Reset (h ! p)]) pods h))"

definition AddPod :: "pod_ref \<Rightarrow> string \<Rightarrow> model \<Rightarrow> model go" where
  "AddPod p namespaceName m =
     go_bind (deref (m_pods m)) (\<lambda>pods.
       Inr (m\<lparr>m_pods := Some (pods @ [p]),
              m_Namespaces := map (\<lambda>ns. if ns_Name ns = namespaceName
                                        then ns\<lparr>ns_Pods := ns_Pods ns @ [p]\<rparr> else ns)
                                (m_Namespaces m)\<rparr>))"

text \<open>
  \<open>append(s[:i], s[i+1:]...)\<close> on a slice of the first \<open>n\<close> cells of \<open>cells\<close>: the later cells move
  one to the left, in place, and what lay behind the slice stays. The slice expression \<open>s[i+1:]\<close>
  panics when \<open>i + 1\<close> exceeds the slice's length.
\<close>

definition slice_remove :: "nat \<Rightarrow> 'a list \<times> nat \<Rightarrow> ('a list \<times> nat) go" where
  "slice_remove i = (\<lambda>(cells, n).
     if n < i + 1 then Inl SliceBoundsOutOfRange
     else Inr (take i cells @ take (n - (i + 1)) (drop (i + 1) cells) @ drop (n - 1) cells, n - 1))"

text \<open>
  The first loop of \<open>RemovePod\<close> ranges over the slice as it was when the loop began, that is over
  the same cells, while its body shortens the slice that the namespace holds.
\<close>

definition remove_step :: "pod_store \<Rightarrow> string \<Rightarrow> nat \<Rightarrow> pod_ref list \<times> nat \<Rightarrow> (pod_ref list \<times> nat) go" where
  "remove_step h podName i = (\<lambda>(cells, n).
     if p_Name (h ! (cells ! i)) = podName then slice_remove i (cells, n) else Inr (cells, n))"

definition remove_loop :: "pod_store \<Rightarrow> string \<Rightarrow> pod_ref list \<Rightarrow> pod_ref list go" where
  "remove_loop h podName pods =
     go_bind (go_fold (remove_step h podName) [0..<length pods] (pods, length pods))
       (\<lambda>(cells, n). Inr (take n cells))"

text \<open>The second loop stops at the first pod of that name.\<close>

fun remove_first :: "pod_store \<Rightarrow> string \<Rightarrow> pod_ref list \<Rightarrow> pod_ref list option" where
  "remove_first h podName [] = None"
| "remove_first h podName (p # ps) =
     (if p_Name (h ! p) = podName then Some ps
      else map_option ((#) p) (remove_first h podName ps))"

text \<open>The position of the last namespace of that name.\<close>

fun last_namespace :: "string \<Rightarrow> namespace list \<Rightarrow> nat option" where
  "last_namespace name [] = None"
| "last_namespace name (ns # nss) =
     (case last_namespace name nss of
        Some i \<Rightarrow> Some (Suc i)
      | None \<Rightarrow> (if ns_Name ns = name then Some 0 else None))"

definition RemovePod :: "pod_store \<Rightarrow> string \<Rightarrow> string \<Rightarrow> model \<Rightarrow> (err \<times> model) go" where
  "RemovePod h podName namespaceName m =
     (let not_found = Some (ErrText (''failed to find pod '' @ namespaceName @ ''/'' @ podName)) in
      case last_namespace namespaceName (m_Namespaces m) of
        None \<Rightarrow> Inr (not_found, m)
      | Some j \<Rightarrow>
          (let ns = m_Namespaces m ! j in
           go_bind (remove_loop h podName (ns_Pods ns)) (\<lambda>pods.
           let m1 = m\<lparr>m_Namespaces := (m_Namespaces m)[j := ns\<lparr>ns_Pods := pods\<rparr>]\<rparr> in
           go_bind (deref (m_pods m1)) (\<lambda>cache.
             case remove_first h podName cache of
               Some cache' \<Rightarrow> Inr (None, m1\<lparr>m_pods := Some cache'\<rparr>)
             | None \<Rightarrow> Inr (not_found, m1)))))"

section \<open>Ports and protocols: what is extracted\<close>

lemma intOnSlice_iff: "intOnSlice v xs \<longleftrightarrow> v \<in> set xs"
  by (induction xs) auto

lemma protocolOnSlice_iff: "protocolOnSlice v xs \<longleftrightarrow> v \<in> set xs"
  by (induction xs) auto

definition model_containers :: "pod_store \<Rightarrow> namespace list \<Rightarrow> container list" where
  "model_containers h nss = concat (map (\<lambda>r. p_Containers (h ! r)) (all_refs nss))"

lemma all_refs_fold: "fold (\<lambda>ns pods. pods @ ns_Pods ns) nss pods = pods @ concat (map ns_Pods nss)"
  by (induction nss arbitrary: pods) simp_all

lemma all_refs_concat: "all_refs nss = concat (map ns_Pods nss)"
  by (simp add: all_refs_def all_refs_fold)

lemma fold_over_concat: "fold (\<lambda>x. fold f (g x)) xs s = fold f (concat (map g xs)) s"
  by (induction xs arbitrary: s) simp_all

lemma extractPortProtocols_fold:
  "extractPortProtocols h nss = fold extract_step (model_containers h nss) ([], [])"
proof -
  have "fold (\<lambda>ns. fold (\<lambda>r. fold extract_step (p_Containers (h ! r))) (ns_Pods ns)) nss s =
      fold extract_step (model_containers h nss) s" for s
    unfolding fold_over_concat [of "\<lambda>r. fold extract_step (p_Containers (h ! r))"]
      fold_over_concat [of extract_step] model_containers_def all_refs_concat ..
  then show ?thesis by (simp add: extractPortProtocols_def)
qed

lemma extract_fold:
  assumes "fold extract_step cs (ps, qs) = (ps', qs')" and "distinct ps" and "distinct qs"
  shows "distinct ps' \<and> set ps' = set ps \<union> (c_Port ` set cs - {0}) \<and>
         distinct qs' \<and> set qs' = set qs \<union> (c_Protocol ` set cs - {''''})"
  using assms
proof (induction cs arbitrary: ps qs)
  case Nil
  then show ?case by simp
next
  case (Cons c cs)
  obtain ps1 qs1 where s: "extract_step c (ps, qs) = (ps1, qs1)" by fastforce
  have d: "distinct ps1" "distinct qs1"
    and sp: "set ps1 = set ps \<union> ({c_Port c} - {0})" and sq: "set qs1 = set qs \<union> ({c_Protocol c} - {''''})"
    using s Cons.prems(2,3)
    by (auto simp: extract_step_def intOnSlice_iff protocolOnSlice_iff split: if_splits)
  have "fold extract_step cs (ps1, qs1) = (ps', qs')" using Cons.prems(1) s by simp
  from Cons.IH [OF this d] show ?case unfolding sp sq by auto
qed

lemma extractPortProtocols_set:
  assumes "extractPortProtocols h nss = (ports, protocols)"
  shows "distinct ports" and "set ports = c_Port ` set (model_containers h nss) - {0}"
    and "distinct protocols" and "set protocols = c_Protocol ` set (model_containers h nss) - {''''}"
  using extract_fold [of "model_containers h nss" "[]" "[]" ports protocols] assms
  by (simp_all add: extractPortProtocols_fold)

section \<open>The cache of pods\<close>

text \<open>A filled cache holds the pods of the namespaces, in some order.\<close>

definition cache_ok :: "model \<Rightarrow> bool" where
  "cache_ok m \<longleftrightarrow> (\<forall>ps. m_pods m = Some ps \<longrightarrow> mset ps = mset (all_refs (m_Namespaces m)))"

lemma AllPods_result:
  assumes "cache_ok m" and "AllPods m = (ps, m')"
  shows "mset ps = mset (all_refs (m_Namespaces m))" and "m' = m\<lparr>m_pods := Some ps\<rparr>"
    and "cache_ok m'"
  using assms by (auto simp: AllPods_def cache_ok_def Let_def split: option.splits)

lemma AllPods_again: "AllPods m = (ps, m') \<Longrightarrow> AllPods m' = (ps, m')"
  by (auto simp: AllPods_def Let_def split: option.splits)

lemma AddNamespace_cache:
  assumes "AddNamespace n podNames ports protocols m h = (ns, m', h')"
  shows "cache_ok m'" and "fst (AllPods m') = all_refs (m_Namespaces m) @ ns_Pods ns"
  using assms
  by (auto simp: AddNamespace_def cache_ok_def AllPods_def Let_def all_refs_concat split: prod.splits)

lemma AddIPerfNamespace_cache:
  assumes "AddIPerfNamespace n podNames ports protocols m h = (ns, m', h')"
  shows "cache_ok m'" and "fst (AllPods m') = all_refs (m_Namespaces m) @ ns_Pods ns"
  using assms
  by (auto simp: AddIPerfNamespace_def cache_ok_def AllPods_def Let_def all_refs_concat split: prod.splits)

text \<open>A filled cache does not see the pods of a namespace added with image and commands.\<close>

lemma AddNamespaceWithImageAndCommands_stale:
  assumes "m_pods m = Some ps"
    and "AddNamespaceWithImageAndCommands n podNames ports protocols img cmds m h = (ns, m', h')"
  shows "fst (AllPods m') = ps"
  using assms by (auto simp: AddNamespaceWithImageAndCommands_def AllPods_def Let_def split: prod.splits)

lemma AddNamespaceWithImageAndCommands_pods:
  assumes "AddNamespaceWithImageAndCommands n podNames ports protocols img cmds m h = (ns, m', h')"
  shows "m_Namespaces m' = m_Namespaces m @ [ns]" and "ns_Name ns = n"
    and "ns_Pods ns = [length h ..< length h + length podNames]"
  using assms
  by (auto simp: AddNamespaceWithImageAndCommands_def NewNamespaceWithPodsGivenImageAndCommand_def
        alloc_namespace_def Let_def split: prod.splits)

text \<open>Adding a pod keeps the cache in step when exactly one namespace has the name.\<close>

lemma add_to_namespaces:
  assumes "length (filter (\<lambda>ns. ns_Name ns = n) nss) = 1"
  shows "mset (all_refs (map (\<lambda>ns. if ns_Name ns = n then ns\<lparr>ns_Pods := ns_Pods ns @ [p]\<rparr> else ns) nss)) =
         add_mset p (mset (all_refs nss))"
  using assms
proof (induction nss)
  case Nil
  then show ?case by simp
next
  case (Cons ns nss)
  let ?f = "\<lambda>ns. if ns_Name ns = n then ns\<lparr>ns_Pods := ns_Pods ns @ [p]\<rparr> else ns"
  show ?case
  proof (cases "ns_Name ns = n")
    case True
    with Cons.prems have "filter (\<lambda>ns. ns_Name ns = n) nss = []" by simp
    then have "map ?f nss = nss" by (intro map_idI) (auto simp: filter_empty_conv)
    with True show ?thesis by (simp add: all_refs_concat)
  next
    case False
    with Cons show ?thesis by (simp add: all_refs_concat)
  qed
qed

lemma AddPod_panics_iff: "(\<exists>e. AddPod p n m = Inl e) \<longleftrightarrow> m_pods m = None"
  by (cases "m_pods m") (simp_all add: AddPod_def)

lemma AddPod_cache:
  assumes "cache_ok m" and "m_pods m = Some ps"
    and "length (filter (\<lambda>ns. ns_Name ns = n) (m_Namespaces m)) = 1"
  shows "\<exists>m'. AddPod p n m = Inr m' \<and> cache_ok m' \<and> m_pods m' = Some (ps @ [p])"
  using assms add_to_namespaces [OF assms(3)] by (auto simp: AddPod_def cache_ok_def)

section \<open>Removing a pod\<close>

lemma go_fold_skip: "(\<And>x s. x \<in> set xs \<Longrightarrow> f x s = Inr s) \<Longrightarrow> go_fold f xs s = Inr s"
  by (induction xs) simp_all

lemma go_fold_skip_from: "\<forall>x \<in> set xs. f x s = Inr s \<Longrightarrow> go_fold f xs s = Inr s"
  by (induction xs) simp_all

definition has_name :: "pod_store \<Rightarrow> string \<Rightarrow> pod_ref \<Rightarrow> bool" where
  "has_name h podName r \<longleftrightarrow> p_Name (h ! r) = podName"

lemma remove_step_other:
  "\<not> has_name h podName (cells ! i) \<Longrightarrow> remove_step h podName i (cells, n) = Inr (cells, n)"
  by (simp add: remove_step_def has_name_def)

lemma slice_remove_append:
  "slice_remove (length xs) (xs @ r # ys, length (xs @ r # ys)) =
     Inr (xs @ ys @ [last (r # ys)], length (xs @ ys))"
proof -
  have "drop (length xs + length ys) (xs @ r # ys) = [last (r # ys)]"
    by (cases ys rule: rev_cases) simp_all
  then show ?thesis by (simp add: slice_remove_def)
qed

lemma remove_loop_absent:
  assumes "\<forall>r \<in> set pods. \<not> has_name h podName r"
  shows "remove_loop h podName pods = Inr pods"
proof -
  have "go_fold (remove_step h podName) [0..<length pods] (pods, length pods) = Inr (pods, length pods)"
    by (rule go_fold_skip_from) (use assms in \<open>simp add: remove_step_other\<close>)
  then show ?thesis by (simp add: remove_loop_def)
qed

text \<open>One pod of the name: the loop removes it and keeps the others in their order.\<close>

lemma remove_loop_once:
  assumes "has_name h podName r" and "\<forall>x \<in> set (xs @ ys). \<not> has_name h podName x"
  shows "remove_loop h podName (xs @ r # ys) = Inr (xs @ ys)"
proof -
  let ?cells = "xs @ r # ys" and ?cells' = "xs @ ys @ [last (r # ys)]"
  let ?step = "remove_step h podName"
  have split: "[0..<length ?cells] = [0..<length xs] @ length xs # [Suc (length xs)..<length ?cells]"
    using upt_add_eq_append [of 0 "length xs" "Suc (length ys)"] upt_conv_Cons [of "length xs" "length xs + Suc (length ys)"]
    by simp
  have before: "go_fold ?step [0..<length xs] (?cells, length ?cells) = Inr (?cells, length ?cells)"
    by (rule go_fold_skip_from) (use assms(2) in \<open>simp add: remove_step_other nth_append\<close>)
  have at: "?step (length xs) (?cells, length ?cells) = Inr (?cells', length (xs @ ys))"
    using assms(1) slice_remove_append [of xs r ys] by (simp add: remove_step_def has_name_def)
  have "\<not> has_name h podName (?cells' ! i)" if "i \<in> set [Suc (length xs)..<length ?cells]" for i
  proof -
    from that have i: "length xs < i" "i - length xs \<le> length ys" by auto
    then have "ys \<noteq> []" by auto
    then have "set (ys @ [last (r # ys)]) \<subseteq> set ys" by simp
    moreover have "?cells' ! i = (ys @ [last (r # ys)]) ! (i - length xs)"
      using i by (simp add: nth_append)
    ultimately have "?cells' ! i \<in> set ys" using i nth_mem [of "i - length xs" "ys @ [last (r # ys)]"] by auto
    with assms(2) show ?thesis by simp
  qed
  then have after: "go_fold ?step [Suc (length xs)..<length ?cells] (?cells', length (xs @ ys)) =
      Inr (?cells', length (xs @ ys))"
    by (intro go_fold_skip_from ballI remove_step_other)
  show ?thesis
    unfolding remove_loop_def split go_fold_append before go_bind_Inr go_fold.simps at after
    by simp
qed

text \<open>Two neighbouring pods of the name at the end of the namespace make the loop panic.\<close>

lemma remove_loop_twice_panics:
  assumes "has_name h podName r" and "has_name h podName r'"
    and "\<forall>x \<in> set xs. \<not> has_name h podName x"
  shows "remove_loop h podName (xs @ [r, r']) = Inl SliceBoundsOutOfRange"
proof -
  let ?cells = "xs @ [r, r']" and ?step = "remove_step h podName"
  have split: "[0..<length ?cells] = [0..<length xs] @ [length xs, Suc (length xs)]"
    by simp
  have before: "go_fold ?step [0..<length xs] (?cells, length ?cells) = Inr (?cells, length ?cells)"
    by (rule go_fold_skip_from) (use assms(3) in \<open>simp add: remove_step_other nth_append\<close>)
  have at: "?step (length xs) (?cells, length ?cells) = Inr (xs @ [r', r'], length xs + 1)"
    using assms(1) slice_remove_append [of xs r "[r']"] by (simp add: remove_step_def has_name_def)
  have after: "?step (Suc (length xs)) (xs @ [r', r'], length xs + 1) = Inl SliceBoundsOutOfRange"
    using assms(2) by (simp add: remove_step_def has_name_def slice_remove_def nth_append)
  show ?thesis
    unfolding remove_loop_def split go_fold_append before go_bind_Inr go_fold.simps at after
    by simp
qed

lemma remove_first_None: "remove_first h n ps = None \<longleftrightarrow> (\<forall>p \<in> set ps. \<not> has_name h n p)"
  by (induction ps) (auto simp: has_name_def)

text \<open>The cache loses its first pod of that name, whatever namespace the pod is in.\<close>

lemma remove_first_Some:
  "remove_first h n ps = Some ps' \<Longrightarrow>
     \<exists>xs r ys. ps = xs @ r # ys \<and> has_name h n r \<and> (\<forall>x \<in> set xs. \<not> has_name h n x) \<and> ps' = xs @ ys"
proof (induction ps arbitrary: ps')
  case Nil
  then show ?case by simp
next
  case (Cons p ps)
  show ?case
  proof (cases "has_name h n p")
    case True
    with Cons.prems have "ps' = ps" by (simp add: has_name_def)
    with True show ?thesis by (intro exI [of _ "[]"]) simp
  next
    case False
    with Cons.prems obtain qs where "remove_first h n ps = Some qs" and ps': "ps' = p # qs"
      by (auto simp: has_name_def)
    from Cons.IH [OF this(1)] obtain xs r ys where
      "ps = xs @ r # ys" "has_name h n r" "\<forall>x \<in> set xs. \<not> has_name h n x" "qs = xs @ ys" by blast
    with False ps' show ?thesis by (intro exI [of _ "p # xs"] exI [of _ r] exI [of _ ys]) simp
  qed
qed

lemma last_namespace_None: "last_namespace n nss = None \<longleftrightarrow> (\<forall>ns \<in> set nss. ns_Name ns \<noteq> n)"
  by (induction nss) (auto split: option.splits)

lemma last_namespace_Some:
  "last_namespace n nss = Some j \<Longrightarrow> j < length nss \<and> ns_Name (nss ! j) = n"
  by (induction nss arbitrary: j) (auto split: option.splits if_splits)

lemma all_refs_update:
  assumes "j < length nss" and "ns_Pods (nss ! j) = xs @ r # ys"
  shows "mset (all_refs nss) = add_mset r (mset (all_refs (nss[j := (nss ! j)\<lparr>ns_Pods := xs @ ys\<rparr>])))"
proof -
  have "nss = take j nss @ nss ! j # drop (Suc j) nss" using assms(1) by (rule id_take_nth_drop)
  then have "mset (all_refs nss) = mset (all_refs (take j nss @ nss ! j # drop (Suc j) nss))" by simp
  also have "\<dots> = add_mset r (mset (all_refs (take j nss @ (nss ! j)\<lparr>ns_Pods := xs @ ys\<rparr> # drop (Suc j) nss)))"
    by (simp add: all_refs_concat assms(2))
  also have "take j nss @ (nss ! j)\<lparr>ns_Pods := xs @ ys\<rparr> # drop (Suc j) nss =
      nss[j := (nss ! j)\<lparr>ns_Pods := xs @ ys\<rparr>]"
    using assms(1) by (rule upd_conv_take_nth_drop [symmetric])
  finally show ?thesis .
qed

text \<open>
  With pod names that are unique in the model, \<open>RemovePod\<close> takes exactly the named pod out of its
  namespace and out of the cache, and the cache stays in step.
\<close>

lemma RemovePod_unique:
  assumes ok: "cache_ok m" and cache: "m_pods m = Some ps"
    and uniq: "\<And>x y. x \<in> set ps \<Longrightarrow> y \<in> set ps \<Longrightarrow> p_Name (h ! x) = p_Name (h ! y) \<Longrightarrow> x = y"
    and dist: "distinct ps"
    and ns: "last_namespace namespaceName (m_Namespaces m) = Some j"
    and r: "r \<in> set (ns_Pods (m_Namespaces m ! j))" and name: "p_Name (h ! r) = podName"
  shows "\<exists>m'. RemovePod h podName namespaceName m = Inr (None, m') \<and> cache_ok m' \<and>
           m_pods m' = Some (remove1 r ps) \<and>
           m_Namespaces m' = (m_Namespaces m)[j := (m_Namespaces m ! j)\<lparr>ns_Pods :=
                                remove1 r (ns_Pods (m_Namespaces m ! j))\<rparr>]"
proof -
  let ?nss = "m_Namespaces m" and ?pods = "ns_Pods (m_Namespaces m ! j)"
  have j: "j < length ?nss" using last_namespace_Some [OF ns] by simp
  have mset: "mset ps = mset (all_refs ?nss)" using ok cache by (simp add: cache_ok_def)
  then have set: "set ps = set (all_refs ?nss)" and "distinct (all_refs ?nss)"
    using dist by (metis mset_eq_setD, metis mset_eq_imp_distinct_iff)
  then have d: "distinct ?pods"
    unfolding all_refs_concat using j by (simp add: distinct_concat_iff)
  have sub: "set ?pods \<subseteq> set ps" unfolding set all_refs_concat using nth_mem [OF j] by auto
  obtain xs ys where split: "?pods = xs @ r # ys" and nxs: "r \<notin> set xs"
    using split_list_first [OF r] by blast
  have others: "\<forall>x \<in> set (xs @ ys). \<not> has_name h podName x"
  proof
    fix x assume x: "x \<in> set (xs @ ys)"
    then have "x \<in> set ps" and "r \<in> set ps" and "x \<noteq> r" using sub d by (auto simp: split)
    with uniq name show "\<not> has_name h podName x" by (auto simp: has_name_def)
  qed
  have loop: "remove_loop h podName ?pods = Inr (remove1 r ?pods)"
    using remove_loop_once [OF _ others] name nxs by (simp add: split has_name_def remove1_append)
  obtain ps' where first: "remove_first h podName ps = Some ps'"
    using remove_first_None [of h podName ps] r sub name
    by (cases "remove_first h podName ps") (auto simp: has_name_def)
  obtain us s vs where us: "ps = us @ s # vs" "has_name h podName s"
      "\<forall>x \<in> set us. \<not> has_name h podName x" "ps' = us @ vs"
    using remove_first_Some [OF first] by blast
  have "s = r" using uniq [of s r] us r sub name by (auto simp: has_name_def)
  with us dist have ps': "ps' = remove1 r ps" by (simp add: remove1_append)
  have "mset (remove1 r ps) =
      mset (all_refs (?nss[j := (?nss ! j)\<lparr>ns_Pods := remove1 r ?pods\<rparr>]))"
    using all_refs_update [OF j split] nxs by (simp add: mset split remove1_append)
  then show ?thesis
    using ns loop first by (simp add: RemovePod_def Let_def cache ps' cache_ok_def)
qed

lemma RemovePod_not_found:
  assumes "last_namespace namespaceName (m_Namespaces m) = None"
  shows "RemovePod h podName namespaceName m =
           Inr (Some (ErrText (''failed to find pod '' @ namespaceName @ ''/'' @ podName)), m)"
  using assms by (simp add: RemovePod_def)

text \<open>Removing a pod before the cache was filled panics.\<close>

lemma RemovePod_nil_cache:
  assumes "m_pods m = None" and "last_namespace namespaceName (m_Namespaces m) \<noteq> None"
  shows "\<exists>e. RemovePod h podName namespaceName m = Inl e"
proof -
  from assms(2) obtain j where "last_namespace namespaceName (m_Namespaces m) = Some j" by blast
  then show ?thesis
    by (cases "remove_loop h podName (ns_Pods (m_Namespaces m ! j))")
      (simp_all add: RemovePod_def Let_def assms(1))
qed

section \<open>Properties\<close>

text \<open>
  C23. With pod names that are unique in the model, \<open>RemovePod\<close> removes exactly the named pod, from
  its namespace and from the cache, reports no error, and leaves the cache in step with the
  namespaces.
\<close>

theorem remove_pod_removes:
  assumes "cache_ok m" and "m_pods m = Some ps" and "distinct (map (\<lambda>x. p_Name (h ! x)) ps)"
    and "last_namespace namespaceName (m_Namespaces m) = Some j"
    and "r \<in> set (ns_Pods (m_Namespaces m ! j))"
  shows "\<exists>m'. RemovePod h (p_Name (h ! r)) namespaceName m = Inr (None, m') \<and> cache_ok m' \<and>
           m_pods m' = Some (remove1 r ps) \<and>
           m_Namespaces m' = (m_Namespaces m)[j := (m_Namespaces m ! j)\<lparr>ns_Pods :=
                                remove1 r (ns_Pods (m_Namespaces m ! j))\<rparr>]"
proof -
  have "distinct ps" and "\<And>x y. x \<in> set ps \<Longrightarrow> y \<in> set ps \<Longrightarrow> p_Name (h ! x) = p_Name (h ! y) \<Longrightarrow> x = y"
    using assms(3) by (auto simp: distinct_map inj_on_def)
  from RemovePod_unique [OF assms(1,2) this(2,1) assms(4,5) refl] show ?thesis by blast
qed

definition demo_cached_model :: "pod_ref list \<Rightarrow> model" where
  "demo_cached_model pods = \<lparr>m_pods = Some pods, m_ports = None, m_protocols = None,
     m_Namespaces = [\<lparr>ns_Name = ''x'', ns_Pods = pods\<rparr>], m_dnsDomain = ''cluster.local''\<rparr>"

lemma demo_cached_ok: "cache_ok (demo_cached_model pods)"
  by (simp add: cache_ok_def demo_cached_model_def all_refs_concat)

theorem remove_pod_removes_witness:
  "\<exists>m'. RemovePod demo_store (p_Name (demo_store ! 1)) ''x'' (demo_cached_model [0, 1]) = Inr (None, m') \<and>
        cache_ok m' \<and> m_pods m' = Some [0]"
proof -
  have "m_pods (demo_cached_model [0, 1]) = Some [0, 1]"
    and "last_namespace ''x'' (m_Namespaces (demo_cached_model [0, 1])) = Some 0"
    and "1 \<in> set (ns_Pods (m_Namespaces (demo_cached_model [0, 1]) ! 0))"
    by (simp_all add: demo_cached_model_def)
  moreover have "distinct (map (\<lambda>x. p_Name (demo_store ! x)) [0, 1])"
    by (simp add: demo_store_def demo_board_pod_def new_pod_def)
  ultimately show ?thesis
    using remove_pod_removes [OF demo_cached_ok, of "[0, 1]" "[0, 1]" demo_store "''x''" 0 1] by auto
qed

text \<open>
  The loop of \<open>RemovePod\<close> shortens the slice it ranges over: when the last two pods of the
  namespace both have the name, it panics instead of removing them.
\<close>

lemma remove_pod_panics_on_duplicates:
  assumes "last_namespace namespaceName (m_Namespaces m) = Some j"
    and "ns_Pods (m_Namespaces m ! j) = xs @ [r, r']"
    and "p_Name (h ! r) = podName" and "p_Name (h ! r') = podName"
    and "podName \<notin> (\<lambda>x. p_Name (h ! x)) ` set xs"
  shows "RemovePod h podName namespaceName m = Inl SliceBoundsOutOfRange"
proof -
  have "\<forall>x \<in> set xs. \<not> has_name h podName x"
    using assms(5) unfolding has_name_def by (metis image_eqI)
  then have "remove_loop h podName (xs @ [r, r']) = Inl SliceBoundsOutOfRange"
    by (intro remove_loop_twice_panics) (simp_all add: has_name_def assms(3,4))
  then show ?thesis using assms(1,2) by (simp add: RemovePod_def Let_def)
qed

lemma remove_pod_panics_on_duplicates_example:
  "RemovePod demo_store ''a'' ''x'' (demo_cached_model [1, 0, 0]) = Inl SliceBoundsOutOfRange"
proof (rule remove_pod_panics_on_duplicates)
  show "last_namespace ''x'' (m_Namespaces (demo_cached_model [1, 0, 0])) = Some 0"
    and "ns_Pods (m_Namespaces (demo_cached_model [1, 0, 0]) ! 0) = [1] @ [0, 0]"
    by (simp_all add: demo_cached_model_def)
qed (simp_all add: demo_store_def demo_board_pod_def new_pod_def)

text \<open>
  A namespace added with \<open>AddNamespace\<close> is seen by the next \<open>AllPods\<close>; one added with
  \<open>AddNamespaceWithImageAndCommands\<close> is not, once the cache is filled: \<open>AllPods\<close> keeps returning
  the pods it returned before.
\<close>

lemma added_namespaces_and_the_cache:
  assumes "AddNamespace n podNames ports protocols m h = (ns, m1, h1)"
    and "AddNamespaceWithImageAndCommands n podNames ports protocols img cmds (snd (AllPods m)) h = (ns2, m2, h2)"
  shows "fst (AllPods m1) = all_refs (m_Namespaces m) @ ns_Pods ns \<and> fst (AllPods m2) = fst (AllPods m) \<and>
         m_Namespaces m2 = m_Namespaces m @ [ns2]"
proof -
  obtain ps m' where a: "AllPods m = (ps, m')" by fastforce
  then have "m_pods m' = Some ps" and "m_Namespaces m' = m_Namespaces m"
    by (auto simp: AllPods_def Let_def split: option.splits)
  with assms(2) a show ?thesis
    using AddNamespace_cache(2) [OF assms(1)] AddNamespaceWithImageAndCommands_stale [of m' ps]
      AddNamespaceWithImageAndCommands_pods(1) [OF assms(2)] by auto
qed

lemma added_namespaces_and_the_cache_example:
  "\<exists>ns2 m2 h2. AddNamespaceWithImageAndCommands ''y'' [''c''] [80] [ProtocolTCP] AgnhostImage []
      (demo_cached_model [0, 1]) demo_store = (ns2, m2, h2) \<and> fst (AllPods m2) = [0, 1] \<and>
    m_Namespaces m2 = m_Namespaces (demo_cached_model [0, 1]) @ [ns2]"
proof -
  have a: "AllPods (demo_cached_model [0, 1]) = ([0, 1], demo_cached_model [0, 1])"
    by (simp add: AllPods_def demo_cached_model_def)
  obtain ns m1 h1 where 1: "AddNamespace ''y'' [''c''] [80] [ProtocolTCP] (demo_cached_model [0, 1]) demo_store = (ns, m1, h1)"
    by (metis surj_pair)
  obtain ns2 m2 h2 where 2: "AddNamespaceWithImageAndCommands ''y'' [''c''] [80] [ProtocolTCP] AgnhostImage []
      (snd (AllPods (demo_cached_model [0, 1]))) demo_store = (ns2, m2, h2)"
    by (metis surj_pair)
  from added_namespaces_and_the_cache [OF 1 2] 2 show ?thesis unfolding a fst_conv snd_conv by blast
qed

text \<open>
  \<open>AllPortsProtocol\<close> of a model without cached ports returns every non-zero port and every
  named protocol of the containers of its pods, each once.
\<close>

lemma ports_and_protocols_of_model:
  assumes "m_ports m = None" and "m_protocols m = None"
    and "AllPortsProtocol h m = Inr ((ports, protocols), m')"
  shows "distinct ports \<and> set ports = c_Port ` set (model_containers h (m_Namespaces m)) - {0} \<and>
         distinct protocols \<and> set protocols = c_Protocol ` set (model_containers h (m_Namespaces m)) - {''''}"
proof -
  obtain ps qs where e: "extractPortProtocols h (m_Namespaces m) = (ps, qs)" by fastforce
  with assms have "ps = ports" "qs = protocols" by (simp_all add: AllPortsProtocol_def)
  with extractPortProtocols_set [OF e] show ?thesis by simp
qed

end
