(* ===== verification/Kube_Services.thy ===== *)
theory Kube_Services
  imports Exec
begin

text \<open>
  \<open>pkg/entities/kubernetes/service.go\<close>: a service of the cluster with its labels, and the four
  loops that watch for an address of it. A watch loop may wait for ever (every event restarts its
  timer), so it is a partial function whose value \<open>None\<close> is ``never returns''.
\<close>

record service =
  s_service :: v1_service

definition Kube_NewService :: "v1_service \<Rightarrow> service" where
  "Kube_NewService svc = \<lparr>s_service = svc\<rparr>"

section \<open>Creating and deleting\<close>

definition s_Create :: "('w, 'z) client_scheme \<Rightarrow> service \<Rightarrow> 'w \<Rightarrow> (v1_service option \<times> err) \<times> 'w" where
  "s_Create E s w =
     (let ((createdSvc, e), w1) = servicesCreate E (ksNamespace (s_service s)) (s_service s) w
      in if e \<noteq> None
         then ((None, errWrapf E e (''Unable to create service '' @ ksName (s_service s) @ ''/'' @
                                      ksNamespace (s_service s))), w1)
         else ((Some createdSvc, None), w1))"

definition s_Delete :: "('w, 'z) client_scheme \<Rightarrow> service \<Rightarrow> 'w \<Rightarrow> err \<times> 'w" where
  "s_Delete E s w =
     (let (e, w1) = servicesDelete E (ksNamespace (s_service s)) (ksName (s_service s)) w
      in if e \<noteq> None
         then (errWrapf E e (''unable to delete service '' @ ksName (s_service s)), w1)
         else (None, w1))"

text \<open>The list may hold nil services, which are skipped; the first error stops the loop.\<close>

fun Services_Delete :: "('w, 'z) client_scheme \<Rightarrow> service option list \<Rightarrow> 'w \<Rightarrow> err \<times> 'w" where
  "Services_Delete E [] w = (None, w)"
| "Services_Delete E (None # ss) w = Services_Delete E ss w"
| "Services_Delete E (Some svc # ss) w =
     (let (e, w1) = s_Delete E svc w
      in if e \<noteq> None then (e, w1) else Services_Delete E ss w1)"

definition s_GetClusterIP :: "service \<Rightarrow> string" where
  "s_GetClusterIP s = ksClusterIP (s_service s)"

section \<open>Labels\<close>

definition s_GetLabel :: "string \<Rightarrow> service \<Rightarrow> string \<times> err" where
  "s_GetLabel key s =
     (case ksLabels (s_service s) of
        None \<Rightarrow> ('''', Some ErrLabelNotFound)
      | Some ls \<Rightarrow> (case ls key of
                       None \<Rightarrow> ('''', Some ErrLabelNotFound)
                     | Some value \<Rightarrow> (value, None)))"

text \<open>The service read from the cluster replaces the one held, also when reading it failed.\<close>

definition s_SetLabel ::
  "('w, 'z) client_scheme \<Rightarrow> string \<Rightarrow> string \<Rightarrow> service \<Rightarrow> 'w \<Rightarrow> (err \<times> service) \<times> 'w" where
  "s_SetLabel E key value s w =
     (let ((got, e), w1) = servicesGet E (ksNamespace (s_service s)) (ksName (s_service s)) w;
          s1 = s\<lparr>s_service := got\<rparr>
      in if e \<noteq> None
         then ((errWrapf E e (''unable to get service '' @ ksName got), s1), w1)
         else let ls = (case ksLabels got of None \<Rightarrow> Map.empty | Some ls \<Rightarrow> ls);
                  svc = got\<lparr>ksLabels := Some (ls(key \<mapsto> value))\<rparr>;
                  s2 = s1\<lparr>s_service := svc\<rparr>;
                  ((_, e), w2) = servicesUpdate E (ksNamespace svc) svc w1
              in if e \<noteq> None
                 then ((errWrapf E e (''unable to update service '' @ ksName svc), s2), w2)
                 else ((None, s2), w2))"

definition s_RemoveLabel ::
  "('w, 'z) client_scheme \<Rightarrow> string \<Rightarrow> service \<Rightarrow> 'w \<Rightarrow> (err \<times> service) \<times> 'w" where
  "s_RemoveLabel E key s w =
     (let ((got, e), w1) = servicesGet E (ksNamespace (s_service s)) (ksName (s_service s)) w;
          s1 = s\<lparr>s_service := got\<rparr>
      in if e \<noteq> None
         then ((errWrapf E e (''unable to get service '' @ ksName got), s1), w1)
         else (case ksLabels got of
                 None \<Rightarrow> ((Some ErrLabelNotFound, s1), w1)
               | Some ls \<Rightarrow>
                   if ls key = None then ((Some ErrLabelNotFound, s1), w1)
                   else let svc = got\<lparr>ksLabels := Some (ls(key := None))\<rparr>;
                            s2 = s1\<lparr>s_service := svc\<rparr>;
                            ((_, e), w2) = servicesUpdate E (ksNamespace svc) svc w1
                        in if e \<noteq> None
                           then ((errWrapf E e (''unable to update service '' @ ksName svc), s2), w2)
                           else ((None, s2), w2)))"

section \<open>Watching\<close>

text \<open>
  One watch loop: \<open>handle\<close> treats the object of an event and returns (\<open>Inl\<close>) or goes on with new
  local state (\<open>Inr\<close>), or panics; \<open>finish\<close> is the return when the timer fires.
\<close>

partial_function (option) watch_loop ::
  "('w, 'z) client_scheme \<Rightarrow> (watch_object \<Rightarrow> 's \<Rightarrow> ('r + 's) go) \<Rightarrow> ('s \<Rightarrow> 'r) \<Rightarrow> nat \<Rightarrow> 's \<Rightarrow> 'w \<Rightarrow>
   ('r go \<times> 'w) option" where
  "watch_loop E handle finish ch s w =
     (case watchNext E ch w of
        (WatchTimeout, w1) \<Rightarrow> Some (Inr (finish s), w1)
      | (WatchEvent obj, w1) \<Rightarrow>
          (case handle obj s of
             Inl p \<Rightarrow> Some (Inl p, w1)
           | Inr (Inl r) \<Rightarrow> Some (Inr r, w1)
           | Inr (Inr s1) \<Rightarrow> watch_loop E handle finish ch s1 w1))"

declare watch_loop.simps [code]

definition subset_ready :: "v1_subset \<Rightarrow> bool" where
  "subset_ready sub \<longleftrightarrow> 0 < length (suAddresses sub) \<and> length (suNotReady sub) = 0"

definition endpoint_handle :: "watch_object \<Rightarrow> unit \<Rightarrow> ((bool \<times> err) + unit) go" where
  "endpoint_handle obj s =
     (case obj of
        WEndpoints ep \<Rightarrow> Inr (if list_ex subset_ready (keSubsets ep) then Inl (True, None) else Inr ())
      | _ \<Rightarrow> Inl FailedTypeAssertion)"

definition WaitForEndpoint ::
  "('w, 'z) client_scheme \<Rightarrow> service \<Rightarrow> 'w \<Rightarrow> ((bool \<times> err) go \<times> 'w) option" where
  "WaitForEndpoint E s w =
     (let ((endpointWatch, e), w1) = endpointsWatch E (ksNamespace (s_service s)) w
      in if e \<noteq> None then Some (Inr (False, e), w1)
         else (case endpointWatch of
                 None \<Rightarrow> Some (Inl NilDereference, w1)
               | Some ch \<Rightarrow> watch_loop E endpoint_handle (\<lambda>_. (False, None)) ch () w1))"

definition clusterip_handle :: "string \<Rightarrow> watch_object \<Rightarrow> unit \<Rightarrow> ((string \<times> err) + unit) go" where
  "clusterip_handle name obj s =
     (case obj of
        WService svc \<Rightarrow> Inr (if ksName svc = name \<and> ksClusterIP svc \<noteq> ''''
                              then Inl (ksClusterIP svc, None) else Inr ())
      | _ \<Rightarrow> Inl FailedTypeAssertion)"

text \<open>The deferred \<open>serviceWatch.Stop()\<close> dereferences the watch before the error is looked at.\<close>

definition WaitForClusterIP ::
  "('w, 'z) client_scheme \<Rightarrow> service \<Rightarrow> 'w \<Rightarrow> ((string \<times> err) go \<times> 'w) option" where
  "WaitForClusterIP E s w =
     (let ((serviceWatch, e), w1) = servicesWatch E (ksNamespace (s_service s)) w
      in (case serviceWatch of
            None \<Rightarrow> Some (Inl NilDereference, w1)
          | Some ch \<Rightarrow>
              if e \<noteq> None then Some (Inr ('''', e), w1)
              else watch_loop E (clusterip_handle (ksName (s_service s))) (\<lambda>_. ('''', None)) ch () w1))"

fun first_node_port :: "v1_service_port list \<Rightarrow> int32 option" where
  "first_node_port [] = None"
| "first_node_port (port # ports) = (if spNodePort port \<noteq> 0 then Some (spNodePort port) else first_node_port ports)"

definition nodeport_handle :: "string \<Rightarrow> watch_object \<Rightarrow> int32 \<Rightarrow> ((int32 \<times> err) + int32) go" where
  "nodeport_handle name obj nodePort =
     (case obj of
        WService svc \<Rightarrow>
          Inr (if ksName svc = name
               then (case first_node_port (ksPorts svc) of
                       Some p \<Rightarrow> Inl (p, None)
                     | None \<Rightarrow> Inr nodePort)
               else Inr nodePort)
      | _ \<Rightarrow> Inl FailedTypeAssertion)"

definition WaitForNodePort ::
  "('w, 'z) client_scheme \<Rightarrow> service \<Rightarrow> 'w \<Rightarrow> ((int32 \<times> err) go \<times> 'w) option" where
  "WaitForNodePort E s w =
     (let ((serviceWatch, e), w1) = servicesWatch E (ksNamespace (s_service s)) w
      in (case serviceWatch of
            None \<Rightarrow> Some (Inl NilDereference, w1)
          | Some ch \<Rightarrow>
              if e \<noteq> None then Some (Inr (0, e), w1)
              else watch_loop E (nodeport_handle (ksName (s_service s))) (\<lambda>nodePort. (nodePort, None)) ch 0 w1))"

definition externalip_handle ::
  "string \<Rightarrow> watch_object \<Rightarrow> string list \<Rightarrow> ((string list \<times> err) + string list) go" where
  "externalip_handle name obj ips =
     (case obj of
        WService svc \<Rightarrow> Inr (Inr (if ksName svc = name then ips @ ksIngress svc else ips))
      | _ \<Rightarrow> Inl FailedTypeAssertion)"

definition WaitForExternalIP ::
  "('w, 'z) client_scheme \<Rightarrow> service \<Rightarrow> 'w \<Rightarrow> ((string list \<times> err) go \<times> 'w) option" where
  "WaitForExternalIP E s w =
     (let ((serviceWatch, e), w1) = servicesWatch E (ksNamespace (s_service s)) w
      in if e \<noteq> None then Some (Inr ([], None), w1)
         else (case serviceWatch of
                 None \<Rightarrow> Some (Inl NilDereference, w1)
               | Some ch \<Rightarrow> watch_loop E (externalip_handle (ksName (s_service s))) (\<lambda>ips. (ips, None)) ch [] w1))"

section \<open>What a watch loop returns\<close>

text \<open>The watch delivers these objects one after the other, and then the timer fires.\<close>

fun feeds :: "('w, 'z) client_scheme \<Rightarrow> nat \<Rightarrow> 'w \<Rightarrow> watch_object list \<Rightarrow> 'w \<Rightarrow> bool" where
  "feeds E ch w [] w' \<longleftrightarrow> watchNext E ch w = (WatchTimeout, w')"
| "feeds E ch w (x # xs) w' \<longleftrightarrow>
     (case watchNext E ch w of
        (WatchEvent y, w1) \<Rightarrow> y = x \<and> feeds E ch w1 xs w'
      | _ \<Rightarrow> False)"

text \<open>The loop on a finite list of objects.\<close>

fun watch_spec :: "(watch_object \<Rightarrow> 's \<Rightarrow> ('r + 's) go) \<Rightarrow> ('s \<Rightarrow> 'r) \<Rightarrow> watch_object list \<Rightarrow> 's \<Rightarrow> 'r go" where
  "watch_spec handle finish [] s = Inr (finish s)"
| "watch_spec handle finish (x # xs) s =
     (case handle x s of
        Inl p \<Rightarrow> Inl p
      | Inr (Inl r) \<Rightarrow> Inr r
      | Inr (Inr s1) \<Rightarrow> watch_spec handle finish xs s1)"

lemma watch_loop_feeds:
  "feeds E ch w objs w' \<Longrightarrow>
     \<exists>w''. watch_loop E handle finish ch s w = Some (watch_spec handle finish objs s, w'')"
proof (induction objs arbitrary: w s)
  case Nil
  then show ?case by (subst watch_loop.simps) simp
next
  case (Cons x xs)
  then obtain w1 where n: "watchNext E ch w = (WatchEvent x, w1)" and "feeds E ch w1 xs w'"
    by (auto split: prod.splits watch_outcome.splits)
  with Cons.IH have "\<exists>w''. watch_loop E handle finish ch s1 w1 = Some (watch_spec handle finish xs s1, w'')"
    for s1 by blast
  with n show ?case
    by (subst watch_loop.simps) (auto split: sum.splits)
qed

text \<open>
  Every event restarts the timer, so a watch that keeps delivering events the loop only passes over
  keeps it waiting for ever.
\<close>

lemma watch_loop_never:
  assumes event: "\<And>w. I w \<Longrightarrow> \<exists>obj w1. watchNext E ch w = (WatchEvent obj, w1) \<and> I w1 \<and>
                                     (\<forall>s. \<exists>s1. handle obj s = Inr (Inr s1))"
    and "I w"
  shows "watch_loop E handle finish ch s w = None"
proof -
  let ?event = "\<lambda>E handle ch. \<forall>w. I w \<longrightarrow> (\<exists>obj w1. watchNext E ch w = (WatchEvent obj, w1) \<and> I w1 \<and>
                                     (\<forall>s. \<exists>s1. handle obj s = Inr (Inr s1)))"
  have "?event E handle ch \<longrightarrow> \<not> I w" if "watch_loop E handle finish ch s w = Some r" for s w r
  proof (rule watch_loop.raw_induct [where P = "\<lambda>E handle finish ch s w r. ?event E handle ch \<longrightarrow> \<not> I w",
        OF _ that])
    fix loop E handle finish ch s w r
    assume IH: "\<And>E handle finish ch s w r. loop E handle finish ch s w = Some r \<Longrightarrow> ?event E handle ch \<longrightarrow> \<not> I w"
      and step: "(case watchNext E ch w of
          (WatchEvent obj, w1) \<Rightarrow>
            (case handle obj s of Inl p \<Rightarrow> Some (Inl p, w1)
             | Inr (Inl r) \<Rightarrow> Some (Inr r, w1)
             | Inr (Inr s1) \<Rightarrow> loop E handle finish ch s1 w1)
        | (WatchTimeout, w1) \<Rightarrow> Some (Inr (finish s), w1)) = Some r"
    show "?event E handle ch \<longrightarrow> \<not> I w"
    proof (intro impI notI)
      assume ev: "?event E handle ch" and "I w"
      then obtain obj w1 s1 where
        "watchNext E ch w = (WatchEvent obj, w1)" "I w1" "handle obj s = Inr (Inr s1)" by metis
      with step IH ev show False by simp
    qed
  qed
  with assms show ?thesis by (cases "watch_loop E handle finish ch s w") auto
qed

subsection \<open>The contract the four loops share\<close>

text \<open>
  A handler knows one kind of object: it panics on every other kind (the unchecked type assertion)
  and never on its own.
\<close>

locale watch_handler =
  fixes decode :: "watch_object \<Rightarrow> 'o option"
    and handle :: "watch_object \<Rightarrow> 's \<Rightarrow> ('r + 's) go"
    and finish :: "'s \<Rightarrow> 'r"
  assumes foreign: "decode obj = None \<Longrightarrow> handle obj s = Inl FailedTypeAssertion"
    and own: "decode obj = Some x \<Longrightarrow> \<exists>v. handle obj s = Inr v"
begin

lemma spec_total: "\<forall>obj \<in> set objs. decode obj \<noteq> None \<Longrightarrow> \<exists>r. watch_spec handle finish objs s = Inr r"
proof (induction objs arbitrary: s)
  case Nil
  then show ?case by simp
next
  case (Cons obj objs)
  then obtain v where "handle obj s = Inr v" using own by fastforce
  with Cons show ?case by (cases v) simp_all
qed

lemma loop_returns:
  assumes "feeds E ch w objs w'" and "\<forall>obj \<in> set objs. decode obj \<noteq> None"
  shows "\<exists>r w''. watch_loop E handle finish ch s w = Some (Inr r, w'')"
  using watch_loop_feeds [OF assms(1)] spec_total [OF assms(2)] by metis

text \<open>The only panic is that of the type assertion, and only a foreign object causes it.\<close>

lemma spec_panics: "watch_spec handle finish objs s = Inl p \<Longrightarrow> p = FailedTypeAssertion \<and> (\<exists>obj \<in> set objs. decode obj = None)"
proof (induction objs arbitrary: s)
  case Nil
  then show ?case by simp
next
  case (Cons obj objs)
  show ?case
  proof (cases "decode obj")
    case None
    with Cons.prems show ?thesis using foreign [OF None, of s] by auto
  next
    case (Some x)
    then obtain v where "handle obj s = Inr v" using own by blast
    with Cons show ?thesis by (cases v) auto
  qed
qed

lemma foreign_first:
  "decode obj = None \<Longrightarrow> watch_spec handle finish (obj # objs) s = Inl FailedTypeAssertion"
  by (simp add: foreign)

end

definition as_service :: "watch_object \<Rightarrow> v1_service option" where
  "as_service obj = (case obj of WService svc \<Rightarrow> Some svc | _ \<Rightarrow> None)"

definition as_endpoints :: "watch_object \<Rightarrow> v1_endpoints option" where
  "as_endpoints obj = (case obj of WEndpoints ep \<Rightarrow> Some ep | _ \<Rightarrow> None)"

interpretation endpoint_watch: watch_handler as_endpoints endpoint_handle "\<lambda>_. (False, None)"
  by unfold_locales (auto simp: as_endpoints_def endpoint_handle_def split: watch_object.splits)

interpretation clusterip_watch: watch_handler as_service "clusterip_handle name" "\<lambda>_. ('''', None)" for name
  by unfold_locales (auto simp: as_service_def clusterip_handle_def split: watch_object.splits)

interpretation nodeport_watch: watch_handler as_service "nodeport_handle name" "\<lambda>p. (p, None)" for name
  by unfold_locales (auto simp: as_service_def nodeport_handle_def split: watch_object.splits)

interpretation externalip_watch: watch_handler as_service "externalip_handle name" "\<lambda>ips. (ips, None)" for name
  by unfold_locales (auto simp: as_service_def externalip_handle_def split: watch_object.splits)

subsection \<open>What each of them returns\<close>

lemma endpoint_spec:
  "watch_spec endpoint_handle (\<lambda>_. (False, None)) (map WEndpoints eps) () =
     Inr (list_ex (\<lambda>ep. list_ex subset_ready (keSubsets ep)) eps, None)"
  by (induction eps) (simp_all add: endpoint_handle_def)

definition has_cluster_ip :: "string \<Rightarrow> v1_service \<Rightarrow> bool" where
  "has_cluster_ip name svc \<longleftrightarrow> ksName svc = name \<and> ksClusterIP svc \<noteq> ''''"

lemma clusterip_spec:
  "watch_spec (clusterip_handle name) (\<lambda>_. ('''', None)) (map WService svcs) () =
     Inr (case find (has_cluster_ip name) svcs of Some svc \<Rightarrow> ksClusterIP svc | None \<Rightarrow> '''', None)"
  by (induction svcs) (simp_all add: clusterip_handle_def has_cluster_ip_def)

lemma first_node_port_find:
  "first_node_port ports = map_option spNodePort (find (\<lambda>p. spNodePort p \<noteq> 0) ports)"
  by (induction ports) simp_all

lemma nodeport_spec:
  "watch_spec (nodeport_handle name) (\<lambda>p. (p, None)) (map WService svcs) n =
     Inr (case first_node_port (concat (map ksPorts (filter (\<lambda>svc. ksName svc = name) svcs))) of
            Some p \<Rightarrow> p | None \<Rightarrow> n, None)"
proof (induction svcs)
  case Nil
  then show ?case by simp
next
  case (Cons svc svcs)
  have "first_node_port (xs @ ys) =
      (case first_node_port xs of Some p \<Rightarrow> Some p | None \<Rightarrow> first_node_port ys)" for xs ys
    by (induction xs) simp_all
  with Cons show ?case by (simp add: nodeport_handle_def split: option.splits)
qed

lemma externalip_spec:
  "watch_spec (externalip_handle name) (\<lambda>ips. (ips, None)) (map WService svcs) ips =
     Inr (ips @ concat (map ksIngress (filter (\<lambda>svc. ksName svc = name) svcs)), None)"
  by (induction svcs arbitrary: ips) (simp_all add: externalip_handle_def)

section \<open>Labels: what is kept\<close>

lemma SetLabel_then_GetLabel:
  assumes "wrapf_law E" and "s_SetLabel E key value s w = ((None, s'), w')"
    and "servicesGet E (ksNamespace (s_service s)) (ksName (s_service s)) w = ((got, e), w1)"
  shows "e = None" and "s_GetLabel key s' = (value, None)"
    and "k \<noteq> key \<Longrightarrow> s_GetLabel k s' = s_GetLabel k (Kube_NewService got)"
  using assms(2,3)
  by (auto simp: wrapf_iff [OF assms(1)] s_SetLabel_def Let_def s_GetLabel_def Kube_NewService_def split: if_splits prod.splits option.splits)

lemma RemoveLabel_then_GetLabel:
  assumes "wrapf_law E" and "s_RemoveLabel E key s w = ((None, s'), w')"
    and "servicesGet E (ksNamespace (s_service s)) (ksName (s_service s)) w = ((got, e), w1)"
  shows "e = None" and "s_GetLabel key s' = ('''', Some ErrLabelNotFound)"
    and "k \<noteq> key \<Longrightarrow> s_GetLabel k s' = s_GetLabel k (Kube_NewService got)"
    and "snd (s_GetLabel key (Kube_NewService got)) = None"
  using assms(2,3)
  by (auto simp: wrapf_iff [OF assms(1)] s_RemoveLabel_def Let_def s_GetLabel_def Kube_NewService_def split: if_splits prod.splits option.splits)

text \<open>
  The API server, at rest between the calls: what an update stored is what the next read returns,
  and an update of an object just read succeeds.
\<close>

definition store_law :: "('w, 'z) client_scheme \<Rightarrow> ('w \<Rightarrow> v1_service option) \<Rightarrow> bool" where
  "store_law E stored \<longleftrightarrow>
     (\<forall>ns name w svc. stored w = Some svc \<longrightarrow> servicesGet E ns name w = ((svc, None), w)) \<and>
     (\<forall>ns svc w. stored w \<noteq> None \<longrightarrow>
        (\<exists>w1. servicesUpdate E ns svc w = ((svc, None), w1) \<and> stored w1 = Some svc))"

text \<open>Setting a label that was not there and removing it again restores the stored labels.\<close>

lemma SetLabel_RemoveLabel:
  assumes "store_law E stored" and "stored w = Some svc" and "ksLabels svc = Some ls" and "ls key = None"
    and "s_SetLabel E key value s w = ((e1, s1), w1)" and "s_RemoveLabel E key s1 w1 = ((e2, s2), w2)"
  shows "e1 = None" and "e2 = None" and "stored w2 = Some svc"
proof -
  let ?svc = "svc\<lparr>ksLabels := Some (ls(key \<mapsto> value))\<rparr>"
  have get: "servicesGet E ns name w = ((svc, None), w)" for ns name
    using assms(1,2) by (simp add: store_law_def)
  obtain wa where wa: "servicesUpdate E (ksNamespace svc) ?svc w = ((?svc, None), wa)" "stored wa = Some ?svc"
    using assms(1,2) unfolding store_law_def by blast
  have one: "e1 = None \<and> s1 = s\<lparr>s_service := ?svc\<rparr> \<and> w1 = wa"
    using assms(5) by (simp add: s_SetLabel_def get assms(3) wa Let_def)
  have "ls(key := None) = ls" using assms(4) by auto
  then have restored: "svc\<lparr>ksLabels := Some (ls(key := None))\<rparr> = svc"
    using assms(3) by simp
  have get1: "servicesGet E ns name wa = ((?svc, None), wa)" for ns name
    using assms(1) wa(2) by (simp add: store_law_def)
  obtain wb where wb: "servicesUpdate E (ksNamespace svc) svc wa = ((svc, None), wb)" "stored wb = Some svc"
    using assms(1) wa(2) unfolding store_law_def by (metis option.distinct(1))
  have "e2 = None \<and> w2 = wb"
    using assms(6) one restored by (simp add: s_RemoveLabel_def get1 wb Let_def)
  with one wb show "e1 = None" and "e2 = None" and "stored w2 = Some svc" by simp_all
qed

text \<open>\<open>Services.Delete\<close> returns nil exactly when every deletion it made succeeded.\<close>

fun deletions :: "('w, 'z) client_scheme \<Rightarrow> service option list \<Rightarrow> 'w \<Rightarrow> err list" where
  "deletions E [] w = []"
| "deletions E (None # ss) w = deletions E ss w"
| "deletions E (Some svc # ss) w = (let (e, w1) = s_Delete E svc w in e # deletions E ss w1)"

lemma Services_Delete_nil_iff:
  "fst (Services_Delete E ss w) = None \<longleftrightarrow> (\<forall>e \<in> set (deletions E ss w). e = None)"
  by (induction E ss w rule: Services_Delete.induct) (auto simp: Let_def split: prod.splits)

section \<open>Properties\<close>

definition demo_held :: service where
  "demo_held = Kube_NewService demo_service"

text \<open>
  C27. \<open>WaitForEndpoint\<close>, when the watch delivers a list of endpoints objects and then falls silent,
  returns without error, and it returns true exactly when some of them has a subset with an
  address and none that is not ready: one ready subset of one object is enough.
\<close>

theorem wait_for_endpoint_result:
  assumes "endpointsWatch E (ksNamespace (s_service s)) w = ((Some ch, None), w1)"
    and "feeds E ch w1 (map WEndpoints eps) w2"
  shows "\<exists>w'. WaitForEndpoint E s w =
           Some (Inr (list_ex (\<lambda>ep. list_ex subset_ready (keSubsets ep)) eps, None), w')"
  using watch_loop_feeds [OF assms(2), of endpoint_handle "\<lambda>_. (False, None)" "()"]
  by (simp add: WaitForEndpoint_def assms(1) endpoint_spec)

theorem wait_for_endpoint_result_witness:
  "\<exists>w'. WaitForEndpoint demo_client demo_held 0 = Some (Inr (True, None), w')"
proof -
  have w: "endpointsWatch demo_client (ksNamespace (s_service demo_held)) 0 = ((Some 1, None), 0)"
    by (simp add: demo_client_def)
  let ?ep = "\<lparr>keName = ''s-1'', keSubsets = [\<lparr>suAddresses = [''10.0.0.1''], suNotReady = []\<rparr>]\<rparr>"
  have "feeds demo_client 1 0 (map WEndpoints [?ep]) 1" by (simp add: demo_client_def)
  from wait_for_endpoint_result [OF w this] show ?thesis by (simp add: subset_ready_def)
qed

lemma WaitForClusterIP_feeds:
  assumes "servicesWatch E (ksNamespace (s_service s)) w = ((Some ch, None), w1)"
    and "feeds E ch w1 (map WService svcs) w2"
  shows "\<exists>w'. WaitForClusterIP E s w =
           Some (Inr (case find (has_cluster_ip (ksName (s_service s))) svcs of
                        Some svc \<Rightarrow> ksClusterIP svc | None \<Rightarrow> '''', None), w')"
  using watch_loop_feeds [OF assms(2), of "clusterip_handle (ksName (s_service s))" "\<lambda>_. ('''', None)" "()"]
  by (simp add: WaitForClusterIP_def assms(1) clusterip_spec)

text \<open>
  C28. \<open>WaitForExternalIP\<close> has no deadline of its own: every event restarts its timer, and it
  returns only when the timer fires, so on a watch that keeps delivering services it never returns.
\<close>

theorem wait_for_external_ip_never_returns:
  assumes "servicesWatch E (ksNamespace (s_service s)) w = ((Some ch, None), w1)"
    and "\<And>w. \<exists>svc w1. watchNext E ch w = (WatchEvent (WService svc), w1)"
  shows "WaitForExternalIP E s w = None"
proof -
  let ?h = "externalip_handle (ksName (s_service s))"
  have "watch_loop E ?h (\<lambda>ips. (ips, None)) ch [] w1 = None"
  proof (rule watch_loop_never [where I = "\<lambda>_. True"])
    fix w
    obtain svc w1 where "watchNext E ch w = (WatchEvent (WService svc), w1)" using assms(2) by blast
    then show "\<exists>obj w1. watchNext E ch w = (WatchEvent obj, w1) \<and> True \<and> (\<forall>s. \<exists>s1. ?h obj s = Inr (Inr s1))"
      by (simp add: externalip_handle_def)
  qed simp
  then show ?thesis by (simp add: WaitForExternalIP_def assms(1))
qed

theorem wait_for_external_ip_never_returns_witness:
  "WaitForExternalIP (demo_client\<lparr>watchNext := \<lambda>ch w. (WatchEvent (WService demo_service), w + 1)\<rparr>) demo_held 0 = None"
  by (rule wait_for_external_ip_never_returns [of _ _ _ 0 0]) (simp_all add: demo_client_def)

text \<open>
  C29. On an API server that returns what was last stored, setting a label that was absent and
  removing it again both succeed and leave the stored service as it was.
\<close>

theorem set_then_remove_label_restores:
  assumes "store_law E stored" and "stored w = Some svc" and "ksLabels svc = Some ls" and "ls key = None"
    and "s_SetLabel E key value s w = ((e1, s1), w1)" and "s_RemoveLabel E key s1 w1 = ((e2, s2), w2)"
  shows "e1 = None \<and> e2 = None \<and> stored w2 = Some svc"
  using SetLabel_RemoveLabel [OF assms] by simp

definition store_client :: "v1_service client" where
  "store_client =
     \<lparr>goOrder = (\<lambda>n w. ([0..<n], w)), randIntn = (\<lambda>n w. (0, w)),
      errWrapf = (\<lambda>e msg. e), spdyExecutor = (\<lambda>req w. (None, w)),
      execStream = (\<lambda>req w. (('''', '''', None), w)), podsCreate = (\<lambda>ns p w. ((p, None), w)),
      podsGet = (\<lambda>ns name w. ((demo_pod ns name PodRunning, None), w)),
      podsDelete = (\<lambda>ns name w. (None, w)), podsPatch = (\<lambda>ns name patch w. (None, w)),
      namespacesCreate = (\<lambda>ns w. ((ns, None), w)), namespacesDelete = (\<lambda>ns w. (None, w)),
      nodesList = (\<lambda>w. (([], None), w)), servicesCreate = (\<lambda>ns s w. ((s, None), s)),
      servicesGet = (\<lambda>ns name w. ((w, None), w)), servicesUpdate = (\<lambda>ns s w. ((s, None), s)),
      servicesDelete = (\<lambda>ns name w. (None, w)), servicesWatch = (\<lambda>ns w. ((Some 0, None), w)),
      endpointsWatch = (\<lambda>ns w. ((Some 1, None), w)), watchNext = (\<lambda>ch w. (WatchTimeout, w)),
      pollImmediate = (\<lambda>cond s. demo_poll 0 cond s)\<rparr>"

theorem set_then_remove_label_restores_witness:
  "\<exists>e1 s1 w1 e2 s2. s_SetLabel store_client ''k'' ''v'' demo_held demo_service = ((e1, s1), w1) \<and>
     s_RemoveLabel store_client ''k'' s1 w1 = ((e2, s2), demo_service) \<and> e1 = None \<and> e2 = None"
proof -
  have law: "store_law store_client Some" by (simp add: store_law_def store_client_def)
  have ls: "ksLabels demo_service = Some [''app'' \<mapsto> ''web'']" by (simp add: demo_service_def)
  obtain e1 s1 w1 where 1: "s_SetLabel store_client ''k'' ''v'' demo_held demo_service = ((e1, s1), w1)"
    by (metis surj_pair)
  obtain e2 s2 w2 where 2: "s_RemoveLabel store_client ''k'' s1 w1 = ((e2, s2), w2)" by (metis surj_pair)
  from set_then_remove_label_restores [OF law refl ls _ 1 2] have "e1 = None" "e2 = None" "w2 = demo_service" by simp_all
  with 1 2 show ?thesis by blast
qed

end
