(* ===== verification/Manager.thy ===== *)
theory Manager
  imports Model Kube_Services
begin

text \<open>
  \<open>pkg/matrix/manager.go\<close>: the operations on the cluster. The state a \<open>KubeManager\<close> works on is the
  store of pods, its map of pending pods and the world; the REST configuration and the clientset
  are the record of library operations.
\<close>

record 'w kube =
  k_pods :: pod_store
  k_PendingPods :: pending_pods
  k_world :: 'w

definition NewKubeManager :: "pod_store \<Rightarrow> 'w \<Rightarrow> 'w kube" where
  "NewKubeManager h w = \<lparr>k_pods = h, k_PendingPods = [], k_world = w\<rparr>"

section \<open>Single calls\<close>

definition CreatePod :: "('w, 'z) client_scheme \<Rightarrow> v1_pod \<Rightarrow> 'w \<Rightarrow> (v1_pod option \<times> err) \<times> 'w" where
  "CreatePod E podSpec w =
     (let nsName = kpNamespace podSpec;
          ((pod, e), w1) = podsCreate E nsName podSpec w
      in if e \<noteq> None
         then ((None, errWrapf E e (''unable to create pod '' @ nsName @ ''/'' @ kpName podSpec)), w1)
         else ((Some pod, None), w1))"

definition label_patch :: "string \<Rightarrow> string \<Rightarrow> string" where
  "label_patch key value =
     ''[{\"op\": \"add\", \"path\": \"/metadata/labels/'' @ key @ ''\", \"value\": \"'' @ value @ ''\"}]''"

definition AddLabelToPod ::
  "('w, 'z) client_scheme \<Rightarrow> pod \<Rightarrow> string \<Rightarrow> string \<Rightarrow> 'w \<Rightarrow> err \<times> 'w" where
  "AddLabelToPod E p key value w =
     (let nsName = p_Namespace p;
          (e, w1) = podsPatch E nsName (p_Name p) (label_patch key value) w
      in if e \<noteq> None
         then (errWrapf E e (''unable to add label to pod '' @ nsName @ ''/'' @ p_Name p @
                             '' label: '' @ key @ '':'' @ value), w1)
         else (None, w1))"

definition RemoveLabelFromPod ::
  "('w, 'z) client_scheme \<Rightarrow> pod \<Rightarrow> string \<Rightarrow> 'w \<Rightarrow> err \<times> 'w" where
  "RemoveLabelFromPod E p key w =
     (let nsName = p_Namespace p;
          (e, w1) = podsPatch E nsName (p_Name p)
                      (''[{\"op\": \"remove\", \"path\": \"/metadata/labels/'' @ key @ ''\"}]'') w
      in if e \<noteq> None
         then (errWrapf E e (''unable to remove label from pod '' @ nsName @ ''/'' @ p_Name p @
                             '' label key: '' @ key), w1)
         else (None, w1))"

definition DeletePod :: "('w, 'z) client_scheme \<Rightarrow> string \<Rightarrow> string \<Rightarrow> 'w \<Rightarrow> err \<times> 'w" where
  "DeletePod E podName namespaceName w =
     (let (e, w1) = podsDelete E namespaceName podName w
      in if e \<noteq> None
         then (errWrapf E e (''unable to delete pod '' @ namespaceName @ ''/'' @ podName), w1)
         else (None, w1))"

definition CreateNamespace ::
  "('w, 'z) client_scheme \<Rightarrow> v1_namespace \<Rightarrow> 'w \<Rightarrow> (v1_namespace option \<times> err) \<times> 'w" where
  "CreateNamespace E nsSpec w =
     (let ((ns, e), w1) = namespacesCreate E nsSpec w
      in if e \<noteq> None
         then ((None, errWrapf E e (''unable to update namespace '' @ knName nsSpec)), w1)
         else ((Some ns, None), w1))"

fun DeleteNamespaces :: "('w, 'z) client_scheme \<Rightarrow> string list \<Rightarrow> 'w \<Rightarrow> err \<times> 'w" where
  "DeleteNamespaces E [] w = (None, w)"
| "DeleteNamespaces E (ns # nss) w =
     (let (e, w1) = namespacesDelete E ns w
      in if e \<noteq> None then (errWrapf E e (''unable to delete namespace '' @ ns), w1)
         else DeleteNamespaces E nss w1)"

text \<open>One copy of the node for every condition that reports it ready.\<close>

definition GetReadyNodes :: "('w, 'z) client_scheme \<Rightarrow> 'w \<Rightarrow> (v1_node list \<times> err) \<times> 'w" where
  "GetReadyNodes E w =
     (let ((items, e), w1) = nodesList E w
      in if e \<noteq> None then (([], errWrapf E e ''failed to list nodes''), w1)
         else ((concat (map (\<lambda>node. map (\<lambda>_. node)
                  (filter (\<lambda>(typ, status). typ = ''Ready'' \<and> status = ''True'') (kdConditions node)))
                items), None), w1))"

definition GetPod ::
  "('w, 'z) client_scheme \<Rightarrow> string \<Rightarrow> string \<Rightarrow> 'w \<Rightarrow> (v1_pod option \<times> err) \<times> 'w" where
  "GetPod E ns name w =
     (let ((kubePod, e), w1) = podsGet E ns name w
      in if e \<noteq> None
         then ((None, errWrapf E e (''unable to get pod '' @ ns @ ''/'' @ name)), w1)
         else ((Some kubePod, None), w1))"

section \<open>Starting pods\<close>

text \<open>\<open>ToK8SSpec\<close> of a pod in the store: it may fill in container names and labels there.\<close>

definition spec_of :: "('w, 'z) client_scheme \<Rightarrow> pod_ref \<Rightarrow> 'w kube \<Rightarrow> v1_pod \<times> 'w kube" where
  "spec_of E r k =
     (let ((spec, p), w) = p_ToK8SSpec E (k_pods k ! r) (k_world k)
      in (spec, k\<lparr>k_pods := (k_pods k)[r := p], k_world := w\<rparr>))"

definition update_pod :: "pod_ref \<Rightarrow> (pod \<Rightarrow> pod) \<Rightarrow> 'w kube \<Rightarrow> 'w kube" where
  "update_pod r f k = k\<lparr>k_pods := (k_pods k)[r := f (k_pods k ! r)]\<rparr>"

definition start_pod ::
  "('w, 'z) client_scheme \<Rightarrow> v1_node list \<Rightarrow> nat \<times> pod_ref \<Rightarrow> 'w kube \<Rightarrow> (err \<times> 'w kube) go" where
  "start_pod E nodes = (\<lambda>(i, r) k.
     if length nodes \<le> i then Inl IndexOutOfRange
     else (let k1 = update_pod r (SetNodeName (kdName (nodes ! i))) k;
               (spec, k2) = spec_of E r k1;
               ((_, e), w) = CreatePod E spec (k_world k2)
           in Inr (e, k2\<lparr>k_world := w\<rparr>)))"

definition StartPodsInNamespace ::
  "('w, 'z) client_scheme \<Rightarrow> v1_node list \<Rightarrow> namespace \<Rightarrow> 'w kube \<Rightarrow> (err \<times> 'w kube) go" where
  "StartPodsInNamespace E nodes ns k =
     (let ((_, e), w) = CreateNamespace E (ns_Spec ns) (k_world k);
          k1 = k\<lparr>k_world := w\<rparr>
      in if e \<noteq> None then Inr (e, k1)
         else err_loop (start_pod E nodes) (List.enumerate 0 (ns_Pods ns)) k1)"

text \<open>
  Waiting for a pod. The pod's addresses are read from the cluster only when it was seen pending
  fewer times than the limit; otherwise \<open>kubePod\<close> is still the specification just rendered.
\<close>

definition WaitAndSetIPs :: "('w, 'z) client_scheme \<Rightarrow> pod_ref \<Rightarrow> 'w kube \<Rightarrow> err \<times> 'w kube" where
  "WaitAndSetIPs E r k =
     (let (spec, k1) = spec_of E r k;
          p = k_pods k1 ! r;
          (e, (w2, pending2)) = WaitForPodRunningInNamespace E spec (k_world k1, k_PendingPods k1);
          k2 = k1\<lparr>k_world := w2, k_PendingPods := pending2\<rparr>
      in if e \<noteq> None
         then (errWrapf E e (''unable to wait for pod '' @ p_Namespace p @ ''/'' @ p_Name p), k2)
         else if pending_count pending2 (p_Name p) < PollTimesToDeterminePendingPod
         then (let ((got, e), w3) = GetPod E (p_Namespace p) (p_Name p) w2;
                   k3 = k2\<lparr>k_world := w3\<rparr>
               in case got of
                    None \<Rightarrow> (e, k3)
                  | Some kubePod \<Rightarrow>
                      (None, update_pod r (SetNodeName (psNodeName (kpSpec kubePod)) \<circ>
                                           SetHostIP (kpHostIP kubePod) \<circ> SetPodIP (kpPodIP kubePod)) k3))
         else (None, update_pod r (SetNodeName (psNodeName (kpSpec spec))) k2))"

definition start_namespace ::
  "('w, 'z) client_scheme \<Rightarrow> v1_node list \<Rightarrow> namespace \<Rightarrow> 'w kube \<Rightarrow> (err \<times> 'w kube) go" where
  "start_namespace E nodes ns k =
     (if length (ns_Pods ns) \<noteq> length nodes \<or> length nodes \<le> 1
      then Inr (Some (ErrText (''invalid number of '' @ Itoa (int (length nodes)) @ '' nodes'')), k)
      else StartPodsInNamespace E nodes ns k)"

definition StartPods ::
  "('w, 'z) client_scheme \<Rightarrow> v1_node list \<Rightarrow> model \<Rightarrow> 'w kube \<Rightarrow> (err \<times> model \<times> 'w kube) go" where
  "StartPods E nodes m k =
     go_bind (err_loop (start_namespace E nodes) (m_Namespaces m) k) (\<lambda>(e, k1).
       if e \<noteq> None then Inr (e, m, k1)
       else let (pods, m1) = AllPods m
            in go_bind (err_loop (\<lambda>r k. Inr (WaitAndSetIPs E r k)) pods k1)
                 (\<lambda>(e, k2). Inr (e, m1, k2)))"

definition InitializePod :: "('w, 'z) client_scheme \<Rightarrow> pod_ref \<Rightarrow> 'w kube \<Rightarrow> err \<times> 'w kube" where
  "InitializePod E r k =
     (let (spec, k1) = spec_of E r k;
          ((_, e), w) = CreatePod E spec (k_world k1);
          k2 = k1\<lparr>k_world := w\<rparr>
      in if e \<noteq> None then (e, k2) else WaitAndSetIPs E r k2)"

section \<open>Removing pending pods\<close>

text \<open>
  The body of the loop over the map of pending pods; a failure to remove the pod from the model is
  only logged.
\<close>

definition remove_pending ::
  "('w, 'z) client_scheme \<Rightarrow> string \<Rightarrow> string \<times> int \<Rightarrow> model \<times> 'w kube \<Rightarrow> (err \<times> model \<times> 'w kube) go" where
  "remove_pending E namespaceName = (\<lambda>(pendingPod, pollTimes) (m, k).
     if pollTimes > PollTimesToDeterminePendingPod then
       go_bind (RemovePod (k_pods k) pendingPod namespaceName m) (\<lambda>(_, m1).
         let (e, w) = DeletePod E pendingPod namespaceName (k_world k);
             k1 = k\<lparr>k_world := w\<rparr>
         in if e \<noteq> None then Inr (e, m1, k1)
            else Inr (None, m1, k1\<lparr>k_PendingPods := AList.delete pendingPod (k_PendingPods k1)\<rparr>))
     else Inr (None, m, k))"

definition RemovePendingPodsInNamespace ::
  "('w, 'z) client_scheme \<Rightarrow> string \<Rightarrow> model \<times> 'w kube \<Rightarrow> (err \<times> model \<times> 'w kube) go" where
  "RemovePendingPodsInNamespace E namespaceName = (\<lambda>(m, k).
     if 0 < length (k_PendingPods k) then
       (let (is, w) = goOrder E (length (k_PendingPods k)) (k_world k)
        in err_loop (remove_pending E namespaceName) (in_order is (k_PendingPods k)) (m, k\<lparr>k_world := w\<rparr>))
     else Inr (None, m, k))"

section \<open>Probes\<close>

definition ProbeConnectivityIPerf ::
  "('w, 'z) client_scheme \<Rightarrow> (string \<Rightarrow> float64 \<times> err) \<Rightarrow> string \<Rightarrow> string \<Rightarrow> string \<Rightarrow> string \<Rightarrow> protocol \<Rightarrow> int \<Rightarrow>
   'w \<Rightarrow> (bool \<times> bandwidth_ptr \<times> string \<times> err) go \<times> 'w" where
  "ProbeConnectivityIPerf E ParseFloat ns pod cont addr proto toPort w =
     (let iperf = NewIPerfClient ns pod cont addr toPort proto;
          commandDebugString = DebugString iperf;
          ((stdout, stderr, e), w1) = Execute E iperf w
      in if e \<noteq> None then (Inr (False, None, commandDebugString, None), w1)
         else (go_bind (FromCommaSeparatedString ParseFloat stdout) (\<lambda>(bandwidthResult, e).
                 if e \<noteq> None then Inr (False, None, commandDebugString, e)
                 else Inr (True, Some bandwidthResult, commandDebugString, None)), w1))"

definition ProbeConnectivity ::
  "('w, 'z) client_scheme \<Rightarrow> string \<Rightarrow> string \<Rightarrow> string \<Rightarrow> string \<Rightarrow> protocol \<Rightarrow> int \<Rightarrow>
   'w \<Rightarrow> (bool \<times> string \<times> err) \<times> 'w" where
  "ProbeConnectivity E ns pod cont addr proto toPort w =
     (let agnHost = NewAgnHostClient ns pod cont addr toPort proto;
          commandDebugString = DebugString agnHost;
          ((_, stderr, e), w1) = Execute E agnHost w
      in if e \<noteq> None then ((False, commandDebugString, None), w1)
         else ((True, commandDebugString, None), w1))"

text \<open>
  The retries of the netcat probe. The variables that the loop assigns are its own (\<open>:=\<close>), so the
  \<open>err\<close> and \<open>stdout\<close> used after the loop are the outer ones, still nil and empty.
\<close>

fun nc_retry :: "('w, 'z) client_scheme \<Rightarrow> commandImpl \<Rightarrow> nat \<Rightarrow> 'w \<Rightarrow> string option \<times> 'w" where
  "nc_retry E nc 0 w = (None, w)"
| "nc_retry E nc (Suc n) w =
     (let ((stdout, _, e), w1) = Execute E nc w
      in if e = None then (Some (TrimSpace stdout), w1) else nc_retry E nc n w1)"

definition ProbeConnectivityWithNc ::
  "('w, 'z) client_scheme \<Rightarrow> string \<Rightarrow> string \<Rightarrow> string \<Rightarrow> string \<Rightarrow> protocol \<Rightarrow> int \<Rightarrow>
   'w \<Rightarrow> (bool \<times> string \<times> string \<times> err) \<times> 'w" where
  "ProbeConnectivityWithNc E ns pod cont addr proto toPort w =
     (let nc = NewNcClient ns pod cont addr toPort proto;
          commandDebugString = DebugString nc;
          maxRetries = 3;
          outer_err = None;
          (r, w1) = nc_retry E nc maxRetries w
      in case r of
           Some ep \<Rightarrow> ((True, ep, commandDebugString, None), w1)
         | None \<Rightarrow> ((False, '''', commandDebugString,
             errWrapf E outer_err (ns @ ''/'' @ pod @ '' -> '' @ addr @
               '': error when running command: err - <nil> /// stdout - '')), w1))"

definition executeRemoteCommand ::
  "('w, 'z) client_scheme \<Rightarrow> string \<Rightarrow> string \<Rightarrow> string \<Rightarrow> string list \<Rightarrow> 'w \<Rightarrow> (string \<times> string \<times> err) \<times> 'w" where
  "executeRemoteCommand E namespace pod containerName command =
     ExecWithOptions E \<lparr>eoCommand = command, eoNamespace = namespace, eoPodName = pod,
       eoContainerName = containerName, eoStdin = False, eoCaptureStdout = True,
       eoCaptureStderr = True, eoPreserveWhitespace = False, eoQuiet = False\<rparr>"

section \<open>Services from a template\<close>

definition template_port :: "protocol_port_pair \<Rightarrow> v1_service_port" where
  "template_port sp =
     \<lparr>spName = ''service-port-'' @ ToLower (ppp_Protocol sp) @ ''-'' @ Itoa (sint (ppp_Port sp)),
      spProtocol = ppp_Protocol sp, spPort = ppp_Port sp, spNodePort = 0\<rparr>"

definition template_service :: "service_template \<Rightarrow> int \<Rightarrow> v1_service" where
  "template_service t ID =
     (let s = zero_service\<lparr>ksName := t_Name t @ ''-'' @ Itoa ID, ksNamespace := t_Namespace t,
                           ksSelector := t_Selector t, ksPorts := map template_port (t_ProtocolPorts t)\<rparr>
      in if t_SessionAffinity t then s\<lparr>ksSessionAffinity := ''ClientIP''\<rparr> else s)"

text \<open>The call may never return (\<open>None\<close>), as the watch for the cluster IP may not.\<close>

definition CreateServiceFromTemplate ::
  "('w, 'z) client_scheme \<Rightarrow> service_template \<Rightarrow> svc_id \<Rightarrow> 'w \<Rightarrow>
   ((string \<times> service option \<times> string \<times> err) go \<times> svc_id \<times> 'w) option" where
  "CreateServiceFromTemplate E t sid w =
     (let sid1 = IncreaseServiceID sid in
      case SvcID_ID sid1 of
        Inl p \<Rightarrow> Some (Inl p, sid1, w)
      | Inr ID \<Rightarrow>
          (let s = template_service t ID;
               svc = Kube_NewService s;
               ((_, e), w1) = s_Create E svc w
           in if e \<noteq> None
              then Some (Inr ('''', None, '''', errWrapf E e ''failed to create service''), sid1, w1)
              else (case WaitForClusterIP E svc w1 of
                      None \<Rightarrow> None
                    | Some (Inl p, w2) \<Rightarrow> Some (Inl p, sid1, w2)
                    | Some (Inr (clusterIP, e), w2) \<Rightarrow>
                        if e \<noteq> None \<or> clusterIP = ''''
                        then Some (Inr ('''', None, '''', errWrapf E e ''no cluster IP available''), sid1, w2)
                        else Some (Inr (ksName s, Some svc, clusterIP, None), sid1, w2))))"

section \<open>Starting pods: what is set\<close>

lemma nth_update_keeps: "f y = f (xs ! i) \<Longrightarrow> f (xs[i := y] ! j) = f (xs ! j)"
  by (cases "i < length xs") (auto simp: nth_list_update list_update_beyond)

lemma spec_of_keeps:
  assumes "spec_of E r k = (spec, k1)"
  shows "k_PendingPods k1 = k_PendingPods k" and "length (k_pods k1) = length (k_pods k)"
    and "p_Name (k_pods k1 ! x) = p_Name (k_pods k ! x)"
    and "p_Namespace (k_pods k1 ! x) = p_Namespace (k_pods k ! x)"
    and "p_NodeName (k_pods k1 ! x) = p_NodeName (k_pods k ! x)"
    and "p_PodIP (k_pods k1 ! x) = p_PodIP (k_pods k ! x)"
    and "kpName spec = p_Name (k_pods k ! r)" and "kpNamespace spec = p_Namespace (k_pods k ! r)"
    and "kpPhase spec = ''''" and "psNodeName (kpSpec spec) = ''''"
proof -
  obtain p w where s: "p_ToK8SSpec E (k_pods k ! r) (k_world k) = ((spec, p), w)"
    and k1: "k1 = k\<lparr>k_pods := (k_pods k)[r := p], k_world := w\<rparr>"
    using assms by (auto simp: spec_of_def split: prod.splits)
  have p: "p_Name p = p_Name (k_pods k ! r)" "p_Namespace p = p_Namespace (k_pods k ! r)"
      "p_NodeName p = p_NodeName (k_pods k ! r)" "p_PodIP p = p_PodIP (k_pods k ! r)"
    by (subst p_ToK8SSpec_pod(1) [OF s], simp)+
  show "k_PendingPods k1 = k_PendingPods k" and "length (k_pods k1) = length (k_pods k)"
    by (simp_all add: k1)
  show "p_Name (k_pods k1 ! x) = p_Name (k_pods k ! x)"
    and "p_Namespace (k_pods k1 ! x) = p_Namespace (k_pods k ! x)"
    and "p_NodeName (k_pods k1 ! x) = p_NodeName (k_pods k ! x)"
    and "p_PodIP (k_pods k1 ! x) = p_PodIP (k_pods k ! x)"
    by (simp_all add: k1 p nth_update_keeps)
  show "kpName spec = p_Name (k_pods k ! r)" and "kpNamespace spec = p_Namespace (k_pods k ! r)"
    and "kpPhase spec = ''''" and "psNodeName (kpSpec spec) = ''''"
    using p_ToK8SSpec_pod(6-9) [OF s] by simp_all
qed

lemma start_pod_nodes:
  assumes "start_pod E nodes (i, r) k = Inr (e, k')"
  shows "length (k_pods k') = length (k_pods k)"
    and "r < length (k_pods k) \<Longrightarrow> p_NodeName (k_pods k' ! r) = kdName (nodes ! i)"
    and "x \<noteq> r \<Longrightarrow> p_NodeName (k_pods k' ! x) = p_NodeName (k_pods k ! x)"
proof -
  obtain spec k2 where s: "spec_of E r (update_pod r (SetNodeName (kdName (nodes ! i))) k) = (spec, k2)"
    by (metis surj_pair)
  have "k_pods k' = k_pods k2" using assms by (auto simp: start_pod_def Let_def s split: if_splits prod.splits)
  then show "length (k_pods k') = length (k_pods k)"
    and "r < length (k_pods k) \<Longrightarrow> p_NodeName (k_pods k' ! r) = kdName (nodes ! i)"
    and "x \<noteq> r \<Longrightarrow> p_NodeName (k_pods k' ! x) = p_NodeName (k_pods k ! x)"
    by (simp_all add: spec_of_keeps(2,5) [OF s] update_pod_def SetNodeName_def)
qed

text \<open>With enough nodes no pod's start panics.\<close>

lemma StartPodsInNamespace_total:
  assumes "length (ns_Pods ns) \<le> length nodes"
  shows "\<exists>y. StartPodsInNamespace E nodes ns k = Inr y"
proof -
  have "\<exists>y. err_loop (start_pod E nodes) (List.enumerate 0 (ns_Pods ns)) k1 = Inr y" for k1
  proof (rule err_loop_total)
    fix x s assume "x \<in> set (List.enumerate 0 (ns_Pods ns))"
    then have "fst x < length (ns_Pods ns)" by (auto simp: in_set_enumerate_eq)
    with assms show "\<exists>y. start_pod E nodes x s = Inr y"
      by (auto simp: start_pod_def Let_def split: prod.splits)
  qed
  then show ?thesis by (simp add: StartPodsInNamespace_def Let_def split: prod.split)
qed

text \<open>A start without error leaves pod \<open>i\<close> of the namespace assigned to node \<open>i\<close>.\<close>

lemma StartPodsInNamespace_nodes:
  assumes run: "StartPodsInNamespace E nodes ns k = Inr (None, k')"
    and alloc: "ns_allocated (k_pods k) ns" and dist: "distinct (ns_Pods ns)"
    and i: "i < length (ns_Pods ns)"
  shows "p_NodeName (k_pods k' ! (ns_Pods ns ! i)) = kdName (nodes ! i)"
proof -
  let ?xs = "List.enumerate 0 (ns_Pods ns)" and ?n = "length (k_pods k)"
  let ?P = "\<lambda>(i, r) (s :: 'a kube). length (k_pods s) = ?n \<longrightarrow> p_NodeName (k_pods s ! r) = kdName (nodes ! i)"
  obtain w where loop: "err_loop (start_pod E nodes) ?xs (k\<lparr>k_world := w\<rparr>) = Inr (None, k')"
    using run by (auto simp: StartPodsInNamespace_def Let_def split: prod.splits if_splits)
  then have "length (k_pods k') = ?n"
    using err_loop_invariant [OF loop, of "\<lambda>s. length (k_pods s) = ?n"] start_pod_nodes(1) by fastforce
  moreover have "?P (i, ns_Pods ns ! i) k'"
  proof (rule err_loop_each [OF loop])
    show "(i, ns_Pods ns ! i) \<in> set ?xs" using i by (simp add: in_set_enumerate_eq)
  next
    fix x and s s' :: "'a kube"
    assume "x \<in> set ?xs" "start_pod E nodes x s = Inr (None, s')"
    moreover obtain j r where "x = (j, r)" by (cases x)
    ultimately show "?P x s'"
      using start_pod_nodes(1,2) [of E nodes j r s None s'] alloc
      by (auto simp: in_set_enumerate_eq ns_allocated_def)
  next
    fix x y and s s' :: "'a kube"
    assume x: "x \<in> set ?xs" and y: "y \<in> set ?xs" and P: "?P y s" and step: "start_pod E nodes x s = Inr (None, s')"
    obtain j r where xx: "x = (j, r)" by (cases x)
    obtain j' r' where yy: "y = (j', r')" by (cases y)
    show "?P y s'"
    proof (cases "r' = r")
      case True
      with x y dist have "j' = j"
        by (auto simp: xx yy in_set_enumerate_eq nth_eq_iff_index_eq)
      with True show ?thesis
        using start_pod_nodes(1,2) [of E nodes j r s None s'] step x alloc
        by (auto simp: xx yy in_set_enumerate_eq ns_allocated_def)
    next
      case False
      with P show ?thesis
        using start_pod_nodes(1,3) [of E nodes j r s None s'] step by (auto simp: xx yy)
    qed
  qed
  ultimately show ?thesis by simp
qed

section \<open>Waiting: what is set\<close>

lemma WaitAndSetIPs_parts:
  assumes "spec_of E r k = (spec, k1)"
    and "WaitForPodRunningInNamespace E spec (k_world k1, k_PendingPods k1) = (None, (w2, pending2))"
  shows "WaitAndSetIPs E r k =
    (let name = p_Name (k_pods k ! r); ns = p_Namespace (k_pods k ! r);
         k2 = k1\<lparr>k_world := w2, k_PendingPods := pending2\<rparr>
     in if pending_count pending2 name < PollTimesToDeterminePendingPod
        then (let ((got, e), w3) = GetPod E ns name w2; k3 = k2\<lparr>k_world := w3\<rparr>
              in case got of
                   None \<Rightarrow> (e, k3)
                 | Some kubePod \<Rightarrow>
                     (None, update_pod r (SetNodeName (psNodeName (kpSpec kubePod)) \<circ>
                                           SetHostIP (kpHostIP kubePod) \<circ> SetPodIP (kpPodIP kubePod)) k3))
        else (None, update_pod r (SetNodeName '''') k2))"
  using assms(2)
  by (simp add: WaitAndSetIPs_def assms(1) Let_def spec_of_keeps(3,4,10) [OF assms(1)])

lemma WaitAndSetIPs_no_error:
  assumes "wrapf_law E" and "WaitAndSetIPs E r k = (None, k')" and "spec_of E r k = (spec, k1)"
  shows "\<exists>w2 pending2. WaitForPodRunningInNamespace E spec (k_world k1, k_PendingPods k1) =
           (None, (w2, pending2))"
proof -
  obtain e w2 pending2 where w:
    "WaitForPodRunningInNamespace E spec (k_world k1, k_PendingPods k1) = (e, (w2, pending2))"
    by (metis surj_pair)
  with assms(2) have "e = None"
    by (cases e) (auto simp: WaitAndSetIPs_def assms(3) Let_def wrapf_iff [OF assms(1)])
  with w show ?thesis by blast
qed

text \<open>Seen running soon enough: the addresses and the node are those the cluster reported.\<close>

lemma WaitAndSetIPs_running:
  assumes "wrapf_law E" and "WaitAndSetIPs E r k = (None, k')" and "r < length (k_pods k)"
    and "pending_count (k_PendingPods k') (p_Name (k_pods k ! r)) < PollTimesToDeterminePendingPod"
  shows "\<exists>kubePod w w'. podsGet E (p_Namespace (k_pods k ! r)) (p_Name (k_pods k ! r)) w = ((kubePod, None), w') \<and>
           p_PodIP (k_pods k' ! r) = kpPodIP kubePod \<and> p_HostIP (k_pods k' ! r) = kpHostIP kubePod \<and>
           p_NodeName (k_pods k' ! r) = psNodeName (kpSpec kubePod)"
proof -
  obtain spec k1 where s: "spec_of E r k = (spec, k1)" by (metis surj_pair)
  obtain w2 pending2 where w:
    "WaitForPodRunningInNamespace E spec (k_world k1, k_PendingPods k1) = (None, (w2, pending2))"
    using WaitAndSetIPs_no_error [OF assms(1,2) s] by blast
  obtain got e w3 where g: "podsGet E (p_Namespace (k_pods k ! r)) (p_Name (k_pods k ! r)) w2 = ((got, e), w3)"
    by (metis surj_pair)
  note run = assms(2) [unfolded WaitAndSetIPs_parts [OF s w]]
  have "k_PendingPods k' = pending2"
    using run by (auto simp: Let_def GetPod_def g update_pod_def split: if_splits)
  with assms(4) run have e: "e = None"
    by (cases e) (auto simp: Let_def GetPod_def g wrapf_iff [OF assms(1)])
  have "k' = update_pod r (SetNodeName (psNodeName (kpSpec got)) \<circ> SetHostIP (kpHostIP got) \<circ>
                           SetPodIP (kpPodIP got)) (k1\<lparr>k_PendingPods := pending2, k_world := w3\<rparr>)"
    using assms(4) \<open>k_PendingPods k' = pending2\<close> run e by (auto simp: Let_def GetPod_def g)
  moreover have "r < length (k_pods k1)" using assms(3) spec_of_keeps(2) [OF s] by simp
  ultimately have "p_PodIP (k_pods k' ! r) = kpPodIP got \<and> p_HostIP (k_pods k' ! r) = kpHostIP got \<and>
      p_NodeName (k_pods k' ! r) = psNodeName (kpSpec got)"
    by (simp add: update_pod_def pod_accessors)
  with g e show ?thesis by blast
qed

text \<open>
  Seen pending twice or more: nothing is read from the cluster, the address stays as it was, and
  the node name becomes empty, whatever the node the pod was assigned to.
\<close>

lemma WaitAndSetIPs_pending:
  assumes "wrapf_law E" and "WaitAndSetIPs E r k = (None, k')" and "r < length (k_pods k)"
    and "PollTimesToDeterminePendingPod \<le> pending_count (k_PendingPods k') (p_Name (k_pods k ! r))"
  shows "p_NodeName (k_pods k' ! r) = ''''" and "p_PodIP (k_pods k' ! r) = p_PodIP (k_pods k ! r)"
proof -
  obtain spec k1 where s: "spec_of E r k = (spec, k1)" by (metis surj_pair)
  obtain w2 pending2 where w:
    "WaitForPodRunningInNamespace E spec (k_world k1, k_PendingPods k1) = (None, (w2, pending2))"
    using WaitAndSetIPs_no_error [OF assms(1,2) s] by blast
  note run = assms(2) [unfolded WaitAndSetIPs_parts [OF s w]]
  have "k_PendingPods k' = pending2"
    using run by (auto simp: Let_def update_pod_def split: if_splits prod.splits option.splits)
  with assms(4) run have k': "k' = update_pod r (SetNodeName '''') (k1\<lparr>k_world := w2, k_PendingPods := pending2\<rparr>)"
    by (auto simp: Let_def)
  have "r < length (k_pods k1)" using assms(3) spec_of_keeps(2) [OF s] by simp
  then show "p_NodeName (k_pods k' ! r) = ''''" and "p_PodIP (k_pods k' ! r) = p_PodIP (k_pods k ! r)"
    by (simp_all add: k' update_pod_def SetNodeName_def spec_of_keeps(6) [OF s])
qed

section \<open>Pending pods: which are removed\<close>

definition stale :: "string \<times> int \<Rightarrow> bool" where
  "stale = (\<lambda>(name, n). PollTimesToDeterminePendingPod < n)"

lemma map_of_delete: "map_of (AList.delete k m) = (map_of m)(k := None)"
  by (simp add: delete_conv')

lemma remove_pending_map:
  assumes "err_loop (remove_pending E ns) xs (m, k) = Inr (None, (m', k'))"
  shows "map_of (k_PendingPods k') key =
           (if \<exists>n. (key, n) \<in> set xs \<and> stale (key, n) then None else map_of (k_PendingPods k) key)"
  using assms
proof (induction xs arbitrary: m k)
  case Nil
  then show ?case by simp
next
  case (Cons x xs)
  obtain name n where x: "x = (name, n)" by (cases x)
  from Cons.prems obtain m1 k1 where step: "remove_pending E ns x (m, k) = Inr (None, (m1, k1))"
    and rest: "err_loop (remove_pending E ns) xs (m1, k1) = Inr (None, (m', k'))"
    by (auto simp: go_bind_eq_Inr_iff split: if_splits)
  have "map_of (k_PendingPods k1) = (if stale x then (map_of (k_PendingPods k))(name := None) else map_of (k_PendingPods k))"
  proof (cases "stale x")
    case False
    with step show ?thesis by (simp add: x remove_pending_def stale_def)
  next
    case True
    obtain e w where d: "DeletePod E name ns (k_world k) = (e, w)" by fastforce
    with True step obtain k2 where "k1 = k2\<lparr>k_PendingPods := AList.delete name (k_PendingPods k2)\<rparr>"
      and "k2 = k\<lparr>k_world := w\<rparr>"
      by (cases e) (auto simp: x remove_pending_def stale_def go_bind_eq_Inr_iff)
    with True show ?thesis by (simp add: map_of_delete)
  qed
  then show ?case unfolding Cons.IH [OF rest] by (auto simp: x)
qed

text \<open>
  A removal that ends without error leaves exactly the pods that were seen pending no more often
  than the limit, whatever the order in which the map was ranged over.
\<close>

lemma RemovePending_map:
  assumes "order_law E" and "gomap_wf (k_PendingPods k)"
    and "RemovePendingPodsInNamespace E ns (m, k) = Inr (None, (m', k'))"
  shows "map_of (k_PendingPods k') name =
           (case map_of (k_PendingPods k) name of
              None \<Rightarrow> None
            | Some n \<Rightarrow> if PollTimesToDeterminePendingPod < n then None else Some n)"
proof (cases "k_PendingPods k")
  case Nil
  with assms(3) show ?thesis by (auto simp: RemovePendingPodsInNamespace_def)
next
  case (Cons x xs)
  let ?pend = "k_PendingPods k"
  obtain is' w where o: "goOrder E (length ?pend) (k_world k) = (is', w)" by fastforce
  have "set (in_order is' ?pend) = set ?pend"
    by (rule mset_eq_setD) (rule mset_goOrder [OF assms(1) o])
  moreover have "err_loop (remove_pending E ns) (in_order is' ?pend) (m, k\<lparr>k_world := w\<rparr>) = Inr (None, (m', k'))"
    using assms(3) Cons o by (simp add: RemovePendingPodsInNamespace_def)
  ultimately have "map_of (k_PendingPods k') name =
      (if \<exists>n. (name, n) \<in> set ?pend \<and> stale (name, n) then None else map_of ?pend name)"
    using remove_pending_map by fastforce
  then show ?thesis
    unfolding gomap_lookup_iff [OF assms(2), symmetric] by (auto simp: stale_def split: option.split)
qed

section \<open>Probes: when they report a connection\<close>

text \<open>Only parsing the output of iperf can make a probe return an error.\<close>

lemma ProbeConnectivity_no_error: "snd (snd (fst (ProbeConnectivity E ns pod cont addr proto toPort w))) = None"
  by (simp add: ProbeConnectivity_def Let_def split: prod.split)

text \<open>The first \<open>n\<close> executions of a command, one after the other.\<close>

fun attempts :: "('w, 'z) client_scheme \<Rightarrow> commandImpl \<Rightarrow> nat \<Rightarrow> 'w \<Rightarrow> (string \<times> err) list" where
  "attempts E c 0 w = []"
| "attempts E c (Suc n) w = (let ((stdout, _, e), w1) = Execute E c w in (stdout, e) # attempts E c n w1)"

lemma nc_retry_attempts:
  "fst (nc_retry E nc n w) =
     map_option (\<lambda>(stdout, e). TrimSpace stdout) (find (\<lambda>(stdout, e). e = None) (attempts E nc n w))"
  by (induction n arbitrary: w) (auto simp: Let_def split: prod.split)

lemma ProbeConnectivityWithNc_result:
  assumes "wrapf_law E"
  shows "\<exists>w'. ProbeConnectivityWithNc E ns pod cont addr proto toPort w =
    ((case find (\<lambda>(stdout, e). e = None) (attempts E (NewNcClient ns pod cont addr toPort proto) 3 w) of
        Some (stdout, e) \<Rightarrow> (True, TrimSpace stdout, DebugString (NewNcClient ns pod cont addr toPort proto), None)
      | None \<Rightarrow> (False, '''', DebugString (NewNcClient ns pod cont addr toPort proto), None)), w')"
proof -
  let ?nc = "NewNcClient ns pod cont addr toPort proto"
  obtain r w1 where r: "nc_retry E ?nc 3 w = (r, w1)" by fastforce
  then have "r = map_option (\<lambda>(stdout, e). TrimSpace stdout) (find (\<lambda>(stdout, e). e = None) (attempts E ?nc 3 w))"
    using nc_retry_attempts [of E ?nc 3 w] by simp
  then show ?thesis
    by (auto simp: ProbeConnectivityWithNc_def Let_def r wrapf_None [OF assms] split: option.split)
qed

section \<open>Services from a template: what is returned\<close>

text \<open>
  When the watch ends without an address, the call reports neither a service nor an error: the
  error it wraps is nil.
\<close>

lemma CreateServiceFromTemplate_no_address:
  assumes "wrapf_law E"
    and "s_Create E (Kube_NewService (template_service t (svc_count sid + 1))) w = ((r, None), w1)"
    and "WaitForClusterIP E (Kube_NewService (template_service t (svc_count sid + 1))) w1 = Some (Inr ('''', None), w2)"
  shows "CreateServiceFromTemplate E t sid w = Some (Inr ('''', None, '''', None), IncreaseServiceID sid, w2)"
  using assms(2,3)
  by (simp add: CreateServiceFromTemplate_def Let_def SvcID_after_increase wrapf_None [OF assms(1)])

lemma CreateServiceFromTemplate_ok:
  assumes "s_Create E (Kube_NewService (template_service t (svc_count sid + 1))) w = ((r, None), w1)"
    and "WaitForClusterIP E (Kube_NewService (template_service t (svc_count sid + 1))) w1 = Some (Inr (ip, None), w2)"
    and "ip \<noteq> ''''"
  shows "CreateServiceFromTemplate E t sid w =
           Some (Inr (t_Name t @ ''-'' @ Itoa (svc_count sid + 1),
                      Some (Kube_NewService (template_service t (svc_count sid + 1))), ip, None),
                 IncreaseServiceID sid, w2)"
  using assms
  by (simp add: CreateServiceFromTemplate_def Let_def SvcID_after_increase template_service_def)

section \<open>Ready nodes\<close>

definition node_ready :: "v1_node \<Rightarrow> bool" where
  "node_ready node \<longleftrightarrow> (''Ready'', ''True'') \<in> set (kdConditions node)"

lemma GetReadyNodes_set:
  assumes "nodesList E w = ((items, None), w1)"
  shows "\<exists>nodes. GetReadyNodes E w = ((nodes, None), w1) \<and> set nodes = {n \<in> set items. node_ready n}"
  using assms by (auto simp: GetReadyNodes_def node_ready_def)

text \<open>Nodes whose conditions have distinct types are listed once each, in the cluster's order.\<close>

lemma GetReadyNodes_filter:
  assumes "nodesList E w = ((items, None), w1)"
    and "\<forall>n \<in> set items. distinct (map fst (kdConditions n))"
  shows "GetReadyNodes E w = ((filter node_ready items, None), w1)"
proof -
  let ?ready = "\<lambda>(typ, status). typ = ''Ready'' \<and> status = ''True''"
  have "map (\<lambda>_. node) (filter ?ready conds) = (if (''Ready'', ''True'') \<in> set conds then [node] else [])"
    if "distinct (map fst conds)" for node :: v1_node and conds
    using that by (induction conds) (force simp: filter_empty_conv)+
  then have "concat (map (\<lambda>node. map (\<lambda>_. node) (filter ?ready (kdConditions node))) items) =
      concat (map (\<lambda>node. if node_ready node then [node] else []) items)"
    using assms(2) by (intro arg_cong [of _ _ concat] map_cong refl) (simp add: node_ready_def)
  also have "\<dots> = filter node_ready items" by (induction items) simp_all
  finally show ?thesis by (simp add: GetReadyNodes_def assms(1))
qed

section \<open>Properties\<close>

definition demo_board :: "pending_pods \<Rightarrow> nat \<Rightarrow> nat kube" where
  "demo_board pending w = \<lparr>k_pods = demo_store, k_PendingPods = pending, k_world = w\<rparr>"

definition demo_node :: "string \<Rightarrow> v1_node" where
  "demo_node name = \<lparr>kdName = name, kdConditions = [(''DiskPressure'', ''False''), (''Ready'', ''True'')]\<rparr>"

lemma demo_board_sel:
  "k_pods (demo_board pending w) = demo_store" "k_PendingPods (demo_board pending w) = pending"
  "k_world (demo_board pending w) = w" "length demo_store = 2"
  by (simp_all add: demo_board_def demo_store_def)

text \<open>
  Starting a namespace's pods with at least as many nodes as pods never panics, and when it
  ends without an error, pod \<open>i\<close> of the namespace is assigned to node \<open>i\<close>.
\<close>

lemma start_assigns_nodes:
  assumes "length (ns_Pods ns) \<le> length nodes" and "ns_allocated (k_pods k) ns"
    and "distinct (ns_Pods ns)"
  shows "\<exists>e k'. StartPodsInNamespace E nodes ns k = Inr (e, k') \<and>
           (e \<noteq> None \<or> map (\<lambda>r. p_NodeName (k_pods k' ! r)) (ns_Pods ns) =
                           map kdName (take (length (ns_Pods ns)) nodes))"
proof -
  obtain e k' where run: "StartPodsInNamespace E nodes ns k = Inr (e, k')"
    using StartPodsInNamespace_total [OF assms(1)] by (metis surj_pair)
  have "map (\<lambda>r. p_NodeName (k_pods k' ! r)) (ns_Pods ns) = map kdName (take (length (ns_Pods ns)) nodes)"
    if "e = None"
    using StartPodsInNamespace_nodes [OF run [unfolded that] assms(2,3)] assms(1)
    by (intro nth_equalityI) simp_all
  with run show ?thesis by blast
qed

lemma demo_starts:
  "start_pod demo_client nodes x k = Inr (e, k') \<Longrightarrow> e = None"
  by (cases x) (auto simp: start_pod_def CreatePod_def demo_client_def Let_def split: if_splits prod.splits)

lemma err_loop_no_error:
  assumes "\<And>x s e s'. f x s = Inr (e, s') \<Longrightarrow> e = None" and "err_loop f xs s = Inr (e, s')"
  shows "e = None"
  using assms(2)
proof (induction xs arbitrary: s)
  case (Cons x xs)
  then obtain e1 s1 where "f x s = Inr (e1, s1)" by (auto simp: go_bind_eq_Inr_iff)
  with assms(1) [OF this] Cons show ?case by simp
qed simp

lemma demo_creates: "CreateNamespace demo_client ns w = ((Some ns, None), w)"
  by (simp add: CreateNamespace_def demo_client_def)

text \<open>
  When waiting for a pod ends without an error and the pod was seen pending fewer times than
  the limit, its addresses and its node are those the cluster reported for the pod of that
  namespace and name.
\<close>

lemma wait_sets_addresses:
  assumes "wrapf_law E" and "WaitAndSetIPs E r k = (None, k')" and "r < length (k_pods k)"
    and "pending_count (k_PendingPods k') (p_Name (k_pods k ! r)) < PollTimesToDeterminePendingPod"
  shows "\<exists>kubePod w w'. podsGet E (p_Namespace (k_pods k ! r)) (p_Name (k_pods k ! r)) w = ((kubePod, None), w') \<and>
           p_PodIP (k_pods k' ! r) = kpPodIP kubePod \<and> p_HostIP (k_pods k' ! r) = kpHostIP kubePod \<and>
           p_NodeName (k_pods k' ! r) = psNodeName (kpSpec kubePod)"
  by (rule WaitAndSetIPs_running [OF assms])

lemma demo_spec_of:
  "\<exists>spec pods. spec_of demo_client 0 (demo_board pending w) =
     (spec, \<lparr>k_pods = pods, k_PendingPods = pending, k_world = w\<rparr>) \<and>
     kpName spec = ''a'' \<and> kpNamespace spec = ''x'' \<and> kpPhase spec = '''' \<and> psNodeName (kpSpec spec) = '''' \<and>
     p_Name (pods ! 0) = ''a'' \<and> p_Namespace (pods ! 0) = ''x''"
proof -
  obtain spec k1 where s: "spec_of demo_client 0 (demo_board pending w) = (spec, k1)" by (metis surj_pair)
  have "c_Name (hd (p_Containers (demo_store ! 0))) \<noteq> ''''" "tl (p_Containers (demo_store ! 0)) = []"
    "p_Containers (demo_store ! 0) \<noteq> []" "c_Port (hd (p_Containers (demo_store ! 0))) = 80"
    "p_InitContainers (demo_store ! 0) = None"
    by (simp_all add: demo_store_def demo_board_pod_def new_pod_def)
  then have "k_world k1 = w"
    using s by (cases "p_Containers (demo_store ! 0)")
      (auto simp: spec_of_def p_ToK8SSpec_def c_ToK8SSpec_def GetName_named PortName_def Let_def demo_board_sel
        split: prod.splits)
  then show ?thesis
    using s spec_of_keeps [OF s] by (cases k1) (auto simp: demo_board_sel demo_pods)
qed

lemma demo_wait:
  assumes "spec_of demo_client 0 (demo_board pending w) = (spec, k1)" and "w \<le> 2"
    and "pending_count pending ''a'' = 0"
  shows "\<exists>pods. k1 = \<lparr>k_pods = pods, k_PendingPods = pending, k_world = w\<rparr> \<and>
    WaitForPodRunningInNamespace demo_client spec (k_world k1, k_PendingPods k1) =
      (None, 3, if w = 0 then AList.update ''a'' 2 (AList.update ''a'' 1 pending)
                else if w = 1 then AList.update ''a'' 1 pending else pending)"
proof -
  obtain pods where k1: "k1 = \<lparr>k_pods = pods, k_PendingPods = pending, k_world = w\<rparr>"
    and n: "kpName spec = ''a''" "kpNamespace spec = ''x''" "kpPhase spec = ''''"
    using demo_spec_of [of pending w] assms(1) by auto
  consider "w = 0" | "w = 1" | "w = 2" using assms(2) by linarith
  then show ?thesis
    by cases (simp_all add: k1 n WaitForPodRunningInNamespace_def demo_client_def podRunning_def demo_pod_def
        PollTimesToDeterminePendingPod_def assms(3) eval_nat_numeral)
qed

text \<open>The demo pod's wait from each start of the world's counter.\<close>

lemma demo_WaitAndSetIPs:
  assumes "w \<le> 2"
  shows "\<exists>k'. WaitAndSetIPs demo_client 0 (demo_board [] w) = (None, k') \<and>
           pending_count (k_PendingPods k') ''a'' = 2 - int w"
proof -
  obtain spec k1 where s: "spec_of demo_client 0 (demo_board [] w) = (spec, k1)" by (metis surj_pair)
  obtain pods where k1: "k1 = \<lparr>k_pods = pods, k_PendingPods = [], k_world = w\<rparr>"
    and run: "WaitForPodRunningInNamespace demo_client spec (k_world k1, k_PendingPods k1) =
      (None, 3, if w = 0 then AList.update ''a'' 2 (AList.update ''a'' 1 [])
                else if w = 1 then AList.update ''a'' 1 [] else [])"
    using demo_wait [OF s assms] by auto
  have gp: "\<exists>p w'. GetPod demo_client ns n v = ((Some p, None), w')" for ns n v
    by (simp add: GetPod_def demo_client_def)
  obtain p w' where g: "GetPod demo_client (p_Namespace (demo_store ! 0)) (p_Name (demo_store ! 0)) 3 = ((Some p, None), w')"
    using gp by blast
  note eq = WaitAndSetIPs_parts [OF s run, unfolded demo_board_sel demo_pods Let_def]
  consider "w = 0" | "w = 1" | "w = 2" using assms by linarith
  then show ?thesis
    unfolding eq using g
    by cases (simp_all add: demo_pods update_pod_def PollTimesToDeterminePendingPod_def pending_count_def)
qed

text \<open>
  C24. When waiting for a pod ends without an error and the pod was seen pending at least as often
  as the limit, nothing is read from the cluster: the pod keeps the address it had, and its node
  becomes the empty name. A pod seen pending exactly as often as the limit is not removed either.
\<close>

theorem wait_pending_loses_node:
  assumes "wrapf_law E" and "WaitAndSetIPs E r k = (None, k')" and "r < length (k_pods k)"
    and "PollTimesToDeterminePendingPod \<le> pending_count (k_PendingPods k') (p_Name (k_pods k ! r))"
  shows "p_NodeName (k_pods k' ! r) = '''' \<and> p_PodIP (k_pods k' ! r) = p_PodIP (k_pods k ! r) \<and>
         (pending_count (k_PendingPods k') (p_Name (k_pods k ! r)) = PollTimesToDeterminePendingPod \<longrightarrow>
          remove_pending E ns (p_Name (k_pods k ! r), pending_count (k_PendingPods k') (p_Name (k_pods k ! r))) (m, k') =
            Inr (None, m, k'))"
  using WaitAndSetIPs_pending [OF assms] by (simp add: remove_pending_def)

theorem wait_pending_loses_node_witness:
  "\<exists>k'. WaitAndSetIPs demo_client 0 (demo_board [] 0) = (None, k') \<and>
     pending_count (k_PendingPods k') ''a'' = 2 \<and> p_NodeName (k_pods k' ! 0) = ''''"
proof -
  obtain k' where k': "WaitAndSetIPs demo_client 0 (demo_board [] 0) = (None, k')"
    and n: "pending_count (k_PendingPods k') ''a'' = 2"
    using demo_WaitAndSetIPs [of 0] by auto
  then have "PollTimesToDeterminePendingPod \<le> pending_count (k_PendingPods k') (p_Name (k_pods (demo_board [] 0) ! 0))"
    by (simp add: demo_board_sel demo_pods PollTimesToDeterminePendingPod_def)
  from wait_pending_loses_node [OF demo_wrapf_law k' _ this] k' n show ?thesis
    by (auto simp: demo_board_sel)
qed

text \<open>
  C25. Whatever the order in which the map of pending pods is ranged over, a removal that ends
  without error leaves in it exactly the pods seen pending no more often than the limit, with
  their counts.
\<close>

theorem remove_pending_exact:
  assumes "order_law E" and "gomap_wf (k_PendingPods k)"
    and "RemovePendingPodsInNamespace E ns (m, k) = Inr (None, (m', k'))"
  shows "map_of (k_PendingPods k') name =
           (case map_of (k_PendingPods k) name of
              None \<Rightarrow> None
            | Some n \<Rightarrow> if PollTimesToDeterminePendingPod < n then None else Some n)"
  by (rule RemovePending_map [OF assms])

lemma demo_calls:
  "DeletePod demo_client name ns w = (None, w)" "goOrder demo_client n w = (rev [0..<n], w)"
  by (simp_all add: DeletePod_def demo_client_def)

theorem remove_pending_exact_witness:
  "\<exists>m' k'. RemovePendingPodsInNamespace demo_client ''x'' (demo_cached_model [0, 1], demo_board [(''a'', 3), (''b'', 1)] 0) =
      Inr (None, (m', k')) \<and>
    map_of (k_PendingPods k') ''a'' = None \<and> map_of (k_PendingPods k') ''b'' = Some 1"
proof -
  let ?k = "demo_board [(''a'', 3), (''b'', 1)] 0"
  obtain m1 where "RemovePod demo_store ''a'' ''x'' (demo_cached_model [0, 1]) = Inr (None, m1)"
    using RemovePod_unique [OF demo_cached_ok, of "[0, 1]" "[0, 1]" demo_store "''x''" 0 0 "''a''"]
      demo_pods(1-3) by (fastforce simp: demo_cached_model_def)
  then have "\<exists>m' k'. RemovePendingPodsInNamespace demo_client ''x'' (demo_cached_model [0, 1], ?k) = Inr (None, (m', k'))"
    by (simp add: RemovePendingPodsInNamespace_def demo_board_sel demo_calls remove_pending_def
        PollTimesToDeterminePendingPod_def in_order_def)
  then obtain m' k' where run:
    "RemovePendingPodsInNamespace demo_client ''x'' (demo_cached_model [0, 1], ?k) = Inr (None, (m', k'))" by blast
  have "gomap_wf (k_PendingPods ?k)" by (simp add: gomap_wf_def demo_board_sel)
  note r = remove_pending_exact [OF demo_order_law this run]
  from run r [of "''a''"] r [of "''b''"] show ?thesis
    by (simp add: demo_board_sel PollTimesToDeterminePendingPod_def)
qed

text \<open>
  The netcat probe runs its command at most three times; it reports a connection, with the
  trimmed output, exactly when one of those executions succeeds, and it never returns an error.
\<close>

lemma nc_probe_result:
  assumes "wrapf_law E"
  shows "\<exists>w'. ProbeConnectivityWithNc E ns pod cont addr proto toPort w =
    ((case find (\<lambda>(stdout, e). e = None) (attempts E (NewNcClient ns pod cont addr toPort proto) 3 w) of
        Some (stdout, e) \<Rightarrow> (True, TrimSpace stdout, DebugString (NewNcClient ns pod cont addr toPort proto), None)
      | None \<Rightarrow> (False, '''', DebugString (NewNcClient ns pod cont addr toPort proto), None)), w')"
  by (rule ProbeConnectivityWithNc_result [OF assms])

lemma demo_nc:
  "Execute demo_client (NewNcClient ''x'' pod ''c'' ''1.2.3.4'' 80 ProtocolTCP) w =
     (('''', '''', if pod = ''a'' then None else refused), w)"
proof -
  have "TrimSpace [] = []" by (simp add: TrimSpace_def)
  then show ?thesis
    by (simp add: Execute_def ExecWithOptions_def execute_def exec_request_of_def demo_client_def NewNcClient_def)
qed

lemma nc_probe_result_example:
  "\<exists>w w'. ProbeConnectivityWithNc demo_client ''x'' ''b'' ''c'' ''1.2.3.4'' ProtocolTCP 80 w =
     ((False, '''', DebugString (NewNcClient ''x'' ''b'' ''c'' ''1.2.3.4'' 80 ProtocolTCP), None), w')"
  using nc_probe_result [OF demo_wrapf_law, of "''x''" "''b''" "''c''" "''1.2.3.4''" ProtocolTCP 80 0]
  by (auto simp: eval_nat_numeral demo_nc refused_def)

text \<open>
  A service created from a template whose watch delivers services and then falls silent: when
  one of them has the new service's name and a cluster IP, the call returns the name, the service
  and that address; when none has, it returns no service, no address and no error.
\<close>

lemma service_from_template_result:
  assumes "wrapf_law E"
    and "s_Create E (Kube_NewService (template_service t (svc_count sid + 1))) w = ((r, None), w1)"
    and "servicesWatch E (t_Namespace t) w1 = ((Some ch, None), w2)"
    and "feeds E ch w2 (map WService svcs) w3"
  shows "\<exists>w'. CreateServiceFromTemplate E t sid w =
           Some (Inr (case find (has_cluster_ip (t_Name t @ ''-'' @ Itoa (svc_count sid + 1))) svcs of
                        Some s \<Rightarrow> (t_Name t @ ''-'' @ Itoa (svc_count sid + 1),
                                   Some (Kube_NewService (template_service t (svc_count sid + 1))), ksClusterIP s, None)
                      | None \<Rightarrow> ('''', None, '''', None)), IncreaseServiceID sid, w')"
proof -
  let ?svc = "Kube_NewService (template_service t (svc_count sid + 1))"
    and ?name = "t_Name t @ ''-'' @ Itoa (svc_count sid + 1)"
  have n: "ksName (s_service ?svc) = ?name" "ksNamespace (s_service ?svc) = t_Namespace t"
    by (simp_all add: Kube_NewService_def template_service_def Let_def)
  obtain w' where wait: "WaitForClusterIP E ?svc w1 =
      Some (Inr (case find (has_cluster_ip ?name) svcs of Some s \<Rightarrow> ksClusterIP s | None \<Rightarrow> '''', None), w')"
    using WaitForClusterIP_feeds [of E ?svc w1 ch w2 svcs w3] assms(3,4) by (auto simp: n)
  show ?thesis
  proof (cases "find (has_cluster_ip ?name) svcs")
    case None
    with wait CreateServiceFromTemplate_no_address [OF assms(1,2), of w'] show ?thesis by simp
  next
    case (Some s)
    then have "has_cluster_ip ?name s" by (auto simp: find_Some_iff)
    then have "ksClusterIP s \<noteq> ''''" by (simp add: has_cluster_ip_def)
    with Some wait CreateServiceFromTemplate_ok [OF assms(2), of "ksClusterIP s" w'] show ?thesis by simp
  qed
qed

definition demo_template :: service_template where
  "demo_template = \<lparr>t_Name = ''s'', t_Namespace = ''x'', t_Selector = Map.empty,
     t_ProtocolPorts = [\<lparr>ppp_Protocol = ProtocolTCP, ppp_Port = 80\<rparr>], t_SessionAffinity = False\<rparr>"

end
