(* ===== verification/Probe.thy ===== *)
theory Probe
  imports Manager
begin

text \<open>
  \<open>pkg/matrix/probe.go\<close>, the validation functions of \<open>helper.go\<close>, \<open>WaitForHTTPServers\<close> of
  \<open>manager.go\<close> and \<open>pkg/tools\<close>: probing every ordered pair of pods, recording what was observed,
  and judging it. Here the jobs are served one after the other in an order chosen by the runtime,
  and their results arrive in another such order; the theory \<open>Probe_Pool\<close> has the channels and the
  workers, and shows that every run of them is of this form.
\<close>

section \<open>Jobs and results\<close>

record probe_job =
  pj_PodFrom :: pod_ref
  pj_PodTo :: pod_ref
  pj_ToPort :: int
  pj_ToPodDNSDomain :: string
  pj_Protocol :: protocol
  pj_ServiceType :: string
  pj_ReachTargetPod :: bool
  pj_MeasureBandwidth :: bool

definition pj_SetServiceType :: "string \<Rightarrow> probe_job \<Rightarrow> probe_job" where
  "pj_SetServiceType serviceType p = p\<lparr>pj_ServiceType := serviceType\<rparr>"

definition pj_GetServiceType :: "probe_job \<Rightarrow> string" where
  "pj_GetServiceType p = pj_ServiceType p"

record probe_results =
  pr_Job :: probe_job
  pr_IsConnected :: bool
  pr_Err :: err
  pr_Command :: string
  pr_Endpoint :: string
  pr_Bandwidth :: bandwidth_ptr

section \<open>One job\<close>

text \<open>The address a job connects to, by the kind of service it tests.\<close>

definition probe_address :: "probe_job \<Rightarrow> pod \<Rightarrow> string" where
  "probe_address job podTo =
     (if pj_GetServiceType job = PodIP then GetPodIP podTo
      else if pj_GetServiceType job = ClusterIP then GetClusterIP podTo
      else if pj_GetServiceType job = NodePort then GetHostIP podTo
      else if pj_GetServiceType job = ExternalName then GetServiceName podTo
      else if pj_GetServiceType job = LoadBalancer then
        (let externalIPs = (if pj_Protocol job = ProtocolTCP then GetExternalIPsByProtocol podTo ProtocolTCP
                            else if pj_Protocol job = ProtocolUDP then GetExternalIPsByProtocol podTo ProtocolUDP
                            else [])
         in (case externalIPs of [] \<Rightarrow> '''' | ip # _ \<Rightarrow> eip_IP ip))
      else GetPodIP podTo)"

text \<open>The probe itself: connected, bandwidth, endpoint, command and error.\<close>

definition probe_call ::
  "('w, 'z) client_scheme \<Rightarrow> (string \<Rightarrow> float64 \<times> err) \<Rightarrow> probe_job \<Rightarrow> pod \<Rightarrow> string \<Rightarrow> string \<Rightarrow> 'w \<Rightarrow>
   (bool \<times> bandwidth_ptr \<times> string \<times> string \<times> err) go \<times> 'w" where
  "probe_call E PF job from name addr w =
     (if pj_MeasureBandwidth job then
        (let (r, w1) = ProbeConnectivityIPerf E PF (p_Namespace from) (p_Name from) name addr
                         (pj_Protocol job) (pj_ToPort job) w
         in (go_bind r (\<lambda>(connected, bandwidth, command, e). Inr (connected, bandwidth, '''', command, e)), w1))
      else if pj_ReachTargetPod job then
        (let ((connected, ep, command, e), w1) = ProbeConnectivityWithNc E (p_Namespace from) (p_Name from)
                         name addr (pj_Protocol job) (pj_ToPort job) w
         in (Inr (connected, None, ep, command, e), w1))
      else
        (let ((connected, command, e), w1) = ProbeConnectivity E (p_Namespace from) (p_Name from)
                         name addr (pj_Protocol job) (pj_ToPort job) w
         in (Inr (connected, None, '''', command, e), w1)))"

text \<open>One turn of the worker's loop. The container's name may be made up, and is then stored.\<close>

definition probe_one ::
  "('w, 'z) client_scheme \<Rightarrow> (string \<Rightarrow> float64 \<times> err) \<Rightarrow> probe_job \<Rightarrow> 'w kube \<Rightarrow>
   (probe_results \<times> 'w kube) go" where
  "probe_one E PF job k =
     (let podTo = k_pods k ! pj_PodTo job;
          podFrom = k_pods k ! pj_PodFrom job in
      if p_SkipProbe podTo then
        Inr (\<lparr>pr_Job = job, pr_IsConnected = True, pr_Err = None, pr_Command = ''skip'',
              pr_Endpoint = '''', pr_Bandwidth = None\<rparr>, k)
      else case p_Containers podFrom of
        [] \<Rightarrow> Inl IndexOutOfRange
      | c # cs \<Rightarrow>
          (let ((name, c1), w1) = GetName E c (k_world k);
               k1 = k\<lparr>k_pods := (k_pods k)[pj_PodFrom job := podFrom\<lparr>p_Containers := c1 # cs\<rparr>],
                      k_world := w1\<rparr>;
               (r, w2) = probe_call E PF job podFrom name (probe_address job podTo) w1
           in go_bind r (\<lambda>(connected, bandwidth, ep, command, e).
                Inr (\<lparr>pr_Job = job,
                      pr_IsConnected = (if pj_ReachTargetPod job \<and> p_Name podTo \<noteq> ep then False else connected),
                      pr_Err = e, pr_Command = command, pr_Endpoint = ep, pr_Bandwidth = bandwidth\<rparr>,
                     k1\<lparr>k_world := w2\<rparr>))))"

section \<open>All jobs\<close>

definition make_job :: "pod_store \<Rightarrow> model \<Rightarrow> test_case \<Rightarrow> bool \<Rightarrow> bool \<Rightarrow> pod_ref \<Rightarrow> pod_ref \<Rightarrow> probe_job" where
  "make_job h m tc reachTargetPod measureBandwidth from to =
     \<lparr>pj_PodFrom = from, pj_PodTo = to,
      pj_ToPort = (if tc_ToPort tc = 0 then sint (GetToPort (h ! to)) else tc_ToPort tc),
      pj_ToPodDNSDomain = m_dnsDomain m, pj_Protocol = tc_Protocol tc,
      pj_ServiceType = tc_ServiceType tc, pj_ReachTargetPod = reachTargetPod,
      pj_MeasureBandwidth = measureBandwidth\<rparr>"

definition all_jobs ::
  "pod_store \<Rightarrow> model \<Rightarrow> test_case \<Rightarrow> bool \<Rightarrow> bool \<Rightarrow> pod_ref list \<Rightarrow> pod_ref list \<Rightarrow> probe_job list" where
  "all_jobs h m tc reachTargetPod measureBandwidth fromPods toPods =
     concat (map (\<lambda>from. map (\<lambda>to. make_job h m tc reachTargetPod measureBandwidth from to) toPods) fromPods)"

text \<open>The jobs one after the other, with the results in that order.\<close>

primrec run_jobs :: "('j \<Rightarrow> 's \<Rightarrow> ('r \<times> 's) go) \<Rightarrow> 'j list \<Rightarrow> 's \<Rightarrow> ('r list \<times> 's) go" where
  "run_jobs probe [] s = Inr ([], s)"
| "run_jobs probe (j # js) s =
     go_bind (probe j s) (\<lambda>(r, s1).
     go_bind (run_jobs probe js s1) (\<lambda>(rs, s2). Inr (r # rs, s2)))"

text \<open>What the main loop does with a result.\<close>

definition observe_result :: "pod_store \<Rightarrow> probe_results \<Rightarrow> reachability option \<Rightarrow> reachability option go" where
  "observe_result h result r =
     go_bind (deref r) (\<lambda>r.
     go_bind (Observe (PodString (h ! pj_PodFrom (pr_Job result))) (PodString (h ! pj_PodTo (pr_Job result)))
                (pr_IsConnected result) (pr_Bandwidth result) r) (\<lambda>r1. Inr (Some r1)))"

text \<open>
  The runtime chooses the order in which the jobs are run and the order in which their results
  are received.
\<close>

definition ProbePodToPodConnectivity ::
  "('w, 'z) client_scheme \<Rightarrow> (string \<Rightarrow> float64 \<times> err) \<Rightarrow> model \<Rightarrow> test_case \<Rightarrow> bool \<Rightarrow> bool \<Rightarrow>
   'w kube \<Rightarrow> (test_case \<times> model \<times> 'w kube) go" where
  "ProbePodToPodConnectivity E PF m tc reachTargetPod measureBandwidth k =
     (let (fromPods, m1) = AllPods m;
          (toPods, m2) = AllPods m1;
          jobs = all_jobs (k_pods k) m2 tc reachTargetPod measureBandwidth fromPods toPods;
          (is, w1) = goOrder E (length jobs) (k_world k)
      in go_bind (run_jobs (probe_one E PF) (in_order is jobs) (k\<lparr>k_world := w1\<rparr>)) (\<lambda>(results, k1).
         let (js, w2) = goOrder E (length results) (k_world k1)
         in go_bind (go_fold (observe_result (k_pods k1)) (in_order js results) (tc_Reachability tc)) (\<lambda>r.
            Inr (tc\<lparr>tc_Reachability := r\<rparr>, m2, k1\<lparr>k_world := w2\<rparr>))))"

section \<open>Validation\<close>

definition wrong_of :: "test_case \<Rightarrow> bool \<Rightarrow> bool \<Rightarrow> nat go" where
  "wrong_of tc ignoreLoopback measureBandWidth =
     go_bind (deref (tc_Reachability tc)) (\<lambda>r.
     go_bind (Summary r ignoreLoopback measureBandWidth) (\<lambda>((_, wrong, _), _). Inr wrong))"

definition print_of :: "test_case \<Rightarrow> bool \<Rightarrow> string list go" where
  "print_of tc measureBandWidth =
     go_bind (deref (tc_Reachability tc)) (\<lambda>r. PrintSummary r True True True measureBandWidth)"

definition ValidateAndMeasureBandwidthOrFail ::
  "('w, 'z) client_scheme \<Rightarrow> (string \<Rightarrow> float64 \<times> err) \<Rightarrow> model \<Rightarrow> test_case \<Rightarrow> bool \<Rightarrow> bool \<Rightarrow> bool \<Rightarrow>
   'w kube \<Rightarrow> (nat \<times> test_case \<times> model \<times> 'w kube) go" where
  "ValidateAndMeasureBandwidthOrFail E PF m tc ignoreLoopback reachTargetPod measureBandWidth k =
     go_bind (ProbePodToPodConnectivity E PF m tc reachTargetPod measureBandWidth k) (\<lambda>(tc1, m1, k1).
     go_bind (wrong_of tc1 ignoreLoopback measureBandWidth) (\<lambda>wrong1.
     go_bind (if wrong1 \<noteq> 0
              then ProbePodToPodConnectivity E PF m1 tc1 reachTargetPod measureBandWidth k1
              else Inr (tc1, m1, k1)) (\<lambda>(tc2, m2, k2).
     go_bind (wrong_of tc2 ignoreLoopback measureBandWidth) (\<lambda>wrong2.
     go_bind (if wrong2 \<noteq> 0 then print_of tc2 measureBandWidth else Inr []) (\<lambda>_.
     go_bind (print_of tc2 measureBandWidth) (\<lambda>_.
       Inr (wrong2, tc2, m2, k2)))))))"

definition ValidateOrFail ::
  "('w, 'z) client_scheme \<Rightarrow> (string \<Rightarrow> float64 \<times> err) \<Rightarrow> model \<Rightarrow> test_case \<Rightarrow> bool \<Rightarrow> bool \<Rightarrow>
   'w kube \<Rightarrow> (nat \<times> test_case \<times> model \<times> 'w kube) go" where
  "ValidateOrFail E PF m tc ignoreLoopback reachTargetPod k =
     ValidateAndMeasureBandwidthOrFail E PF m tc ignoreLoopback reachTargetPod False k"

definition GetNamespace :: "('w, 'z) go_runtime_scheme \<Rightarrow> 'w \<Rightarrow> string \<times> 'w" where
  "GetNamespace E w = (let (n, w1) = randIntn E 100000 w in (''x-'' @ Itoa (int n), w1))"

definition GetIPerfNamespace :: "('w, 'z) go_runtime_scheme \<Rightarrow> 'w \<Rightarrow> string \<times> 'w" where
  "GetIPerfNamespace E w = (let (ns, w1) = GetNamespace E w in (ns @ IPerfNamespaceSuffix, w1))"

section \<open>Waiting for the servers\<close>

type_synonym test_cases = "(string, test_case) gomap"

definition case_name :: "int32 \<Rightarrow> protocol \<Rightarrow> string" where
  "case_name port proto = ''81->'' @ Itoa (sint port) @ '','' @ proto"

definition http_cases :: "int32 list \<Rightarrow> protocol list \<Rightarrow> test_cases" where
  "http_cases ports protocols =
     fold (\<lambda>port. fold (\<lambda>proto tcs. AList.update (case_name port proto)
             \<lparr>tc_ToPort = sint port, tc_Protocol = proto, tc_Reachability = None, tc_ServiceType = PodIP\<rparr> tcs)
           protocols) ports []"

text \<open>One test case of one try.\<close>

definition http_case ::
  "('w, 'z) client_scheme \<Rightarrow> (string \<Rightarrow> float64 \<times> err) \<Rightarrow> string \<times> test_case \<Rightarrow>
   test_cases \<times> (string, bool) gomap \<times> model \<times> 'w kube \<Rightarrow>
   (test_cases \<times> (string, bool) gomap \<times> model \<times> 'w kube) go" where
  "http_case E PF = (\<lambda>(caseName, tc) (tcs, notReady, m, k).
     if map_of notReady caseName \<noteq> Some True then Inr (tcs, notReady, m, k)
     else (let (pods, m1) = AllPods m;
               tc1 = tc\<lparr>tc_Reachability := Some (NewReachability (k_pods k) pods True)\<rparr>
           in go_bind (ProbePodToPodConnectivity E PF m1 tc1 False False k) (\<lambda>(tc2, m2, k2).
              go_bind (wrong_of tc2 False False) (\<lambda>wrong.
                Inr (AList.update caseName tc2 tcs,
                     if wrong = 0 then AList.delete caseName notReady else notReady, m2, k2)))))"

fun http_tries ::
  "('w, 'z) client_scheme \<Rightarrow> (string \<Rightarrow> float64 \<times> err) \<Rightarrow> nat \<Rightarrow>
   test_cases \<times> (string, bool) gomap \<times> model \<times> 'w kube \<Rightarrow> (err \<times> model \<times> 'w kube) go" where
  "http_tries E PF 0 (tcs, notReady, m, k) =
     Inr (Some (ErrText (''after 10 tries, '' @ Itoa (int (length notReady)) @ '' HTTP servers are not ready'')), m, k)"
| "http_tries E PF (Suc n) (tcs, notReady, m, k) =
     (let (is, w) = goOrder E (length tcs) (k_world k)
      in go_bind (go_fold (http_case E PF) (in_order is tcs) (tcs, notReady, m, k\<lparr>k_world := w\<rparr>))
           (\<lambda>(tcs1, notReady1, m1, k1).
             if length notReady1 = 0 then Inr (None, m1, k1)
             else http_tries E PF n (tcs1, notReady1, m1, k1)))"

definition WaitForHTTPServers ::
  "('w, 'z) client_scheme \<Rightarrow> (string \<Rightarrow> float64 \<times> err) \<Rightarrow> model \<Rightarrow> 'w kube \<Rightarrow> (err \<times> model \<times> 'w kube) go" where
  "WaitForHTTPServers E PF m k =
     go_bind (AllPortsProtocol (k_pods k) m) (\<lambda>((ports, protocols), m1).
       let testCases = http_cases ports protocols;
           notReady = map (\<lambda>(caseName, _). (caseName, True)) testCases;
           maxTries = 10
       in http_tries E PF maxTries (testCases, notReady, m1, k))"

section \<open>Test helpers\<close>

text \<open>An error ends the test (\<open>t.Fatal\<close>) before the pods are reset.\<close>

definition ResetTestBoard ::
  "('w, 'z) client_scheme \<Rightarrow> service option list \<Rightarrow> model \<Rightarrow> 'w kube \<Rightarrow> err \<times> model \<times> 'w kube" where
  "ResetTestBoard E s m k =
     (let (e, w) = Services_Delete E s (k_world k)
      in if e \<noteq> None then (e, m, k\<lparr>k_world := w\<rparr>)
         else let (m1, h1) = ResetAllPods m (k_pods k)
              in (None, m1, k\<lparr>k_world := w, k_pods := h1\<rparr>))"

definition MustNoWrong :: "int \<Rightarrow> string option" where
  "MustNoWrong wrongNum =
     (if wrongNum > 0 then Some (''Wrong results number '' @ Itoa wrongNum) else None)"

end
