(* ===== verification/Probe_Pool.thy ===== *)
theory Probe_Pool
  imports Probe
begin

text \<open>
  The goroutines and channels of \<open>ProbePodToPodConnectivity\<close> (\<open>pkg/matrix/probe.go\<close>) as a step
  relation: the main goroutine sends every job, closes the channel and receives one result per
  job; each worker takes a job, probes, and sends its result. Both channels are buffered with room
  for all jobs. A step is one communication, or one probe; steps of the goroutines interleave
  freely. The theory shows that no job is lost or done twice, that the pool never gets stuck and
  ends after a bounded number of steps, and that its outcome is one the sequential model describes.
\<close>

section \<open>The pool\<close>

datatype ('j, 'r) worker = Idle | Busy 'j | Holding 'r | Exited

record ('j, 'r, 's) pool =
  po_tosend :: "'j list"
  po_jobs :: "'j list"
  po_closed :: bool
  po_workers :: "('j, 'r) worker list"
  po_results :: "'r list"
  po_received :: "'r list"
  po_env :: 's

text \<open>The loop that starts the workers counts from 1 up to, not including, \<open>numberOfWorkers\<close>.\<close>

definition numberOfWorkers :: nat where
  "numberOfWorkers = 4"

definition pool_init :: "'j list \<Rightarrow> 's \<Rightarrow> ('j, 'r, 's) pool" where
  "pool_init jobs s =
     \<lparr>po_tosend = jobs, po_jobs = [], po_closed = False,
      po_workers = map (\<lambda>_. Idle) [1..<numberOfWorkers],
      po_results = [], po_received = [], po_env = s\<rparr>"

definition set_worker :: "nat \<Rightarrow> ('j, 'r) worker \<Rightarrow> ('j, 'r, 's) pool \<Rightarrow> ('j, 'r, 's) pool" where
  "set_worker i x p = p\<lparr>po_workers := (po_workers p)[i := x]\<rparr>"

inductive pool_step ::
  "('j \<Rightarrow> 's \<Rightarrow> ('r \<times> 's) go) \<Rightarrow> nat \<Rightarrow> ('j, 'r, 's) pool \<Rightarrow> ('j, 'r, 's) pool \<Rightarrow> bool"
  for probe cap where
  send: "po_tosend p = j # js \<Longrightarrow> length (po_jobs p) < cap \<Longrightarrow>
           pool_step probe cap p (p\<lparr>po_tosend := js, po_jobs := po_jobs p @ [j]\<rparr>)"
| close: "po_tosend p = [] \<Longrightarrow> \<not> po_closed p \<Longrightarrow> pool_step probe cap p (p\<lparr>po_closed := True\<rparr>)"
| take_job: "i < length (po_workers p) \<Longrightarrow> po_workers p ! i = Idle \<Longrightarrow> po_jobs p = j # js \<Longrightarrow>
           pool_step probe cap p (set_worker i (Busy j) (p\<lparr>po_jobs := js\<rparr>))"
| run_job: "i < length (po_workers p) \<Longrightarrow> po_workers p ! i = Busy j \<Longrightarrow> probe j (po_env p) = Inr (r, s) \<Longrightarrow>
           pool_step probe cap p (set_worker i (Holding r) (p\<lparr>po_env := s\<rparr>))"
| put_result: "i < length (po_workers p) \<Longrightarrow> po_workers p ! i = Holding r \<Longrightarrow> length (po_results p) < cap \<Longrightarrow>
           pool_step probe cap p (set_worker i Idle (p\<lparr>po_results := po_results p @ [r]\<rparr>))"
| worker_exit: "i < length (po_workers p) \<Longrightarrow> po_workers p ! i = Idle \<Longrightarrow> po_jobs p = [] \<Longrightarrow> po_closed p \<Longrightarrow>
           pool_step probe cap p (set_worker i Exited p)"
| receive: "po_closed p \<Longrightarrow> length (po_received p) < cap \<Longrightarrow> po_results p = r # rs \<Longrightarrow>
           pool_step probe cap p (p\<lparr>po_results := rs, po_received := po_received p @ [r]\<rparr>)"

text \<open>\<open>n\<close> steps in a row.\<close>

inductive pool_run ::
  "('j \<Rightarrow> 's \<Rightarrow> ('r \<times> 's) go) \<Rightarrow> nat \<Rightarrow> ('j, 'r, 's) pool \<Rightarrow> nat \<Rightarrow> ('j, 'r, 's) pool \<Rightarrow> bool"
  for probe cap where
  run_start: "pool_run probe cap p 0 p"
| run_step: "pool_run probe cap p n q \<Longrightarrow> pool_step probe cap q q' \<Longrightarrow> pool_run probe cap p (Suc n) q'"

text \<open>The main goroutine has received all it waits for.\<close>

definition pool_done :: "nat \<Rightarrow> ('j, 'r, 's) pool \<Rightarrow> bool" where
  "pool_done cap p \<longleftrightarrow> po_closed p \<and> length (po_received p) = cap"

definition busy_of :: "('j, 'r) worker \<Rightarrow> 'j list" where
  "busy_of x = (case x of Busy j \<Rightarrow> [j] | _ \<Rightarrow> [])"

definition held_of :: "('j, 'r) worker \<Rightarrow> 'r list" where
  "held_of x = (case x of Holding r \<Rightarrow> [r] | _ \<Rightarrow> [])"

definition live_of :: "('j, 'r) worker \<Rightarrow> unit list" where
  "live_of x = (case x of Exited \<Rightarrow> [] | _ \<Rightarrow> [()])"

lemmas worker_parts = busy_of_def held_of_def live_of_def

definition parts :: "('a \<Rightarrow> 'b list) \<Rightarrow> 'a list \<Rightarrow> 'b multiset" where
  "parts f xs = mset (concat (map f xs))"

lemma parts_update:
  "i < length xs \<Longrightarrow> parts f (xs[i := y]) + mset (f (xs ! i)) = parts f xs + mset (f y)"
proof (induction xs arbitrary: i)
  case Nil
  then show ?case by simp
next
  case (Cons x xs)
  then show ?case by (cases i) (auto simp: parts_def ac_simps)
qed

lemma parts_worker:
  assumes "i < length xs" and "xs ! i = x"
  shows "parts f (xs[i := y]) + mset (f x) = parts f xs + mset (f y)"
  using parts_update [OF assms(1), of f y] assms(2) by simp

lemma parts_empty: "parts f xs = {#} \<longleftrightarrow> (\<forall>x \<in> set xs. f x = [])"
  by (simp add: parts_def)

section \<open>Sequential runs\<close>

lemma run_jobs_append:
  "run_jobs probe (xs @ ys) s =
     go_bind (run_jobs probe xs s) (\<lambda>(rs, s1). go_bind (run_jobs probe ys s1) (\<lambda>(rs', s2). Inr (rs @ rs', s2)))"
proof (induction xs arbitrary: s)
  case Nil
  show ?case by (cases "run_jobs probe ys s") auto
next
  case (Cons x xs)
  show ?case
  proof (cases "probe x s")
    case (Inr y)
    obtain r s1 where y: "y = (r, s1)" by (cases y)
    show ?thesis
    proof (cases "run_jobs probe xs s1")
      case (Inr z)
      then show ?thesis
        using \<open>probe x s = Inr y\<close> by (cases z, cases "run_jobs probe ys (snd z)") (auto simp: Cons y)
    qed (use Inr in \<open>simp add: Cons y\<close>)
  qed simp
qed

lemma run_jobs_snoc:
  "run_jobs probe es s = Inr (rs, s1) \<Longrightarrow> probe j s1 = Inr (r, s2) \<Longrightarrow>
     run_jobs probe (es @ [j]) s = Inr (rs @ [r], s2)"
  by (simp add: run_jobs_append)

lemma run_jobs_length: "run_jobs probe es s = Inr (rs, s') \<Longrightarrow> length rs = length es"
  by (induction es arbitrary: s rs) (auto simp: go_bind_eq_Inr_iff)

text \<open>The measure that every step decreases by one.\<close>

definition pool_work :: "('j, 'r, 's) pool \<Rightarrow> nat" where
  "pool_work p =
     5 * length (po_tosend p) + 4 * length (po_jobs p) + 3 * size (parts busy_of (po_workers p)) +
     2 * size (parts held_of (po_workers p)) + length (po_results p) +
     (if po_closed p then 0 else 1) + size (parts live_of (po_workers p))"

lemma size_parts:
  assumes "i < length xs" and "xs ! i = x"
  shows "size (parts f (xs[i := y])) + length (f x) = size (parts f xs) + length (f y)"
  using arg_cong [OF parts_worker [OF assms, of f y], of size] by simp

lemma pool_step_work: "pool_step probe n p q \<Longrightarrow> pool_work p = Suc (pool_work q)"
proof (induction rule: pool_step.induct)
  case (take_job i p j js)
  then show ?case
    using size_parts [of i "po_workers p" Idle busy_of "Busy j"] size_parts [of i "po_workers p" Idle held_of "Busy j"]
      size_parts [of i "po_workers p" Idle live_of "Busy j"]
    by (simp add: pool_work_def set_worker_def worker_parts)
next
  case (run_job i p j r s)
  then show ?case
    using size_parts [of i "po_workers p" "Busy j" busy_of "Holding r"] size_parts [of i "po_workers p" "Busy j" held_of "Holding r"]
      size_parts [of i "po_workers p" "Busy j" live_of "Holding r"]
    by (simp add: pool_work_def set_worker_def worker_parts)
next
  case (put_result i p r)
  then show ?case
    using size_parts [of i "po_workers p" "Holding r" busy_of Idle] size_parts [of i "po_workers p" "Holding r" held_of Idle]
      size_parts [of i "po_workers p" "Holding r" live_of Idle]
    by (simp add: pool_work_def set_worker_def worker_parts)
next
  case (worker_exit i p)
  then show ?case
    using size_parts [of i "po_workers p" Idle busy_of Exited] size_parts [of i "po_workers p" Idle held_of Exited]
      size_parts [of i "po_workers p" Idle live_of Exited]
    by (simp add: pool_work_def set_worker_def worker_parts)
qed (simp_all add: pool_work_def)

lemma pool_run_work: "pool_run probe n p k q \<Longrightarrow> pool_work p = k + pool_work q"
  by (induction rule: pool_run.induct) (auto dest: pool_step_work)

section \<open>The contract of a probe, and what the pool makes of it\<close>

text \<open>
  What the pool relies on: on the jobs of the run, and as long as the shared state is good, a
  probe does not panic, keeps the state good, and its result is sound and names its job.
\<close>

locale job_probe =
  fixes probe :: "'j \<Rightarrow> 's \<Rightarrow> ('r \<times> 's) go"
    and job_of :: "'r \<Rightarrow> 'j"
    and good :: "'s \<Rightarrow> bool"
    and able :: "'j \<Rightarrow> bool"
    and sound :: "'r \<Rightarrow> bool"
  assumes probe_ok:
    "good s \<Longrightarrow> able j \<Longrightarrow> \<exists>r s'. probe j s = Inr (r, s') \<and> good s' \<and> job_of r = j \<and> sound r"
begin

lemma run_jobs_ok:
  "good s \<Longrightarrow> \<forall>j \<in> set js. able j \<Longrightarrow>
     \<exists>rs s'. run_jobs probe js s = Inr (rs, s') \<and> good s' \<and> map job_of rs = js \<and> (\<forall>r \<in> set rs. sound r)"
proof (induction js arbitrary: s)
  case Nil
  then show ?case by simp
next
  case (Cons j js)
  then obtain r s1 where p: "probe j s = Inr (r, s1)" "good s1" "job_of r = j" "sound r"
    using probe_ok [of s j] by auto
  from Cons.IH [OF p(2)] Cons.prems(2) obtain rs s' where
    "run_jobs probe js s1 = Inr (rs, s')" "good s'" "map job_of rs = js" "\<forall>r \<in> set rs. sound r" by auto
  with p show ?case by simp
qed

text \<open>
  The invariant: some sequence \<open>es\<close> of the jobs has been run, one after the other, with results
  \<open>rs\<close>; every other job is still to be sent, in the channel or with a worker, and every result is
  held by a worker, in the channel or received.
\<close>

definition pool_data :: "'j list \<Rightarrow> 's \<Rightarrow> 'j list \<Rightarrow> 'r list \<Rightarrow> ('j, 'r, 's) pool \<Rightarrow> bool" where
  "pool_data jobs s0 es rs p \<longleftrightarrow>
     run_jobs probe es s0 = Inr (rs, po_env p) \<and> map job_of rs = es \<and> good (po_env p) \<and>
     mset (po_tosend p) + mset (po_jobs p) + parts busy_of (po_workers p) + mset es = mset jobs \<and>
     parts held_of (po_workers p) + mset (po_results p) + mset (po_received p) = mset rs"

definition pool_shape :: "'j list \<Rightarrow> ('j, 'r, 's) pool \<Rightarrow> bool" where
  "pool_shape jobs p \<longleftrightarrow>
     (po_closed p \<longrightarrow> po_tosend p = []) \<and>
     (Exited \<in> set (po_workers p) \<longrightarrow> po_closed p \<and> po_jobs p = []) \<and>
     po_workers p \<noteq> [] \<and> length (po_received p) \<le> length jobs"

definition pool_inv :: "'j list \<Rightarrow> 's \<Rightarrow> ('j, 'r, 's) pool \<Rightarrow> bool" where
  "pool_inv jobs s0 p \<longleftrightarrow> (\<exists>es rs. pool_data jobs s0 es rs p) \<and> pool_shape jobs p"

lemma pool_inv_init:
  assumes "good s"
  shows "pool_inv jobs s (pool_init jobs s)"
proof -
  have "parts busy_of (po_workers (pool_init jobs s)) = {#}" and "parts held_of (po_workers (pool_init jobs s)) = {#}"
    by (auto simp: parts_empty pool_init_def worker_parts)
  with assms have "pool_data jobs s [] [] (pool_init jobs s)"
    unfolding pool_data_def by (simp add: pool_init_def)
  moreover have "pool_shape jobs (pool_init jobs s)"
    by (auto simp: pool_shape_def pool_init_def numberOfWorkers_def)
  ultimately show ?thesis unfolding pool_inv_def by blast
qed

lemma busy_able:
  assumes "pool_data jobs s0 es rs p" and "\<forall>j \<in> set jobs. able j" and "i < length (po_workers p)" and "po_workers p ! i = Busy j"
  shows "able j"
proof -
  have "j \<in># parts busy_of (po_workers p)"
    using assms(3,4) nth_mem [OF assms(3)] by (force simp: parts_def busy_of_def)
  moreover have "mset (po_tosend p) + mset (po_jobs p) + parts busy_of (po_workers p) + mset es = mset jobs"
    using assms(1) by (simp only: pool_data_def)
  ultimately have "j \<in># mset jobs" by (metis union_iff)
  with assms(2) show ?thesis by simp
qed

lemma pool_shape_step:
  assumes "pool_step probe (length jobs) p q" and "pool_shape jobs p"
  shows "pool_shape jobs q"
  using assms
proof (induction rule: pool_step.induct)
  case (take_job i p j js)
  then show ?case
    using set_update_subset_insert [of "po_workers p" i "Busy j"] by (auto simp: pool_shape_def set_worker_def)
next
  case (run_job i p j r s)
  then show ?case
    using set_update_subset_insert [of "po_workers p" i "Holding r"] by (auto simp: pool_shape_def set_worker_def)
next
  case (put_result i p r)
  then show ?case
    using set_update_subset_insert [of "po_workers p" i Idle] by (auto simp: pool_shape_def set_worker_def)
qed (auto simp: pool_shape_def set_worker_def)

lemma pool_data_step:
  assumes "pool_step probe (length jobs) p q" and data: "pool_data jobs s0 es rs p" and able: "\<forall>j \<in> set jobs. able j"
  shows "\<exists>es' rs'. pool_data jobs s0 es' rs' q"
  using assms(1)
proof cases
  case (send j js)
  with data have "pool_data jobs s0 es rs q" by (simp add: pool_data_def)
  then show ?thesis by blast
next
  case close
  with data have "pool_data jobs s0 es rs q" by (simp add: pool_data_def)
  then show ?thesis by blast
next
  case (take_job i j js)
  with data have "pool_data jobs s0 es rs q"
    using parts_worker [OF take_job(2,3), of busy_of "Busy j"] parts_worker [OF take_job(2,3), of held_of "Busy j"]
    by (simp add: pool_data_def set_worker_def worker_parts)
  then show ?thesis by blast
next
  case (run_job i j r s)
  note d = data [unfolded pool_data_def]
  obtain r' s' where "probe j (po_env p) = Inr (r', s')" "good s'" "job_of r' = j"
    using probe_ok busy_able [OF data able run_job(2,3)] d by blast
  with run_job(4) have g: "good s" "job_of r = j" by simp_all
  have busy: "parts busy_of (po_workers p) = parts busy_of ((po_workers p)[i := Holding r]) + {#j#}"
    and held: "parts held_of ((po_workers p)[i := Holding r]) = parts held_of (po_workers p) + {#r#}"
    using parts_worker [OF run_job(2,3), of busy_of "Holding r"] parts_worker [OF run_job(2,3), of held_of "Holding r"]
    by (simp_all add: worker_parts)
  have "run_jobs probe (es @ [j]) s0 = Inr (rs @ [r], s)"
    by (rule run_jobs_snoc [of probe es s0 rs "po_env p"]) (use d run_job(4) in blast)+
  moreover have "mset (po_tosend p) + mset (po_jobs p) + parts busy_of ((po_workers p)[i := Holding r]) + mset (es @ [j]) = mset jobs"
    using d unfolding busy by (simp add: ac_simps)
  moreover have "parts held_of ((po_workers p)[i := Holding r]) + mset (po_results p) + mset (po_received p) = mset (rs @ [r])"
    using d unfolding held by (simp add: ac_simps)
  ultimately have "pool_data jobs s0 (es @ [j]) (rs @ [r]) q"
    using d g by (simp add: pool_data_def run_job(1) set_worker_def)
  then show ?thesis by blast
next
  case (put_result i r)
  note d = data [unfolded pool_data_def]
  have busy: "parts busy_of ((po_workers p)[i := Idle]) = parts busy_of (po_workers p)"
    and held: "parts held_of (po_workers p) = parts held_of ((po_workers p)[i := Idle]) + {#r#}"
    using parts_worker [OF put_result(2,3), of busy_of Idle] parts_worker [OF put_result(2,3), of held_of Idle]
    by (simp_all add: worker_parts)
  have "parts held_of ((po_workers p)[i := Idle]) + mset (po_results p @ [r]) + mset (po_received p) = mset rs"
    using d unfolding held by (simp add: ac_simps)
  with d busy have "pool_data jobs s0 es rs q" by (simp add: pool_data_def put_result(1) set_worker_def)
  then show ?thesis by blast
next
  case (worker_exit i)
  with data have "pool_data jobs s0 es rs q"
    using parts_worker [OF worker_exit(2,3), of busy_of Exited] parts_worker [OF worker_exit(2,3), of held_of Exited]
    by (simp add: pool_data_def set_worker_def worker_parts)
  then show ?thesis by blast
next
  case (receive r rs')
  with data have "pool_data jobs s0 es rs q" by (simp add: pool_data_def)
  then show ?thesis by blast
qed

lemma pool_inv_step:
  assumes "pool_step probe (length jobs) p q" and "pool_inv jobs s0 p" and "\<forall>j \<in> set jobs. able j"
  shows "pool_inv jobs s0 q"
  using assms pool_data_step pool_shape_step unfolding pool_inv_def by blast

lemma pool_inv_run:
  assumes "pool_run probe (length jobs) (pool_init jobs s0) k q" and "good s0" and "\<forall>j \<in> set jobs. able j"
  shows "pool_inv jobs s0 q"
  using assms(1)
proof (induction "pool_init jobs s0 :: ('j, 'r, 's) pool" k q rule: pool_run.induct)
  case run_start
  show ?case by (rule pool_inv_init [OF assms(2)])
next
  case (run_step n q q')
  then show ?case using pool_inv_step assms(3) by blast
qed

text \<open>Until the main goroutine is done, some step is possible: no deadlock.\<close>

lemma pool_progress:
  assumes inv: "pool_inv jobs s0 p" and able: "\<forall>j \<in> set jobs. able j" and "\<not> pool_done (length jobs) p"
  shows "\<exists>q. pool_step probe (length jobs) p q"
proof -
  let ?ws = "po_workers p" and ?step = "pool_step probe (length jobs) p"
  obtain es rs where data: "pool_data jobs s0 es rs p" and shape: "pool_shape jobs p"
    using inv by (auto simp: pool_inv_def)
  note d = data [unfolded pool_data_def]
  have counts: "length (po_tosend p) + length (po_jobs p) + size (parts busy_of ?ws) + length es = length jobs"
    using d by (metis size_mset size_union)
  have results: "size (parts held_of ?ws) + length (po_results p) + length (po_received p) = length es"
    using d by (metis length_map size_mset size_union)
  have busy: "\<exists>q. ?step q" if "i < length ?ws" "?ws ! i = Busy j" for i j
    using run_job [OF that] probe_ok busy_able [OF data able that] d by metis
  have holding: "\<exists>q. ?step q" if i: "i < length ?ws" "?ws ! i = Holding r" for i r
  proof -
    have "held_of (Holding r :: ('j, 'r) worker) = [r]" by (simp add: held_of_def)
    then have "parts held_of ?ws \<noteq> {#}" using i nth_mem [OF i(1)] by (force simp: parts_empty)
    then have "0 < size (parts held_of ?ws)" by (simp add: nonempty_has_size)
    with counts results have "length (po_results p) < length jobs" by linarith
    with put_result [OF i] show ?thesis by blast
  qed
  show ?thesis
  proof (cases "po_tosend p")
    case (Cons j js)
    with counts have "length (po_jobs p) < length jobs" by simp
    with send [OF Cons] show ?thesis by blast
  next
    case Nil
    show ?thesis
    proof (cases "po_closed p")
      case False
      with close [OF Nil] show ?thesis by blast
    next
      case True
      have todo: "length (po_received p) < length jobs"
        using assms(3) shape True by (auto simp: pool_done_def pool_shape_def)
      show ?thesis
      proof (cases "po_results p")
        case (Cons r rs')
        with receive [OF True todo] show ?thesis by blast
      next
        case empty: Nil
        show ?thesis
        proof (cases "\<exists>i < length ?ws. (\<exists>j. ?ws ! i = Busy j) \<or> (\<exists>r. ?ws ! i = Holding r)")
          case True
          with busy holding show ?thesis by blast
        next
          case False
          have calm: "x = Idle \<or> x = Exited" if mem: "x \<in> set ?ws" for x
          proof -
            obtain i where "i < length ?ws" "?ws ! i = x" using mem by (meson in_set_conv_nth)
            with False show ?thesis by (cases x) blast+
          qed
          then have "parts busy_of ?ws = {#}" "parts held_of ?ws = {#}"
            by (auto simp: parts_empty worker_parts dest!: calm)
          with counts results todo empty Nil have "po_jobs p \<noteq> []" by auto
          then obtain j js where jobs: "po_jobs p = j # js" by (cases "po_jobs p") auto
          have w: "0 < length ?ws" and "Exited \<notin> set ?ws" using shape jobs by (auto simp: pool_shape_def)
          then have "?ws ! 0 = Idle" using calm [of "?ws ! 0"] nth_mem [OF w] by metis
          with take_job [OF w _ jobs] show ?thesis by blast
        qed
      qed
    qed
  qed
qed

text \<open>When the main goroutine is done it has one result for every job, of one sequential run.\<close>

lemma pool_outcome:
  assumes "pool_inv jobs s0 p" and "pool_done (length jobs) p"
    and "good s0" and able: "\<forall>j \<in> set jobs. able j"
  shows "\<exists>es rs. mset es = mset jobs \<and> run_jobs probe es s0 = Inr (rs, po_env p) \<and> good (po_env p) \<and>
           map job_of rs = es \<and> mset (po_received p) = mset rs \<and> (\<forall>r \<in> set rs. sound r)"
proof -
  obtain es rs where d: "pool_data jobs s0 es rs p" using assms(1) by (auto simp: pool_inv_def)
  note d = d [unfolded pool_data_def]
  have counts: "length (po_tosend p) + length (po_jobs p) + size (parts busy_of (po_workers p)) + length es = length jobs"
    using d by (metis size_mset size_union)
  have results: "size (parts held_of (po_workers p)) + length (po_results p) + length (po_received p) = length es"
    using d by (metis length_map size_mset size_union)
  have n: "length (po_received p) = length jobs" using assms(2) by (simp add: pool_done_def)
  have "length (po_tosend p) = 0" "length (po_jobs p) = 0" "length (po_results p) = 0"
    using counts results n by linarith+
  moreover have "size (parts busy_of (po_workers p)) = 0" "size (parts held_of (po_workers p)) = 0"
    using counts results n by linarith+
  ultimately have jobs: "mset es = mset jobs" and "mset (po_received p) = mset rs" using d by auto
  moreover have "\<forall>r \<in> set rs. sound r"
    using run_jobs_ok [OF assms(3), of es] able d mset_eq_setD [OF jobs] by auto
  ultimately show ?thesis using d by blast
qed

end

section \<open>The pool's length of life\<close>

lemma pool_init_work: "pool_work (pool_init jobs s :: ('j, 'r, 's) pool) = 5 * length jobs + 4"
proof -
  let ?ws = "po_workers (pool_init jobs s :: ('j, 'r, 's) pool)"
  have "parts busy_of ?ws = {#}" and "parts held_of ?ws = {#}"
    by (auto simp: parts_empty pool_init_def worker_parts)
  moreover have "size (parts live_of ?ws) = 3"
    by (simp add: pool_init_def numberOfWorkers_def parts_def upt_rec live_of_def)
  ultimately show ?thesis by (simp add: pool_work_def) (simp add: pool_init_def)
qed

lemma pool_run_bound: "pool_run probe n (pool_init jobs s) k q \<Longrightarrow> k \<le> 5 * length jobs + 4"
  using pool_run_work [of probe n "pool_init jobs s" k q] by (simp add: pool_init_work)

section \<open>Permutations as orders\<close>

lemma in_order_exists:
  "mset es = mset jobs \<Longrightarrow> \<exists>is. mset is = mset [0..<length jobs] \<and> in_order is jobs = es"
proof (induction es arbitrary: jobs)
  case Nil
  then show ?case by (simp add: in_order_def)
next
  case (Cons e es)
  then have "e \<in> set jobs" by (metis list.set_intros(1) mset_eq_setD)
  then obtain us vs where jobs: "jobs = us @ e # vs" by (meson split_list)
  let ?n = "length us" and ?f = "\<lambda>i. if i < length us then i else Suc i"
  have "mset es = mset (us @ vs)" using Cons.prems by (simp add: jobs)
  from Cons.IH [OF this] obtain is' where
    is': "mset is' = mset [0..<length (us @ vs)]" "in_order is' (us @ vs) = es" by blast
  have "mset (map ?f is') = image_mset ?f (mset [0..<length (us @ vs)])" using is'(1) by simp
  also have "\<dots> = mset (map ?f [0..<length (us @ vs)])" by simp
  also have "map ?f [0..<length (us @ vs)] = [0..<?n] @ map Suc [?n..<?n + length vs]"
    using upt_add_eq_append [of 0 ?n "length vs"] map_idI [of "[0..<?n]" ?f] by simp
  also have "mset \<dots> + {#?n#} = mset [0..<length jobs]"
    using upt_add_eq_append [of 0 ?n "Suc (length vs)"] upt_conv_Cons [of ?n "?n + Suc (length vs)"]
    by (simp add: jobs map_Suc_upt)
  finally have perm: "mset (?n # map ?f is') = mset [0..<length jobs]" by simp
  have "(us @ e # vs) ! ?f i = (us @ vs) ! i" for i
    by (cases "i < length us") (simp_all add: nth_append Suc_diff_le)
  then have "in_order (map ?f is') jobs = in_order is' (us @ vs)"
    unfolding in_order_def map_map o_def jobs by (intro map_cong refl)
  then have "in_order (?n # map ?f is') jobs = e # in_order is' (us @ vs)"
    by (simp add: in_order_def jobs del: map_map)
  with is'(2) perm show ?case by metis
qed

section \<open>The probes of this program\<close>

text \<open>
  iperf, when it ends without error, prints a report line of at least nine comma separated fields
  (the sample in \<open>result.go\<close>).
\<close>

definition iperf_law :: "('w, 'z) client_scheme \<Rightarrow> bool" where
  "iperf_law E \<longleftrightarrow>
     (\<forall>ns pod cont addr port proto w stdout stderr w1.
        Execute E (NewIPerfClient ns pod cont addr port proto) w = ((stdout, stderr, None), w1) \<longrightarrow>
        8 \<le> count_list stdout CHR '','')"

text \<open>The store the probes work on: the pods of \<open>h\<close>, with container names perhaps filled in.\<close>

definition same_pod :: "pod \<Rightarrow> pod \<Rightarrow> bool" where
  "same_pod p q \<longleftrightarrow> q = p\<lparr>p_Containers := p_Containers q\<rparr> \<and> p_Containers q \<noteq> []"

definition probed_store :: "pod_store \<Rightarrow> 'w kube \<Rightarrow> bool" where
  "probed_store h k \<longleftrightarrow> list_all2 same_pod h (k_pods k)"

definition job_fits :: "('w, 'z) client_scheme \<Rightarrow> pod_store \<Rightarrow> probe_job \<Rightarrow> bool" where
  "job_fits E h job \<longleftrightarrow>
     pj_PodFrom job < length h \<and> pj_PodTo job < length h \<and> (pj_MeasureBandwidth job \<longrightarrow> iperf_law E)"

lemma probe_call_ok:
  assumes "pj_MeasureBandwidth job \<longrightarrow> iperf_law E"
  shows "\<exists>y w2. probe_call E PF job from name addr w = (Inr y, w2)"
proof (cases "pj_MeasureBandwidth job")
  case False
  then show ?thesis by (simp add: probe_call_def split: prod.split)
next
  case True
  with assms have law: "iperf_law E" by simp
  let ?c = "NewIPerfClient (p_Namespace from) (p_Name from) name addr (pj_ToPort job) (pj_Protocol job)"
  obtain stdout stderr e w1 where x: "Execute E ?c w = ((stdout, stderr, e), w1)" by (metis surj_pair)
  show ?thesis
  proof (cases e)
    case None
    with law x have "8 \<le> count_list stdout CHR '',''" unfolding iperf_law_def by blast
    then obtain y where "FromCommaSeparatedString PF stdout = Inr y"
      using FromCommaSeparatedString_panics [of PF stdout] by (cases "FromCommaSeparatedString PF stdout") auto
    with True x None show ?thesis
      by (cases y) (auto simp: probe_call_def ProbeConnectivityIPerf_def Let_def)
  qed (use True x in \<open>auto simp: probe_call_def ProbeConnectivityIPerf_def Let_def\<close>)
qed

interpretation probes: job_probe "probe_one E PF" pr_Job "probed_store h" "job_fits E h" "\<lambda>_. True" for E PF h
proof (unfold_locales, goal_cases)
  case (1 k job)
  let ?from = "k_pods k ! pj_PodFrom job" and ?to = "k_pods k ! pj_PodTo job"
  have f: "pj_PodFrom job < length h" and law: "pj_MeasureBandwidth job \<longrightarrow> iperf_law E"
    using 1(2) by (auto simp: job_fits_def)
  have same: "same_pod (h ! pj_PodFrom job) ?from"
    using 1(1) f by (simp add: probed_store_def list_all2_conv_all_nth)
  then obtain c cs where c: "p_Containers ?from = c # cs" by (cases "p_Containers ?from") (auto simp: same_pod_def)
  obtain name c1 w1 where g: "GetName E c (k_world k) = ((name, c1), w1)" by (metis surj_pair)
  obtain y w2 where y: "probe_call E PF job ?from name (probe_address job ?to) w1 = (Inr y, w2)"
    using probe_call_ok [OF law] by blast
  have "same_pod (h ! pj_PodFrom job) (?from\<lparr>p_Containers := c1 # cs\<rparr>)"
    using same unfolding same_pod_def by (metis (no_types, lifting) list.distinct(1) pod.select_convs(5) pod.surjective pod.update_convs(5))
  then have "list_all2 same_pod h ((k_pods k)[pj_PodFrom job := ?from\<lparr>p_Containers := c1 # cs\<rparr>])"
    using 1(1) f by (auto simp: probed_store_def list_all2_conv_all_nth nth_list_update)
  with 1(1) show ?case
    by (cases y) (simp add: probe_one_def Let_def c g y probed_store_def)
qed

end
