(* ===== verification/Validation.thy ===== *)
theory Validation
  imports Probe_Pool
begin

text \<open>
  What a validation returns. On a cluster that answers a command the same way each time, the
  observed matrix is the connectivity of the cluster, whatever the order in which jobs run and
  results arrive, and \<open>ValidateOrFail\<close> returns the number of pairs whose connectivity is not the
  expected one. Without that assumption: a validation probes at most twice, and what it returns is
  the count of the last summary.
\<close>

section \<open>A steady cluster\<close>

text \<open>Every command has one answer, its standard output and its error.\<close>

definition steady :: "('w, 'z) client_scheme \<Rightarrow> (commandImpl \<Rightarrow> string \<times> err) \<Rightarrow> bool" where
  "steady E ans \<longleftrightarrow> (\<forall>c w. \<exists>stderr w1. Execute E c w = ((fst (ans c), stderr, snd (ans c)), w1))"

text \<open>What a probe of the job reports there.\<close>

definition answer :: "(commandImpl \<Rightarrow> string \<times> err) \<Rightarrow> pod_store \<Rightarrow> probe_job \<Rightarrow> bool" where
  "answer ans h job =
     (let podFrom = h ! pj_PodFrom job; podTo = h ! pj_PodTo job;
          name = c_Name (hd (p_Containers podFrom)); addr = probe_address job podTo in
      if p_SkipProbe podTo then True
      else if pj_ReachTargetPod job then
        (let (stdout, e) = ans (NewNcClient (p_Namespace podFrom) (p_Name podFrom) name addr
                                  (pj_ToPort job) (pj_Protocol job))
         in e = None \<and> TrimSpace stdout = p_Name podTo)
      else snd (ans (NewAgnHostClient (p_Namespace podFrom) (p_Name podFrom) name addr
                       (pj_ToPort job) (pj_Protocol job))) = None)"

text \<open>
  The same with the bandwidth, for every kind of job: a measuring job runs iperf, and fails when
  iperf does or when what it prints cannot be parsed. No endpoint is known then, so a measuring job
  that must reach its target is not connected (unless the target has no name).
\<close>

definition reply ::
  "(string \<Rightarrow> float64 \<times> err) \<Rightarrow> (commandImpl \<Rightarrow> string \<times> err) \<Rightarrow> pod_store \<Rightarrow> probe_job \<Rightarrow> bool \<times> bandwidth_ptr"
where
  "reply PF ans h job =
     (let podFrom = h ! pj_PodFrom job; podTo = h ! pj_PodTo job;
          name = c_Name (hd (p_Containers podFrom)); addr = probe_address job podTo;
          (stdout, e) = ans (NewIPerfClient (p_Namespace podFrom) (p_Name podFrom) name addr
                               (pj_ToPort job) (pj_Protocol job));
          (b, parse_e) = PF (Split CHR '','' stdout ! 8) in
      if p_SkipProbe podTo \<or> \<not> pj_MeasureBandwidth job then (answer ans h job, None)
      else if e \<noteq> None \<or> parse_e \<noteq> None then (False, None)
      else (pj_ReachTargetPod job \<longrightarrow> p_Name podTo = '''', Some \<lparr>Bandwidth = b\<rparr>))"

lemma reply_answer: "\<not> pj_MeasureBandwidth job \<Longrightarrow> reply PF ans h job = (answer ans h job, None)"
  by (simp add: reply_def Let_def split: prod.split)

definition has_named_container :: "pod \<Rightarrow> bool" where
  "has_named_container p \<longleftrightarrow> p_Containers p \<noteq> [] \<and> c_Name (hd (p_Containers p)) \<noteq> ''''"

definition steady_job ::
  "('w, 'z) client_scheme \<Rightarrow> (commandImpl \<Rightarrow> string \<times> err) \<Rightarrow> pod_store \<Rightarrow> probe_job \<Rightarrow> bool" where
  "steady_job E ans h job \<longleftrightarrow>
     steady E ans \<and> (pj_MeasureBandwidth job \<longrightarrow> iperf_law E) \<and> has_named_container (h ! pj_PodFrom job)"

lemma steady_attempts:
  assumes "steady E ans"
  shows "attempts E c n w = replicate n (ans c)"
proof (induction n arbitrary: w)
  case 0
  then show ?case by simp
next
  case (Suc n)
  obtain stderr w1 where "Execute E c w = ((fst (ans c), stderr, snd (ans c)), w1)"
    using assms unfolding steady_def by blast
  with Suc show ?case by (simp add: Let_def)
qed

lemma steady_nc:
  assumes "steady E ans"
  shows "fst (nc_retry E c 3 w) = (if snd (ans c) = None then Some (TrimSpace (fst (ans c))) else None)"
  unfolding nc_retry_attempts steady_attempts [OF assms]
  by (cases "ans c") (simp add: numeral_3_eq_3)

lemma steady_probe_call:
  assumes "steady E ans" and "\<not> pj_MeasureBandwidth job"
  shows "\<exists>connected ep command e w2.
           probe_call E PF job from name addr w = (Inr (connected, None, ep, command, e), w2) \<and>
           (if pj_ReachTargetPod job
            then (let (stdout, e) = ans (NewNcClient (p_Namespace from) (p_Name from) name addr
                                           (pj_ToPort job) (pj_Protocol job))
                  in connected = (e = None) \<and> ep = (if e = None then TrimSpace stdout else ''''))
            else connected = (snd (ans (NewAgnHostClient (p_Namespace from) (p_Name from) name addr
                                          (pj_ToPort job) (pj_Protocol job))) = None))"
proof (cases "pj_ReachTargetPod job")
  case True
  let ?c = "NewNcClient (p_Namespace from) (p_Name from) name addr (pj_ToPort job) (pj_Protocol job)"
  obtain r w1 where r: "nc_retry E ?c 3 w = (r, w1)" by fastforce
  have "r = (if snd (ans ?c) = None then Some (TrimSpace (fst (ans ?c))) else None)"
    using steady_nc [OF assms(1), of ?c w] r by simp
  with True assms(2) r show ?thesis
    by (cases "ans ?c") (auto simp: probe_call_def ProbeConnectivityWithNc_def Let_def)
next
  case False
  let ?c = "NewAgnHostClient (p_Namespace from) (p_Name from) name addr (pj_ToPort job) (pj_Protocol job)"
  obtain stderr w1 where "Execute E ?c w = ((fst (ans ?c), stderr, snd (ans ?c)), w1)"
    using assms(1) unfolding steady_def by blast
  with False assms(2) show ?thesis
    by (cases "snd (ans ?c)") (auto simp: probe_call_def ProbeConnectivity_def Let_def)
qed

text \<open>A measuring probe: what iperf prints has nine fields, so parsing it does not panic.\<close>

lemma steady_probe_iperf:
  assumes "steady E ans" and "iperf_law E" and "pj_MeasureBandwidth job"
  shows "\<exists>connected bw command e w2.
           probe_call E PF job from name addr w = (Inr (connected, bw, '''', command, e), w2) \<and>
           (let (stdout, e) = ans (NewIPerfClient (p_Namespace from) (p_Name from) name addr
                                     (pj_ToPort job) (pj_Protocol job));
                (b, parse_e) = PF (Split CHR '','' stdout ! 8)
            in (connected, bw) =
               (if e \<noteq> None \<or> parse_e \<noteq> None then (False, None) else (True, Some \<lparr>Bandwidth = b\<rparr>)))"
proof -
  let ?c = "NewIPerfClient (p_Namespace from) (p_Name from) name addr (pj_ToPort job) (pj_Protocol job)"
  obtain out e where a: "ans ?c = (out, e)" by (cases "ans ?c")
  obtain stderr w1 where x: "Execute E ?c w = ((out, stderr, e), w1)"
    using assms(1) a unfolding steady_def by (metis fst_conv snd_conv)
  obtain b parse_e where b: "PF (Split CHR '','' out ! 8) = (b, parse_e)" by (cases "PF (Split CHR '','' out ! 8)")
  have "8 < length (Split CHR '','' out)" if "e = None"
  proof -
    have "8 \<le> count_list out CHR '',''" using assms(2) x that unfolding iperf_law_def by blast
    then show ?thesis by (simp add: length_Split)
  qed
  then show ?thesis
    using assms(3) x b
    by (cases e; cases parse_e)
      (auto simp: a probe_call_def ProbeConnectivityIPerf_def FromCommaSeparatedString_def Let_def)
qed

interpretation steady_probes: job_probe "probe_one E PF" pr_Job
  "\<lambda>k. k_pods k = h \<and> k_PendingPods k = pend" "steady_job E ans h"
  "\<lambda>r. (pr_IsConnected r, pr_Bandwidth r) = reply PF ans h (pr_Job r)" for E PF h pend ans
proof (unfold_locales, goal_cases)
  case (1 k job)
  then have k: "k_pods k = h" "k_PendingPods k = pend" and s: "steady E ans"
    and law: "pj_MeasureBandwidth job \<Longrightarrow> iperf_law E"
    and named: "has_named_container (h ! pj_PodFrom job)"
    by (auto simp: steady_job_def)
  let ?from = "h ! pj_PodFrom job" and ?to = "h ! pj_PodTo job"
  obtain c cs where c: "p_Containers ?from = c # cs" and name: "c_Name c \<noteq> ''''"
    using named by (cases "p_Containers ?from") (auto simp: has_named_container_def)
  have "?from\<lparr>p_Containers := c # cs\<rparr> = ?from" using c by simp
  then have same: "h[pj_PodFrom job := ?from\<lparr>p_Containers := c # cs\<rparr>] = h" by simp
  show ?case
  proof (cases "pj_MeasureBandwidth job")
    case True
    let ?ans = "ans (NewIPerfClient (p_Namespace ?from) (p_Name ?from) (c_Name c) (probe_address job ?to)
                       (pj_ToPort job) (pj_Protocol job))"
    obtain out e where a: "?ans = (out, e)" by (cases ?ans)
    obtain b parse_e where b: "PF (Split CHR '','' out ! 8) = (b, parse_e)" by (cases "PF (Split CHR '','' out ! 8)")
    obtain connected bw command e' w2 where call:
        "probe_call E PF job ?from (c_Name c) (probe_address job ?to) (k_world k) =
           (Inr (connected, bw, '''', command, e'), w2)"
      and "(connected, bw) = (if e \<noteq> None \<or> parse_e \<noteq> None then (False, None) else (True, Some \<lparr>Bandwidth = b\<rparr>))"
      using steady_probe_iperf [OF s law True, of PF ?from "c_Name c" "probe_address job ?to" "k_world k"] True
      by (auto simp: a b Let_def)
    moreover have "reply PF ans h job =
        (if p_SkipProbe ?to then (True, None)
         else if e \<noteq> None \<or> parse_e \<noteq> None then (False, None)
         else (pj_ReachTargetPod job \<longrightarrow> p_Name ?to = '''', Some \<lparr>Bandwidth = b\<rparr>))"
      using True by (simp add: reply_def answer_def Let_def c a b)
    ultimately show ?thesis
      by (cases e; cases parse_e) (auto simp: probe_one_def Let_def k c GetName_named [OF name] same)
  next
    case False
    with steady_probe_call [OF s False, of PF ?from "c_Name c" "probe_address job ?to" "k_world k"] same show ?thesis
      by (auto simp: probe_one_def Let_def k c GetName_named [OF name] reply_answer answer_def split: prod.splits if_splits)
  qed
qed

section \<open>Observing results\<close>

definition result_write :: "pod_store \<Rightarrow> probe_results \<Rightarrow> string \<times> string \<times> bool \<times> bandwidth_ptr" where
  "result_write h res =
     (PodString (h ! pj_PodFrom (pr_Job res)), PodString (h ! pj_PodTo (pr_Job res)),
      pr_IsConnected res, pr_Bandwidth res)"

lemma observe_results_writes:
  "go_fold (observe_result h) rs (Some r) =
     go_bind (go_fold (\<lambda>(a, b, v). obs_put a b v) (map (result_write h) rs) r) (\<lambda>r. Inr (Some r))"
proof (induction rs arbitrary: r)
  case Nil
  then show ?case by simp
next
  case (Cons res rs)
  let ?o = "Observe (PodString (h ! pj_PodFrom (pr_Job res))) (PodString (h ! pj_PodTo (pr_Job res)))
              (pr_IsConnected res) (pr_Bandwidth res) r"
  have "observe_result h res (Some r) = go_bind ?o (\<lambda>r. Inr (Some r))"
    and "(\<lambda>(a, b, v). obs_put a b v) (result_write h res) r = ?o"
    by (simp_all add: observe_result_def result_write_def obs_put_def)
  then show ?case by (cases ?o) (simp_all add: Cons)
qed

text \<open>
  When results for the same pair agree, every pair ends with its result, in whatever order they
  were received.
\<close>

lemma observe_all:
  assumes over: "reach_over names r"
    and rows: "\<forall>res \<in> set rs. PodString (h ! pj_PodFrom (pr_Job res)) \<in> set names"
    and agree: "\<forall>a b u v. (a, b, u) \<in> set (map (result_write h) rs) \<longrightarrow>
                          (a, b, v) \<in> set (map (result_write h) rs) \<longrightarrow> u = v"
  shows "\<exists>r'. go_fold (observe_result h) rs (Some r) = Inr (Some r') \<and> reach_over names r' \<and>
           Expected r' = Expected r \<and> r_Pods r' = r_Pods r \<and>
           (\<forall>res \<in> set rs.
              tt_Get (Observed r') (PodString (h ! pj_PodFrom (pr_Job res)))
                (PodString (h ! pj_PodTo (pr_Job res))) = pr_IsConnected res \<and>
              GetBandwidth (Observed r') (PodString (h ! pj_PodFrom (pr_Job res)))
                (PodString (h ! pj_PodTo (pr_Job res))) = pr_Bandwidth res)"
proof -
  let ?ws = "map (result_write h) rs" and ?put = "\<lambda>(a, b, v). obs_put a b v"
  let ?I = "\<lambda>r'. reach_over names r' \<and> Expected r' = Expected r \<and> r_Pods r' = r_Pods r"
  have "\<exists>r'. go_fold ?put ?ws r = Inr r' \<and> ?I r'"
  proof (rule go_fold_invariant)
    show "?I r" using over by simp
  next
    fix w s assume w: "w \<in> set ?ws" and I: "?I s"
    obtain a b c bw where w': "w = (a, b, c, bw)" by (cases w)
    have "a \<in> set names" using w rows by (auto simp: w' result_write_def)
    then obtain s' where s': "Observe a b c bw s = Inr s'" "reach_over names s'"
      using Observe_reach_over I by blast
    with I Observe_keeps(1,2) [OF s'(1)] show "\<exists>s'. ?put w s = Inr s' \<and> ?I s'"
      by (simp add: w' obs_put_def)
  qed
  then obtain r' where r': "go_fold ?put ?ws r = Inr r'" and I: "?I r'" by blast
  have ok: "obs_ok r" "\<forall>w \<in> set ?ws. fst w \<in> obs_rows r"
    using over rows by (auto simp: reach_over_def reach_wf_def obs_ok_def obs_rows_def result_write_def)
  have "tt_Get (Observed r') (PodString (h ! pj_PodFrom (pr_Job res))) (PodString (h ! pj_PodTo (pr_Job res))) =
      pr_IsConnected res \<and>
      GetBandwidth (Observed r') (PodString (h ! pj_PodFrom (pr_Job res))) (PodString (h ! pj_PodTo (pr_Job res))) =
      pr_Bandwidth res" if "res \<in> set rs" for res
  proof -
    let ?a = "PodString (h ! pj_PodFrom (pr_Job res))" and ?b = "PodString (h ! pj_PodTo (pr_Job res))"
    have mem: "(?a, ?b, pr_IsConnected res, pr_Bandwidth res) \<in> set ?ws"
      using that by (force simp: result_write_def)
    have "obs_get r' ?a ?b = Some (pr_IsConnected res, pr_Bandwidth res)"
      by (rule observations.put_all_unique(1) [OF ok _ r' mem]) (use agree in blast)
    then show ?thesis by (auto simp: obs_get_def tt_Get_def GetBandwidth_def split: option.splits)
  qed
  with r' I show ?thesis by (simp add: observe_results_writes)
qed

section \<open>One round of probes\<close>

lemma all_jobs_set:
  "j \<in> set (all_jobs h m tc reach bw fromPods toPods) \<longleftrightarrow>
     (\<exists>f \<in> set fromPods. \<exists>t \<in> set toPods. j = make_job h m tc reach bw f t)"
  by (auto simp: all_jobs_def)

lemma make_job_sel [simp]:
  "pj_PodFrom (make_job h m tc reach bw f t) = f" "pj_PodTo (make_job h m tc reach bw f t) = t"
  "pj_MeasureBandwidth (make_job h m tc reach bw f t) = bw"
  "pj_ReachTargetPod (make_job h m tc reach bw f t) = reach"
  by (simp_all add: make_job_def)

text \<open>The jobs do not depend on the model's caches, nor on what was observed so far.\<close>

lemma make_job_cache [simp]:
  "make_job h (m\<lparr>m_pods := x\<rparr>) tc = make_job h m tc"
  "make_job h m (tc\<lparr>tc_Reachability := y\<rparr>) = make_job h m tc"
  by (simp_all add: make_job_def fun_eq_iff)

text \<open>
  A board ready to be probed: the pods have distinct names in the matrix and named containers, and
  the test case holds a reachability over them.
\<close>

definition ready_board :: "pod_store \<Rightarrow> pod_ref list \<Rightarrow> reachability \<Rightarrow> bool" where
  "ready_board h pods r \<longleftrightarrow>
     (\<forall>x \<in> set pods. has_named_container (h ! x)) \<and>
     distinct (pod_names h pods) \<and> reach_over (pod_names h pods) r"

lemma pod_names_inj:
  assumes "distinct (pod_names h pods)" and "x \<in> set pods" and "y \<in> set pods"
    and "PodString (h ! x) = PodString (h ! y)"
  shows "x = y"
  using assms by (auto simp: pod_names_def distinct_map inj_on_def)

lemma AllPods_twice:
  assumes "AllPods m = (pods, m1)"
  shows "AllPods m1 = (pods, m1)" and "\<exists>x. m1 = m\<lparr>m_pods := x\<rparr>"
  using assms AllPods_again [OF assms] by (auto simp: AllPods_def Let_def split: option.splits intro: exI [of _ "m_pods m"])

lemma Probe_round_replies:
  assumes E: "order_law E" "steady E ans" "bw \<longrightarrow> iperf_law E" and pods: "AllPods m = (pods, m1)"
    and board: "ready_board (k_pods k) pods r" and tc: "tc_Reachability tc = Some r"
  shows "\<exists>r' w. ProbePodToPodConnectivity E PF m tc reach bw k =
            Inr (tc\<lparr>tc_Reachability := Some r'\<rparr>, m1, k\<lparr>k_world := w\<rparr>) \<and>
          reach_over (pod_names (k_pods k) pods) r' \<and> Expected r' = Expected r \<and>
          (\<forall>f \<in> set pods. \<forall>t \<in> set pods.
             (tt_Get (Observed r') (PodString (k_pods k ! f)) (PodString (k_pods k ! t)),
              GetBandwidth (Observed r') (PodString (k_pods k ! f)) (PodString (k_pods k ! t))) =
             reply PF ans (k_pods k) (make_job (k_pods k) m tc reach bw f t))"
proof -
  let ?h = "k_pods k"
  let ?job = "make_job ?h m tc reach bw"
  let ?jobs = "all_jobs ?h m1 tc reach bw pods pods"
  have dist: "distinct (pod_names ?h pods)" using board by (simp add: ready_board_def)
  have again: "AllPods m1 = (pods, m1)" by (rule AllPods_twice(1) [OF pods])
  have "make_job ?h m1 tc = make_job ?h m tc" using AllPods_twice(2) [OF pods] by auto
  then have jobs_iff: "j \<in> set ?jobs \<longleftrightarrow> (\<exists>f \<in> set pods. \<exists>t \<in> set pods. j = ?job f t)" for j
    by (simp only: all_jobs_set)
  obtain is' w1 where o1: "goOrder E (length ?jobs) (k_world k) = (is', w1)" by fastforce
  have perm1: "mset (in_order is' ?jobs) = mset ?jobs" by (rule mset_goOrder [OF E(1) o1])
  have "steady_job E ans ?h (?job f t)" if "f \<in> set pods" for f t
    using that board E(2,3) by (simp add: steady_job_def ready_board_def)
  then have able: "\<forall>j \<in> set (in_order is' ?jobs). steady_job E ans ?h j"
    using mset_eq_setD [OF perm1] jobs_iff by metis
  obtain rs k2 where run: "run_jobs (probe_one E PF) (in_order is' ?jobs) (k\<lparr>k_world := w1\<rparr>) = Inr (rs, k2)"
    and k2: "k_pods k2 = ?h" "k_PendingPods k2 = k_PendingPods k"
    and jobs: "map pr_Job rs = in_order is' ?jobs"
    and sound: "\<forall>x \<in> set rs. (pr_IsConnected x, pr_Bandwidth x) = reply PF ans ?h (pr_Job x)"
    using steady_probes.run_jobs_ok [of "k\<lparr>k_world := w1\<rparr>" ?h "k_PendingPods k" "in_order is' ?jobs" E ans PF] able
    by auto
  obtain js w2 where o2: "goOrder E (length rs) (k_world k2) = (js, w2)" by fastforce
  let ?rs = "in_order js rs"
  have set_rs: "set ?rs = set rs" by (rule mset_eq_setD) (rule mset_goOrder [OF E(1) o2])
  have job_of: "\<exists>f \<in> set pods. \<exists>t \<in> set pods. pr_Job x = ?job f t" if "x \<in> set rs" for x
  proof -
    have "pr_Job x \<in> set (in_order is' ?jobs)" using that by (metis image_eqI jobs list.set_map)
    then show ?thesis using mset_eq_setD [OF perm1] jobs_iff by simp
  qed
  have agree: "u = v" if u: "(a, b, u) \<in> set (map (result_write ?h) ?rs)" and v: "(a, b, v) \<in> set (map (result_write ?h) ?rs)"
    for a b u v
  proof -
    obtain x y where x: "x \<in> set rs" "result_write ?h x = (a, b, u)" and y: "y \<in> set rs" "result_write ?h y = (a, b, v)"
      using u v set_rs by auto
    obtain f t where ft: "f \<in> set pods" "t \<in> set pods" "pr_Job x = ?job f t" using job_of [OF x(1)] by blast
    obtain f' t' where ft': "f' \<in> set pods" "t' \<in> set pods" "pr_Job y = ?job f' t'" using job_of [OF y(1)] by blast
    have "PodString (?h ! f) = PodString (?h ! f')" and "PodString (?h ! t) = PodString (?h ! t')"
      using x(2) y(2) by (simp_all add: result_write_def ft(3) ft'(3))
    then have "f = f'" and "t = t'"
      using pod_names_inj [OF dist ft(1) ft'(1)] pod_names_inj [OF dist ft(2) ft'(2)] by simp_all
    with ft(3) ft'(3) have "pr_Job x = pr_Job y" by simp
    with x(2) y(2) bspec [OF sound x(1)] bspec [OF sound y(1)] show ?thesis by (auto simp: result_write_def)
  qed
  then have agree': "\<forall>a b u v. (a, b, u) \<in> set (map (result_write ?h) ?rs) \<longrightarrow>
      (a, b, v) \<in> set (map (result_write ?h) ?rs) \<longrightarrow> u = v" by blast
  have over: "reach_over (pod_names ?h pods) r" using board by (simp add: ready_board_def)
  have rows: "\<forall>x \<in> set ?rs. PodString (?h ! pj_PodFrom (pr_Job x)) \<in> set (pod_names ?h pods)"
    using job_of set_rs by (fastforce simp: pod_names_def)
  obtain r' where r': "go_fold (observe_result ?h) ?rs (Some r) = Inr (Some r')"
      "reach_over (pod_names ?h pods) r'" "Expected r' = Expected r"
    and obs: "\<forall>x \<in> set ?rs. tt_Get (Observed r') (PodString (?h ! pj_PodFrom (pr_Job x)))
                (PodString (?h ! pj_PodTo (pr_Job x))) = pr_IsConnected x \<and>
              GetBandwidth (Observed r') (PodString (?h ! pj_PodFrom (pr_Job x)))
                (PodString (?h ! pj_PodTo (pr_Job x))) = pr_Bandwidth x"
    using observe_all [OF over rows agree'] by blast
  have "(tt_Get (Observed r') (PodString (?h ! f)) (PodString (?h ! t)),
         GetBandwidth (Observed r') (PodString (?h ! f)) (PodString (?h ! t))) = reply PF ans ?h (?job f t)"
    if "f \<in> set pods" "t \<in> set pods" for f t
  proof -
    have "?job f t \<in> set (map pr_Job rs)"
      unfolding jobs using that mset_eq_setD [OF perm1] jobs_iff by auto
    then obtain x where x: "x \<in> set rs" "pr_Job x = ?job f t" by auto
    then show ?thesis using bspec [OF obs, of x] bspec [OF sound x(1)] set_rs by simp
  qed
  moreover have "ProbePodToPodConnectivity E PF m tc reach bw k =
      Inr (tc\<lparr>tc_Reachability := Some r'\<rparr>, m1, k\<lparr>k_world := w2\<rparr>)"
    using k2 by (simp add: ProbePodToPodConnectivity_def pods again o1 run o2 tc r'(1) Let_def)
  ultimately show ?thesis using r' by blast
qed

text \<open>Without measuring, only what is connected matters.\<close>

lemma Probe_round:
  assumes "order_law E" "steady E ans" and "AllPods m = (pods, m1)"
    and "ready_board (k_pods k) pods r" and "tc_Reachability tc = Some r"
  shows "\<exists>r' w. ProbePodToPodConnectivity E PF m tc reach False k =
            Inr (tc\<lparr>tc_Reachability := Some r'\<rparr>, m1, k\<lparr>k_world := w\<rparr>) \<and>
          reach_over (pod_names (k_pods k) pods) r' \<and> Expected r' = Expected r \<and>
          (\<forall>f \<in> set pods. \<forall>t \<in> set pods.
             tt_Get (Observed r') (PodString (k_pods k ! f)) (PodString (k_pods k ! t)) =
             answer ans (k_pods k) (make_job (k_pods k) m tc reach False f t))"
  using Probe_round_replies [OF assms(1,2) _ assms(3-5), of False PF reach]
  by (simp add: reply_answer) blast

section \<open>Validation\<close>

text \<open>The pairs of pods whose connectivity is not the expected one.\<close>

definition bad_pairs ::
  "bool \<Rightarrow> bool \<Rightarrow> pod_store \<Rightarrow> pod_ref list \<Rightarrow> reachability \<Rightarrow> (pod_ref \<Rightarrow> pod_ref \<Rightarrow> bool \<times> bandwidth_ptr) \<Rightarrow>
   (pod_ref \<times> pod_ref) set" where
  "bad_pairs ign bw h pods r rep =
     {(f, t). f \<in> set pods \<and> t \<in> set pods \<and> \<not> (ign \<and> f = t) \<and>
              (tt_Get (Expected r) (PodString (h ! f)) (PodString (h ! t)) \<noteq> fst (rep f t) \<or>
               bw \<and> fst (rep f t) \<and> too_slow (snd (rep f t)))}"

lemma wrong_of_replies:
  assumes over: "reach_over (pod_names h pods) r" and dist: "distinct (pod_names h pods)"
    and tc: "tc_Reachability tc = Some r"
    and obs: "\<forall>f \<in> set pods. \<forall>t \<in> set pods.
                tt_Get (Observed r) (PodString (h ! f)) (PodString (h ! t)) = fst (rep f t) \<and>
                (bw \<longrightarrow> GetBandwidth (Observed r) (PodString (h ! f)) (PodString (h ! t)) = snd (rep f t))"
  shows "wrong_of tc ign bw = Inr (card (bad_pairs ign bw h pods r rep))"
proof -
  let ?name = "\<lambda>x. PodString (h ! x)"
  have wf: "reach_wf r" and pairs: "expected_pairs r = set (pod_names h pods) \<times> set (pod_names h pods)"
    using over by (simp_all add: reach_over_def)
  obtain t f i cmp where s: "Summary r ign bw = Inr ((t, f, i), cmp)"
    using Summary_total [of r ign bw] over by (fastforce simp: reach_over_def)
  have inj: "inj_on (\<lambda>(x, y). (?name x, ?name y)) (bad_pairs ign bw h pods r rep)"
    using pod_names_inj [OF dist] by (auto simp: inj_on_def bad_pairs_def)
  have img: "(\<lambda>(x, y). (?name x, ?name y)) ` bad_pairs ign bw h pods r rep =
      {(a, b) \<in> expected_pairs r. pair_wrong r ign bw a b}" (is "?l = ?r")
  proof
    show "?l \<subseteq> ?r"
    proof
      fix p assume "p \<in> ?l"
      then obtain x y where xy: "x \<in> set pods" "y \<in> set pods" and p: "p = (?name x, ?name y)"
        and "\<not> (ign \<and> x = y)"
        and "tt_Get (Expected r) (?name x) (?name y) \<noteq> fst (rep x y) \<or> bw \<and> fst (rep x y) \<and> too_slow (snd (rep x y))"
        by (auto simp: bad_pairs_def)
      then have "pair_wrong r ign bw (?name x) (?name y)"
        using pod_names_inj [OF dist xy] obs by (auto simp: pair_wrong_def pair_ignored_def)
      with p xy show "p \<in> ?r" by (auto simp: pairs pod_names_def)
    qed
    show "?r \<subseteq> ?l"
    proof
      fix p assume "p \<in> ?r"
      then obtain x y where xy: "x \<in> set pods" "y \<in> set pods" and p: "p = (?name x, ?name y)"
        and w: "pair_wrong r ign bw (?name x) (?name y)"
        by (auto simp: pairs pod_names_def)
      then have "(x, y) \<in> bad_pairs ign bw h pods r rep"
        using obs by (auto simp: bad_pairs_def pair_wrong_def pair_ignored_def)
      with p show "p \<in> ?l" by force
    qed
  qed
  have "f = card (bad_pairs ign bw h pods r rep)"
    using Summary_counts(1) [OF wf s] card_image [OF inj] unfolding img by (rule trans)
  then show ?thesis by (simp add: wrong_of_def tc s)
qed

lemma print_of_total:
  assumes "reach_over names r" and "tc_Reachability tc = Some r"
  shows "\<exists>texts. print_of tc bw = Inr texts"
proof -
  obtain t f i cmp where "Summary r False False = Inr ((t, f, i), cmp)"
    using Summary_total [of r False False] assms(1) by (fastforce simp: reach_over_def)
  then show ?thesis by (simp add: print_of_def assms(2) PrintSummary_def Let_def)
qed

lemma Validate_replies:
  assumes E: "order_law E" "steady E ans" "bw \<longrightarrow> iperf_law E" and pods: "AllPods m = (pods, m1)"
    and board: "ready_board (k_pods k) pods r" and tc: "tc_Reachability tc = Some r"
  shows "\<exists>tc' w. ValidateAndMeasureBandwidthOrFail E PF m tc ign reach bw k =
           Inr (card (bad_pairs ign bw (k_pods k) pods r
                        (\<lambda>f t. reply PF ans (k_pods k) (make_job (k_pods k) m tc reach bw f t))),
                tc', m1, k\<lparr>k_world := w\<rparr>)"
proof -
  let ?h = "k_pods k" and ?rep = "\<lambda>f t. reply PF ans (k_pods k) (make_job (k_pods k) m tc reach bw f t)"
  let ?names = "pod_names ?h pods"
  let ?bad = "card (bad_pairs ign bw ?h pods r ?rep)"
  let ?matches = "\<lambda>r'. \<forall>f \<in> set pods. \<forall>t \<in> set pods.
      (tt_Get (Observed r') (PodString (?h ! f)) (PodString (?h ! t)),
       GetBandwidth (Observed r') (PodString (?h ! f)) (PodString (?h ! t))) = ?rep f t"
  have dist: "distinct ?names" using board by (simp add: ready_board_def)
  obtain r1 w1 where p1: "ProbePodToPodConnectivity E PF m tc reach bw k =
        Inr (tc\<lparr>tc_Reachability := Some r1\<rparr>, m1, k\<lparr>k_world := w1\<rparr>)"
      and r1: "reach_over ?names r1" "Expected r1 = Expected r" "?matches r1"
    using Probe_round_replies [OF E pods board tc, of PF reach] by blast
  have bad_cong: "bad_pairs ign bw ?h pods r' ?rep = bad_pairs ign bw ?h pods r ?rep" if "Expected r' = Expected r" for r'
    using that by (simp add: bad_pairs_def)
  have obs1: "\<forall>f \<in> set pods. \<forall>t \<in> set pods.
      tt_Get (Observed r1) (PodString (?h ! f)) (PodString (?h ! t)) = fst (?rep f t) \<and>
      (bw \<longrightarrow> GetBandwidth (Observed r1) (PodString (?h ! f)) (PodString (?h ! t)) = snd (?rep f t))"
    using r1(3) by (metis fst_conv snd_conv)
  have wrong1: "wrong_of (tc\<lparr>tc_Reachability := Some r1\<rparr>) ign bw = Inr ?bad"
    using wrong_of_replies [OF r1(1) dist _ obs1, of "tc\<lparr>tc_Reachability := Some r1\<rparr>" ign] bad_cong [OF r1(2)]
    by simp
  have board1: "ready_board (k_pods (k\<lparr>k_world := w1\<rparr>)) pods r1"
    using board r1(1) by (simp add: ready_board_def)
  obtain x where m1: "m1 = m\<lparr>m_pods := x\<rparr>" using AllPods_twice(2) [OF pods] by blast
  obtain r2 w2 where p2: "ProbePodToPodConnectivity E PF m1 (tc\<lparr>tc_Reachability := Some r1\<rparr>) reach bw (k\<lparr>k_world := w1\<rparr>) =
        Inr (tc\<lparr>tc_Reachability := Some r2\<rparr>, m1, k\<lparr>k_world := w2\<rparr>)"
      and r2: "reach_over ?names r2" "Expected r2 = Expected r1" "?matches r2"
    using Probe_round_replies [OF E AllPods_twice(1) [OF pods] board1, of "tc\<lparr>tc_Reachability := Some r1\<rparr>" PF reach]
    by (auto simp: m1)
  have obs2: "\<forall>f \<in> set pods. \<forall>t \<in> set pods.
      tt_Get (Observed r2) (PodString (?h ! f)) (PodString (?h ! t)) = fst (?rep f t) \<and>
      (bw \<longrightarrow> GetBandwidth (Observed r2) (PodString (?h ! f)) (PodString (?h ! t)) = snd (?rep f t))"
    using r2(3) by (metis fst_conv snd_conv)
  have wrong2: "wrong_of (tc\<lparr>tc_Reachability := Some r2\<rparr>) ign bw = Inr ?bad"
    using wrong_of_replies [OF r2(1) dist _ obs2, of "tc\<lparr>tc_Reachability := Some r2\<rparr>" ign]
      bad_cong [of r2] r2(2) r1(2) by simp
  obtain t1 where t1: "print_of (tc\<lparr>tc_Reachability := Some r1\<rparr>) bw = Inr t1"
    using print_of_total [OF r1(1), of "tc\<lparr>tc_Reachability := Some r1\<rparr>" bw] by auto
  obtain t2 where t2: "print_of (tc\<lparr>tc_Reachability := Some r2\<rparr>) bw = Inr t2"
    using print_of_total [OF r2(1), of "tc\<lparr>tc_Reachability := Some r2\<rparr>" bw] by auto
  show ?thesis
    by (cases "?bad = 0")
      (auto simp: ValidateAndMeasureBandwidthOrFail_def p1 wrong1 p2 wrong2 t1 t2)
qed

lemma Validate_steady:
  assumes "order_law E" "steady E ans" and "AllPods m = (pods, m1)"
    and "ready_board (k_pods k) pods r" and "tc_Reachability tc = Some r"
  shows "\<exists>tc' w. ValidateOrFail E PF m tc ign reach k =
           Inr (card (bad_pairs ign False (k_pods k) pods r
                        (\<lambda>f t. (answer ans (k_pods k) (make_job (k_pods k) m tc reach False f t), None))),
                tc', m1, k\<lparr>k_world := w\<rparr>)"
  using Validate_replies [OF assms(1,2) _ assms(3-5), of False PF ign reach]
  by (simp add: ValidateOrFail_def reply_answer)

text \<open>Without any assumption on the cluster: at most two rounds, and the count of the last one.\<close>

lemma Validate_rounds:
  assumes "ValidateAndMeasureBandwidthOrFail E PF m tc ign reach bw k = Inr (wrong, tc', m', k')"
  obtains tc1 m1 k1 wrong1 where
    "ProbePodToPodConnectivity E PF m tc reach bw k = Inr (tc1, m1, k1)"
    "wrong_of tc1 ign bw = Inr wrong1" "wrong_of tc' ign bw = Inr wrong"
    "if wrong1 = 0 then tc' = tc1 \<and> m' = m1 \<and> k' = k1
     else ProbePodToPodConnectivity E PF m1 tc1 reach bw k1 = Inr (tc', m', k')"
  using assms
  by (auto simp: ValidateAndMeasureBandwidthOrFail_def go_bind_eq_Inr_iff split: if_splits)

end
