(* ===== verification/Http_Servers.thy ===== *)
theory Http_Servers
  imports Validation
begin

text \<open>
  \<open>WaitForHTTPServers\<close> of \<open>pkg/matrix/manager.go\<close>: the map of test cases it builds has exactly one
  case per port and protocol, its tries end, and on a steady cluster it returns nil exactly when
  every pair of pods is connected on every port and protocol of the model.
\<close>

section \<open>The test cases\<close>

definition new_case :: "int32 \<Rightarrow> protocol \<Rightarrow> test_case" where
  "new_case port proto =
     \<lparr>tc_ToPort = sint port, tc_Protocol = proto, tc_Reachability = None, tc_ServiceType = PodIP\<rparr>"

lemma case_name_inject: "case_name p x = case_name q y \<longleftrightarrow> p = q \<and> x = y"
proof -
  have "CHR '','' \<notin> set (Itoa i)" for i using Itoa_chars [of i] by (auto simp: decimal_def)
  then have "case_name p x = case_name q y \<longleftrightarrow> Itoa (sint p) = Itoa (sint q) \<and> x = y"
    unfolding case_name_def by (simp add: sep_append_inject)
  then show ?thesis by (auto intro: signed_word_eqI)
qed

lemma fold_updates: "map_of (fold (\<lambda>(k, v) m. AList.update k v m) kvs m) = map_of m ++ map_of (rev kvs)"
  by (induction kvs arbitrary: m) (auto simp: map_of_update)

lemma fold_updates_wf: "gomap_wf m \<Longrightarrow> gomap_wf (fold (\<lambda>(k, v) m. AList.update k v m) kvs m)"
  by (induction kvs arbitrary: m) auto

definition case_entries :: "int32 list \<Rightarrow> protocol list \<Rightarrow> (string \<times> test_case) list" where
  "case_entries ports protocols =
     concat (map (\<lambda>port. map (\<lambda>proto. (case_name port proto, new_case port proto)) protocols) ports)"

lemma http_cases_fold: "http_cases ports protocols = fold (\<lambda>(k, v) m. AList.update k v m) (case_entries ports protocols) []"
proof -
  let ?upd = "\<lambda>(k, v) m. AList.update k v m"
  have "fold ?upd (map (\<lambda>proto. (case_name port proto, new_case port proto)) protocols) m =
      fold (\<lambda>proto tcs. AList.update (case_name port proto) (new_case port proto) tcs) protocols m" for port m
    by (induction protocols arbitrary: m) simp_all
  then have "fold (\<lambda>port. fold (\<lambda>proto tcs. AList.update (case_name port proto) (new_case port proto) tcs) protocols) ports m =
      fold ?upd (case_entries ports protocols) m" for m
    by (induction ports arbitrary: m) (simp_all add: case_entries_def)
  then show ?thesis by (simp add: http_cases_def new_case_def)
qed

lemma http_cases_wf: "gomap_wf (http_cases ports protocols)"
  unfolding http_cases_fold by (rule fold_updates_wf) simp

text \<open>One test case for every port and protocol.\<close>

lemma http_cases_iff:
  "(name, tc) \<in> set (http_cases ports protocols) \<longleftrightarrow>
     (\<exists>port \<in> set ports. \<exists>proto \<in> set protocols. name = case_name port proto \<and> tc = new_case port proto)"
proof -
  let ?kvs = "case_entries ports protocols"
  have mem: "(k, v) \<in> set ?kvs \<longleftrightarrow>
      (\<exists>port \<in> set ports. \<exists>proto \<in> set protocols. k = case_name port proto \<and> v = new_case port proto)" for k v
    by (auto simp: case_entries_def)
  have "map_of (http_cases ports protocols) name = map_of (rev ?kvs) name"
    by (simp add: http_cases_fold fold_updates)
  also have "\<dots> = Some tc \<longleftrightarrow> (name, tc) \<in> set ?kvs"
  proof
    assume "map_of (rev ?kvs) name = Some tc"
    then show "(name, tc) \<in> set ?kvs" by (auto dest: map_of_SomeD)
  next
    assume tc: "(name, tc) \<in> set ?kvs"
    then obtain tc' where t: "map_of (rev ?kvs) name = Some tc'"
      by (metis map_of_SomeD not_None_eq set_rev weak_map_of_SomeI)
    then have "(name, tc') \<in> set ?kvs" by (auto dest: map_of_SomeD)
    with tc have "tc' = tc" unfolding mem by (auto simp: case_name_inject)
    with t show "map_of (rev ?kvs) name = Some tc" by simp
  qed
  finally show ?thesis using gomap_lookup_iff [OF http_cases_wf] mem by metis
qed

section \<open>One case on a steady cluster\<close>

text \<open>Every pair of pods is connected in the test case.\<close>

definition all_connected ::
  "(commandImpl \<Rightarrow> string \<times> err) \<Rightarrow> pod_store \<Rightarrow> pod_ref list \<Rightarrow> model \<Rightarrow> test_case \<Rightarrow> bool" where
  "all_connected ans h pods m tc \<longleftrightarrow>
     (\<forall>f \<in> set pods. \<forall>t \<in> set pods. answer ans h (make_job h m tc False False f t))"

lemma all_connected_core [simp]:
  "all_connected ans h pods m (tc\<lparr>tc_Reachability := y\<rparr>) = all_connected ans h pods m tc"
  "all_connected ans h pods (m\<lparr>m_pods := x\<rparr>) tc = all_connected ans h pods m tc"
  by (simp_all add: all_connected_def)

definition pods_ready :: "pod_store \<Rightarrow> pod_ref list \<Rightarrow> bool" where
  "pods_ready h pods \<longleftrightarrow> (\<forall>x \<in> set pods. has_named_container (h ! x)) \<and> distinct (pod_names h pods)"

lemma http_case_steady:
  assumes E: "order_law E" "steady E ans" and pods: "AllPods m = (pods, m1)"
    and ready: "pods_ready (k_pods k) pods"
  shows "\<exists>tcs' m' w x. http_case E PF (name, tc) (tcs, notReady, m, k) =
    Inr (tcs', if map_of notReady name = Some True \<and> all_connected ans (k_pods k) pods m tc
               then AList.delete name notReady else notReady, m', k\<lparr>k_world := w\<rparr>) \<and>
    (tcs' = tcs \<or> tcs' = AList.update name (tc\<lparr>tc_Reachability := x\<rparr>) tcs) \<and> (m' = m \<or> m' = m1)"
proof (cases "map_of notReady name = Some True")
  case False
  then have "http_case E PF (name, tc) (tcs, notReady, m, k) = Inr (tcs, notReady, m, k\<lparr>k_world := k_world k\<rparr>)"
    by (simp add: http_case_def)
  with False show ?thesis
    by (intro exI [of _ tcs] exI [of _ m] exI [of _ "k_world k"] exI [of _ None]) simp
next
  case True
  let ?h = "k_pods k" and ?r = "NewReachability (k_pods k) pods True"
  let ?tc = "tc\<lparr>tc_Reachability := Some ?r\<rparr>"
  obtain y where m1: "m1 = m\<lparr>m_pods := y\<rparr>" using AllPods_twice(2) [OF pods] by blast
  have board: "ready_board ?h pods ?r"
    using ready NewReachability_over by (simp add: ready_board_def pods_ready_def)
  obtain r' w where round: "ProbePodToPodConnectivity E PF m1 ?tc False False k =
        Inr (?tc\<lparr>tc_Reachability := Some r'\<rparr>, m1, k\<lparr>k_world := w\<rparr>)"
      and r': "reach_over (pod_names ?h pods) r'" "Expected r' = Expected ?r"
      and obs: "\<forall>f \<in> set pods. \<forall>t \<in> set pods. tt_Get (Observed r') (PodString (?h ! f)) (PodString (?h ! t)) =
                  answer ans ?h (make_job ?h m tc False False f t)"
    using Probe_round [OF E AllPods_twice(1) [OF pods] board, of ?tc PF False] by (auto simp: m1)
  let ?bad = "bad_pairs False False ?h pods r' (\<lambda>f t. (answer ans ?h (make_job ?h m tc False False f t), None))"
  have wrong: "wrong_of (?tc\<lparr>tc_Reachability := Some r'\<rparr>) False False = Inr (card ?bad)"
    using wrong_of_replies [OF r'(1), of "?tc\<lparr>tc_Reachability := Some r'\<rparr>"
        "\<lambda>f t. (answer ans ?h (make_job ?h m tc False False f t), None)" False False] ready obs
    by (simp add: pods_ready_def)
  have "?bad = {(f, t). f \<in> set pods \<and> t \<in> set pods \<and> \<not> answer ans ?h (make_job ?h m tc False False f t)}"
    using NewReachability_expected [of _ ?h pods _ True] by (auto simp: bad_pairs_def r'(2) pod_names_def)
  moreover have "finite ?bad"
    by (rule finite_subset [of _ "set pods \<times> set pods"]) (auto simp: bad_pairs_def)
  ultimately have zero: "card ?bad = 0 \<longleftrightarrow> all_connected ans ?h pods m tc"
    by (auto simp: all_connected_def)
  have "http_case E PF (name, tc) (tcs, notReady, m, k) =
      Inr (AList.update name (tc\<lparr>tc_Reachability := Some r'\<rparr>) tcs,
           if all_connected ans ?h pods m tc then AList.delete name notReady else notReady, m1, k\<lparr>k_world := w\<rparr>)"
    using round wrong by (simp add: http_case_def True pods zero)
  with True show ?thesis by auto
qed

section \<open>All tries on a steady cluster\<close>

text \<open>
  The state between two cases: the store is \<open>h\<close>, the model still has its pods, and the test cases
  are those of the start, up to the reachability they hold.
\<close>

definition tries_ok ::
  "pod_store \<Rightarrow> pod_ref list \<Rightarrow> model \<Rightarrow> (string \<Rightarrow> test_case option) \<Rightarrow>
   test_cases \<times> (string, bool) gomap \<times> model \<times> 'w kube \<Rightarrow> bool" where
  "tries_ok h pods m0 core = (\<lambda>(tcs, notReady, m, k).
     k_pods k = h \<and> (\<exists>x. m = m0\<lparr>m_pods := x\<rparr>) \<and> fst (AllPods m) = pods \<and> gomap_wf tcs \<and>
     (\<forall>name. map_option (\<lambda>tc. tc\<lparr>tc_Reachability := None\<rparr>) (map_of tcs name) = core name) \<and>
     gomap_wf notReady \<and> (\<forall>name b. (name, b) \<in> set notReady \<longrightarrow> b \<and> core name \<noteq> None))"

definition core_connected ::
  "(commandImpl \<Rightarrow> string \<times> err) \<Rightarrow> pod_store \<Rightarrow> pod_ref list \<Rightarrow> model \<Rightarrow> (string \<Rightarrow> test_case option) \<Rightarrow> string \<Rightarrow> bool" where
  "core_connected ans h pods m core name \<longleftrightarrow>
     (case core name of None \<Rightarrow> False | Some tc \<Rightarrow> all_connected ans h pods m tc)"

lemma delete_keys: "fst ` set (AList.delete k m) = fst ` set m - {k}"
  by (auto simp: AList.delete_eq)

lemma http_pass_steady:
  assumes E: "order_law E" "steady E ans" and ready: "pods_ready h pods"
    and "tries_ok h pods m0 core (tcs, notReady, m, k)"
    and "\<forall>(name, tc) \<in> set xs. core name = Some (tc\<lparr>tc_Reachability := None\<rparr>)"
  shows "\<exists>tcs' notReady' m' k'. go_fold (http_case E PF) xs (tcs, notReady, m, k) = Inr (tcs', notReady', m', k') \<and>
           tries_ok h pods m0 core (tcs', notReady', m', k') \<and>
           fst ` set notReady' = {name \<in> fst ` set notReady.
              \<not> (name \<in> fst ` set xs \<and> core_connected ans h pods m0 core name)}"
  using assms(4,5)
proof (induction xs arbitrary: tcs notReady m k)
  case Nil
  then show ?case by auto
next
  case (Cons x xs)
  obtain name tc where x: "x = (name, tc)" by (cases x)
  have core: "core name = Some (tc\<lparr>tc_Reachability := None\<rparr>)" using Cons.prems(2) by (simp add: x)
  from Cons.prems(1) have ok: "k_pods k = h" "gomap_wf tcs" "gomap_wf notReady"
      "\<forall>name. map_option (\<lambda>tc. tc\<lparr>tc_Reachability := None\<rparr>) (map_of tcs name) = core name"
      "\<forall>name b. (name, b) \<in> set notReady \<longrightarrow> b \<and> core name \<noteq> None"
    and "\<exists>x. m = m0\<lparr>m_pods := x\<rparr>" and "fst (AllPods m) = pods"
    by (auto simp: tries_ok_def)
  then obtain m1 y where pods: "AllPods m = (pods, m1)" and m: "m = m0\<lparr>m_pods := y\<rparr>"
    by (metis prod.collapse)
  obtain z where m1: "m1 = m0\<lparr>m_pods := z\<rparr>" using AllPods_twice(2) [OF pods] by (auto simp: m)
  have conn: "all_connected ans h pods m tc = core_connected ans h pods m0 core name"
    by (simp add: core_connected_def core m)
  have here: "map_of notReady name = Some True \<longleftrightarrow> name \<in> fst ` set notReady"
    using ok(3,5) by (force simp: gomap_lookup_iff)
  let ?nr = "if map_of notReady name = Some True \<and> all_connected ans h pods m tc
             then AList.delete name notReady else notReady"
  obtain tcs1 m2 w v where step: "http_case E PF x (tcs, notReady, m, k) = Inr (tcs1, ?nr, m2, k\<lparr>k_world := w\<rparr>)"
    and tcs1: "tcs1 = tcs \<or> tcs1 = AList.update name (tc\<lparr>tc_Reachability := v\<rparr>) tcs" and m2: "m2 = m \<or> m2 = m1"
    using http_case_steady [OF E pods, of k PF name tc tcs notReady] ready ok(1) unfolding x by blast
  have keys: "fst ` set ?nr = {n \<in> fst ` set notReady. \<not> (n = name \<and> core_connected ans h pods m0 core n)}"
    using here by (auto simp: conn delete_keys)
  have "set ?nr \<subseteq> set notReady" by (auto simp: AList.delete_eq)
  then have nr1: "\<forall>name b. (name, b) \<in> set ?nr \<longrightarrow> b \<and> core name \<noteq> None" "gomap_wf ?nr"
    using ok(3,5) by (blast, simp)
  have tcs2: "gomap_wf tcs1" "map_option (\<lambda>tc. tc\<lparr>tc_Reachability := None\<rparr>) (map_of tcs1 n) = core n" for n
    using ok(2,4) tcs1 core by (auto simp: map_of_update)
  have m3: "\<exists>x. m2 = m0\<lparr>m_pods := x\<rparr>" "fst (AllPods m2) = pods"
    using m2 m m1 pods AllPods_twice(1) [OF pods] by auto
  have ok1: "tries_ok h pods m0 core (tcs1, ?nr, m2, k\<lparr>k_world := w\<rparr>)"
  proof -
    have "k_pods (k\<lparr>k_world := w\<rparr>) = h" using ok(1) by simp
    with nr1 tcs2 m3 show ?thesis unfolding tries_ok_def prod.case by blast
  qed
  obtain tcs' notReady' m' k' where rest:
      "go_fold (http_case E PF) xs (tcs1, ?nr, m2, k\<lparr>k_world := w\<rparr>) = Inr (tcs', notReady', m', k')"
      "tries_ok h pods m0 core (tcs', notReady', m', k')"
      "fst ` set notReady' = {n \<in> fst ` set ?nr. \<not> (n \<in> fst ` set xs \<and> core_connected ans h pods m0 core n)}"
    using Cons.IH [OF ok1] Cons.prems(2) by auto
  have "fst ` set notReady' = {n \<in> fst ` set notReady.
      \<not> (n \<in> fst ` set (x # xs) \<and> core_connected ans h pods m0 core n)}"
    unfolding rest(3) keys by (auto simp: x)
  with rest(1,2) step show ?case by (simp add: x)
qed

lemma http_tries_steady:
  assumes E: "order_law E" "steady E ans" and ready: "pods_ready h pods"
    and "tries_ok h pods m0 core (tcs, notReady, m, k)"
  shows "\<exists>e m' k'. http_tries E PF n (tcs, notReady, m, k) = Inr (e, m', k') \<and>
           (e = None \<longleftrightarrow> 0 < n \<and> (\<forall>name \<in> fst ` set notReady. core_connected ans h pods m0 core name)) \<and>
           k_pods k' = h \<and> (\<exists>x. m' = m0\<lparr>m_pods := x\<rparr>) \<and> fst (AllPods m') = pods"
  using assms(4)
proof (induction n arbitrary: tcs notReady m k)
  case 0
  then show ?case by (simp add: tries_ok_def)
next
  case (Suc n)
  from Suc.prems have wf: "gomap_wf tcs"
    and core: "\<And>name. map_option (\<lambda>tc. tc\<lparr>tc_Reachability := None\<rparr>) (map_of tcs name) = core name"
    and nr: "\<And>name b. (name, b) \<in> set notReady \<Longrightarrow> core name \<noteq> None"
    by (auto simp: tries_ok_def)
  obtain is' w where o: "goOrder E (length tcs) (k_world k) = (is', w)" by fastforce
  have set_eq: "set (in_order is' tcs) = set tcs"
    by (rule mset_eq_setD) (rule mset_goOrder [OF E(1) o])
  have cores: "\<forall>(name, tc) \<in> set (in_order is' tcs). core name = Some (tc\<lparr>tc_Reachability := None\<rparr>)"
  proof (clarify)
    fix name tc assume "(name, tc) \<in> set (in_order is' tcs)"
    then have "map_of tcs name = Some tc" by (simp add: set_eq gomap_lookup_iff [OF wf])
    with core [of name] show "core name = Some (tc\<lparr>tc_Reachability := None\<rparr>)" by simp
  qed
  have all: "name \<in> fst ` set (in_order is' tcs)" if "name \<in> fst ` set notReady" for name
  proof -
    have "core name \<noteq> None" using that nr by auto
    then obtain tc where "map_of tcs name = Some tc" using core [of name] by (cases "map_of tcs name") auto
    then have "(name, tc) \<in> set tcs" by (rule map_of_SomeD)
    then show ?thesis unfolding set_eq by force
  qed
  have "tries_ok h pods m0 core (tcs, notReady, m, k\<lparr>k_world := w\<rparr>)"
    using Suc.prems by (auto simp: tries_ok_def)
  from http_pass_steady [OF E ready this cores] obtain tcs' notReady' m' k' where
    pass: "go_fold (http_case E PF) (in_order is' tcs) (tcs, notReady, m, k\<lparr>k_world := w\<rparr>) =
             Inr (tcs', notReady', m', k')"
      "tries_ok h pods m0 core (tcs', notReady', m', k')"
    and keys0: "fst ` set notReady' = {name \<in> fst ` set notReady.
           \<not> (name \<in> fst ` set (in_order is' tcs) \<and> core_connected ans h pods m0 core name)}"
    by blast
  have keys: "fst ` set notReady' = {name \<in> fst ` set notReady. \<not> core_connected ans h pods m0 core name}"
    unfolding keys0 using all by blast
  show ?case
  proof (cases "notReady' = []")
    case True
    with keys have "\<forall>name \<in> fst ` set notReady. core_connected ans h pods m0 core name" by auto
    with True pass o show ?thesis by (simp add: tries_ok_def)
  next
    case False
    then have "fst ` set notReady' \<noteq> {}" by simp
    with keys have bad: "\<not> (\<forall>name \<in> fst ` set notReady'. core_connected ans h pods m0 core name)"
        "\<not> (\<forall>name \<in> fst ` set notReady. core_connected ans h pods m0 core name)" by auto
    obtain e m2 k2 where "http_tries E PF n (tcs', notReady', m', k') = Inr (e, m2, k2)" "e \<noteq> None"
        "k_pods k2 = h" "\<exists>x. m2 = m0\<lparr>m_pods := x\<rparr>" "fst (AllPods m2) = pods"
      using Suc.IH [OF pass(2)] bad(1) by blast
    with False pass(1) o bad(2) show ?thesis by auto
  qed
qed

text \<open>
  On a steady cluster \<open>WaitForHTTPServers\<close> returns nil exactly when every pair of pods is connected
  on every port and protocol; it never panics.
\<close>

lemma WaitForHTTPServers_steady:
  assumes E: "order_law E" "steady E ans" and ready: "pods_ready (k_pods k) pods"
    and pods: "fst (AllPods m) = pods"
    and pp: "AllPortsProtocol (k_pods k) m = Inr ((ports, protocols), m1)"
  shows "\<exists>e m' k'. WaitForHTTPServers E PF m k = Inr (e, m', k') \<and>
           (e = None \<longleftrightarrow> (\<forall>port \<in> set ports. \<forall>proto \<in> set protocols.
                           all_connected ans (k_pods k) pods m (new_case port proto))) \<and>
           k_pods k' = k_pods k \<and> m_Namespaces m' = m_Namespaces m \<and> m_dnsDomain m' = m_dnsDomain m \<and>
           fst (AllPods m') = pods"
proof -
  let ?tcs = "http_cases ports protocols"
  let ?nr = "map (\<lambda>(caseName, _). (caseName, True)) ?tcs"
  let ?core = "map_of ?tcs"
  have m1: "m1 = m \<or> (\<exists>x y. m1 = m\<lparr>m_ports := x, m_protocols := y\<rparr>)"
    using pp by (auto simp: AllPortsProtocol_def Let_def go_bind_eq_Inr_iff split: prod.splits if_splits)
  then have same: "fst (AllPods m1) = pods" "all_connected ans (k_pods k) pods m1 = all_connected ans (k_pods k) pods m"
    using pods by (auto simp: AllPods_def Let_def all_connected_def make_job_def fun_eq_iff split: option.splits)
  have keys: "fst ` set ?nr = fst ` set ?tcs" by force
  have "map fst ?nr = map fst ?tcs" by (simp add: case_prod_unfold o_def)
  then have wf: "gomap_wf ?nr" using http_cases_wf [of ports protocols] by (simp only: gomap_wf_def)
  have none: "map_option (\<lambda>tc. tc\<lparr>tc_Reachability := None\<rparr>) (?core name) = ?core name" for name
  proof (cases "?core name")
    case (Some tc)
    then have "(name, tc) \<in> set ?tcs" by (rule map_of_SomeD)
    then show ?thesis unfolding http_cases_iff by (auto simp: Some new_case_def)
  qed simp
  have ok: "tries_ok (k_pods k) pods m1 ?core (?tcs, ?nr, m1, k)"
    using wf none http_cases_wf same(1)
    by (auto simp: tries_ok_def dom_map_of_conv_image_fst [symmetric] intro: exI [of _ "m_pods m1"] weak_map_of_SomeI)
  have conn: "(\<forall>name \<in> fst ` set ?nr. core_connected ans (k_pods k) pods m1 ?core name) \<longleftrightarrow>
      (\<forall>port \<in> set ports. \<forall>proto \<in> set protocols. all_connected ans (k_pods k) pods m (new_case port proto))"
  proof -
    have "core_connected ans (k_pods k) pods m1 ?core name \<longleftrightarrow> all_connected ans (k_pods k) pods m tc"
      if "(name, tc) \<in> set ?tcs" for name tc
      using that gomap_lookup_iff [OF http_cases_wf, of ports protocols name tc] by (simp add: core_connected_def same(2))
    then have "(\<forall>name \<in> fst ` set ?nr. core_connected ans (k_pods k) pods m1 ?core name) \<longleftrightarrow>
        (\<forall>(name, tc) \<in> set ?tcs. all_connected ans (k_pods k) pods m tc)"
      unfolding keys by fastforce
    then show ?thesis using http_cases_iff [of _ _ ports protocols] by fastforce
  qed
  have "\<exists>e m' k'. http_tries E PF 10 (?tcs, ?nr, m1, k) = Inr (e, m', k') \<and>
      (e = None \<longleftrightarrow> (\<forall>name \<in> fst ` set ?nr. core_connected ans (k_pods k) pods m1 ?core name)) \<and>
      k_pods k' = k_pods k \<and> (\<exists>x. m' = m1\<lparr>m_pods := x\<rparr>) \<and> fst (AllPods m') = pods"
    using http_tries_steady [OF E ready ok, of PF 10] by (simp only: zero_less_numeral simp_thms)
  then obtain e m' k' x where t: "http_tries E PF 10 (?tcs, ?nr, m1, k) = Inr (e, m', k')"
      "e = None \<longleftrightarrow> (\<forall>name \<in> fst ` set ?nr. core_connected ans (k_pods k) pods m1 ?core name)"
      "k_pods k' = k_pods k" "m' = m1\<lparr>m_pods := x\<rparr>" "fst (AllPods m') = pods"
    by (elim exE conjE) (rule that)
  have "WaitForHTTPServers E PF m k = Inr (e, m', k')" using t(1) by (simp add: WaitForHTTPServers_def pp Let_def)
  moreover have "m_Namespaces m' = m_Namespaces m" "m_dnsDomain m' = m_dnsDomain m" using m1 t(4) by auto
  ultimately show ?thesis using t(2,3,5) unfolding conn by blast
qed

section \<open>What waiting leaves alone\<close>

lemma run_jobs_invariant:
  assumes "run_jobs probe js s = Inr (rs, s')" and "I s"
    and "\<And>j s r s'. probe j s = Inr (r, s') \<Longrightarrow> I s \<Longrightarrow> I s'"
  shows "I s'"
  using assms(1,2)
proof (induction js arbitrary: s rs)
  case (Cons j js)
  then obtain r s1 rs1 where "probe j s = Inr (r, s1)" "run_jobs probe js s1 = Inr (rs1, s')"
    by (auto simp: go_bind_eq_Inr_iff)
  with Cons assms(3) show ?case by blast
qed simp

text \<open>No probe counts pending pods.\<close>

lemma probe_one_pending: "probe_one E PF job k = Inr (r, k1) \<Longrightarrow> k_PendingPods k1 = k_PendingPods k"
  by (auto simp: probe_one_def Let_def go_bind_eq_Inr_iff split: if_splits list.splits prod.splits)

lemma Probe_pending:
  assumes "ProbePodToPodConnectivity E PF m tc reach bw k = Inr (tc1, m1, k1)"
  shows "k_PendingPods k1 = k_PendingPods k"
proof -
  obtain ps m2 qs m3 where p: "AllPods m = (ps, m2)" "AllPods m2 = (qs, m3)" by (metis prod.collapse)
  obtain "is" w where o: "goOrder E (length (all_jobs (k_pods k) m3 tc reach bw ps qs)) (k_world k) = (is, w)" by (metis prod.collapse)
  from assms obtain rs k2 where
    run: "run_jobs (probe_one E PF) (in_order is (all_jobs (k_pods k) m3 tc reach bw ps qs)) (k\<lparr>k_world := w\<rparr>) = Inr (rs, k2)"
    and "k_PendingPods k1 = k_PendingPods k2"
    by (simp add: ProbePodToPodConnectivity_def Let_def p o go_bind_eq_Inr_iff split_beta) fastforce
  moreover have "k_PendingPods k2 = k_PendingPods k"
    by (rule run_jobs_invariant [OF run, of "\<lambda>s. k_PendingPods s = k_PendingPods k"]) (simp_all add: probe_one_pending)
  ultimately show ?thesis by simp
qed

lemma http_case_pending:
  "http_case E PF x (tcs, notReady, m, k) = Inr (tcs1, notReady1, m1, k1) \<Longrightarrow> k_PendingPods k1 = k_PendingPods k"
  by (cases x) (auto simp: http_case_def go_bind_eq_Inr_iff split: if_splits prod.splits dest!: Probe_pending)

lemma http_pass_pending:
  "go_fold (http_case E PF) xs (tcs, notReady, m, k) = Inr (tcs1, notReady1, m1, k1) \<Longrightarrow> k_PendingPods k1 = k_PendingPods k"
proof (induction xs arbitrary: tcs notReady m k)
  case (Cons x xs)
  from Cons.prems obtain tcs2 notReady2 m2 k2 where
    s: "http_case E PF x (tcs, notReady, m, k) = Inr (tcs2, notReady2, m2, k2)"
      "go_fold (http_case E PF) xs (tcs2, notReady2, m2, k2) = Inr (tcs1, notReady1, m1, k1)"
    by (auto simp: go_bind_eq_Inr_iff)
  show ?case using Cons.IH [OF s(2)] http_case_pending [OF s(1)] by simp
qed simp

lemma http_tries_pending:
  "http_tries E PF n (tcs, notReady, m, k) = Inr (e, m1, k1) \<Longrightarrow> k_PendingPods k1 = k_PendingPods k"
proof (induction n arbitrary: tcs notReady m k)
  case (Suc n)
  obtain is' w where o: "goOrder E (length tcs) (k_world k) = (is', w)" by fastforce
  from Suc.prems o obtain tcs2 notReady2 m2 k2 where
    s: "go_fold (http_case E PF) (in_order is' tcs) (tcs, notReady, m, k\<lparr>k_world := w\<rparr>) = Inr (tcs2, notReady2, m2, k2)"
      "(if length notReady2 = 0 then Inr (None, m2, k2) else http_tries E PF n (tcs2, notReady2, m2, k2)) = Inr (e, m1, k1)"
    by (auto simp: go_bind_eq_Inr_iff)
  show ?case using Suc.IH [of tcs2 notReady2 m2 k2] http_pass_pending [OF s(1)] s(2) by (auto split: if_splits)
qed simp

lemma WaitForHTTPServers_pending: "WaitForHTTPServers E PF m k = Inr (e, m1, k1) \<Longrightarrow> k_PendingPods k1 = k_PendingPods k"
  by (auto simp: WaitForHTTPServers_def go_bind_eq_Inr_iff Let_def dest: http_tries_pending)

end
