(* ===== verification/Report.thy ===== *)
theory Report
  imports Demo_Client
begin

text \<open>
  \<open>cmd/report/main.go\<close>, with \<open>RunCmd\<close> of \<open>pkg/tools/helpers.go\<close>: the program that collects the last
  run of every workflow with the \<open>gh\<close> command, classifies the lines of its log, and prints a
  report. Running a command, and the \<open>jq\<close> package, are arguments of the model; what the program
  prints of errors on the way is left out.
\<close>

record workflow =
  wf_name :: string
  wf_status :: string
  wf_id :: string
  wf_lastRunID :: string
  wf_lastJobID :: string
  wf_lastJobCompletedAt :: string
  wf_passedTests :: "(string, bool) gomap"
  wf_failedTests :: "(string, bool) gomap"

record 'w report_env = "'w go_runtime" +
  cmdOutput :: "string \<Rightarrow> string list \<Rightarrow> 'w \<Rightarrow> (string \<times> err) \<times> 'w"
  cmdString :: "string \<Rightarrow> string list \<Rightarrow> string"
  errWrap :: "err \<Rightarrow> string \<Rightarrow> err"
  jqParse :: "string \<Rightarrow> nat option \<times> err"
  jqApply :: "nat \<Rightarrow> string \<Rightarrow> string \<times> err"

definition gh :: string where "gh = ''/usr/local/bin/gh''"
definition keyPassInLog :: string where "keyPassInLog = ''PASS tests''"
definition keyFailInLog :: string where "keyFailInLog = ''FAIL: tests''"

section \<open>Running a command\<close>

text \<open>On an error the output is nil, which converts to the empty string.\<close>

definition RunCmd :: "('w, 'z) report_env_scheme \<Rightarrow> string \<Rightarrow> string list \<Rightarrow> 'w \<Rightarrow> (string \<times> err) \<times> 'w" where
  "RunCmd E name args w =
     (let ((out, e), w1) = cmdOutput E name args w
      in if e \<noteq> None then (('''', errWrap E e (''failed to run cmd: '' @ cmdString E name args)), w1)
         else ((out, None), w1))"

section \<open>Reading logs\<close>

definition processLine :: "string \<Rightarrow> nat \<Rightarrow> string" where
  "processLine l index =
     (if index + 11 < length l then
        (let ll = Split CHR ''/'' (drop (index + 11) l)
         in if length ll = 2 then ll ! 1 else '''')
      else '''')"

text \<open>One line of the log; a line with both keys counts as passed.\<close>

definition log_line :: "string \<Rightarrow> workflow \<Rightarrow> workflow" where
  "log_line line wfl =
     (case Index line keyPassInLog of
        Some index \<Rightarrow>
          (let l = processLine line index
           in if l \<noteq> '''' then wfl\<lparr>wf_passedTests := AList.update l True (wf_passedTests wfl)\<rparr> else wfl)
      | None \<Rightarrow>
          (case Index line keyFailInLog of
             Some index \<Rightarrow>
               (let l = processLine line index
                in if l \<noteq> '''' then wfl\<lparr>wf_failedTests := AList.update l True (wf_failedTests wfl)\<rparr> else wfl)
           | None \<Rightarrow> wfl))"

definition process_log :: "string \<Rightarrow> workflow \<Rightarrow> workflow" where
  "process_log data wfl = fold log_line (Split (CHR 0x0A) data) wfl"

section \<open>Workflows\<close>

definition list_line :: "string \<Rightarrow> (string, workflow) gomap \<Rightarrow> (string, workflow) gomap go" where
  "list_line line wfmap =
     (if line = '''' then Inr wfmap
      else let ss = Split (CHR 0x09) line
           in if length ss < 3 then Inl IndexOutOfRange
              else let wfl = \<lparr>wf_name = TrimSpace (ss ! 0), wf_status = TrimSpace (ss ! 1),
                             wf_id = TrimSpace (ss ! 2), wf_lastRunID = '''', wf_lastJobID = '''',
                             wf_lastJobCompletedAt = '''', wf_passedTests = [], wf_failedTests = []\<rparr>
                   in Inr (AList.update (wf_id wfl) wfl wfmap))"

definition parse_list :: "string \<Rightarrow> (string, workflow) gomap go" where
  "parse_list data = go_fold list_line (Split (CHR 0x0A) data) []"

text \<open>Applying a query that was not parsed calls a method of a nil interface.\<close>

definition jq_query :: "('w, 'z) report_env_scheme \<Rightarrow> string \<Rightarrow> string \<Rightarrow> string go" where
  "jq_query E path data =
     (case fst (jqParse E path) of
        None \<Rightarrow> Inl NilDereference
      | Some opn \<Rightarrow> Inr (fst (jqApply E opn data)))"

definition collect_run :: "('w, 'z) report_env_scheme \<Rightarrow> string \<times> workflow \<Rightarrow> 'w \<Rightarrow> (workflow go \<times> 'w)" where
  "collect_run E = (\<lambda>(ident, wfl) w.
     let wf1 = wfl\<lparr>wf_passedTests := [], wf_failedTests := []\<rparr>;
         ((data, _), w1) = RunCmd E gh [''run'', ''list'', ''--workflow'', ident, ''--limit'', ''1''] w;
         ss = Split (CHR 0x09) data in
     if length ss < 3 then (Inl IndexOutOfRange, w1)
     else
       (let runID = ss ! (length ss - 3);
            wf2 = wf1\<lparr>wf_lastRunID := runID\<rparr>;
            ((data, _), w2) = RunCmd E gh [''api'',
              ''https://api.github.com/repos/K8sbykeshed/k8s-service-validator/actions/runs/'' @ runID @ ''/jobs''] w1 in
        case jq_query E ''.jobs.[0].id'' data of
          Inl p \<Rightarrow> (Inl p, w2)
        | Inr lastJobID \<Rightarrow>
            (case jq_query E ''.jobs.[0].completed_at'' data of
               Inl p \<Rightarrow> (Inl p, w2)
             | Inr completedTime \<Rightarrow>
                 (let wf3 = wf2\<lparr>wf_lastJobID := lastJobID, wf_lastJobCompletedAt := completedTime\<rparr>;
                      ((data, _), w3) = RunCmd E gh [''run'', ''view'', ''--job'', lastJobID, ''--log''] w2
                  in (Inr (process_log data wf3), w3)))))"

text \<open>The workflows are collected in the order in which the map is ranged over.\<close>

fun collect_all ::
  "('w, 'z) report_env_scheme \<Rightarrow> (string \<times> workflow) list \<Rightarrow> (string, workflow) gomap \<Rightarrow> 'w \<Rightarrow>
   (string, workflow) gomap go \<times> 'w" where
  "collect_all E [] wfmap w = (Inr wfmap, w)"
| "collect_all E (x # xs) wfmap w =
     (case collect_run E x w of
        (Inl p, w1) \<Rightarrow> (Inl p, w1)
      | (Inr wfl, w1) \<Rightarrow> collect_all E xs (AList.update (fst x) wfl wfmap) w1)"

section \<open>The report\<close>

text \<open>The lines that name the tests of a map, in the order the map is ranged over.\<close>

definition test_lines ::
  "('w, 'z) go_runtime_scheme \<Rightarrow> string \<Rightarrow> (string, bool) gomap \<Rightarrow> 'w \<Rightarrow> string list \<times> 'w" where
  "test_lines E title tests w =
     (if length tests \<noteq> 0 then
        (let (is, w1) = goOrder E (length tests) w
         in ((title @ '':'') # map (\<lambda>(t, _). ''- '' @ t) (in_order is tests), w1))
      else ([title @ '': NONE''], w))"

definition workflow_lines ::
  "('w, 'z) go_runtime_scheme \<Rightarrow> workflow \<Rightarrow> 'w \<Rightarrow> string list \<times> 'w" where
  "workflow_lines E wfl w =
     (let wfResult = (if length (wf_failedTests wfl) = 0 then ''PASSED'' else ''FAILED'');
          (passed, w1) = test_lines E ''PASSED TESTS'' (wf_passedTests wfl) w;
          (failed, w2) = test_lines E ''FAILED TESTS'' (wf_failedTests wfl) w1
      in ([(CHR 0x0A) # ''======================'',
           ''[ '' @ wfResult @ '' ] - '' @ wf_name wfl,
           ''* status: '' @ wf_status wfl @ '', action run ID: '' @ wf_lastRunID wfl @
             '', completed at: '' @ wf_lastJobCompletedAt wfl] @ passed @ failed, w2))"

fun report_lines ::
  "('w, 'z) go_runtime_scheme \<Rightarrow> (string \<times> workflow) list \<Rightarrow> 'w \<Rightarrow> string list \<times> 'w" where
  "report_lines E [] w = ([], w)"
| "report_lines E (x # xs) w =
     (let (ls, w1) = workflow_lines E (snd x) w;
          (rest, w2) = report_lines E xs w1
      in (ls @ rest, w2))"

definition generateReport ::
  "('w, 'z) go_runtime_scheme \<Rightarrow> (string, workflow) gomap \<Rightarrow> 'w \<Rightarrow> string \<times> 'w" where
  "generateReport E wfmap w =
     (let (is, w1) = goOrder E (length wfmap) w;
          (ls, w2) = report_lines E (in_order is wfmap) w1
      in (Join [CHR 0x0A]
            (''Aggregated testing report from CIs running with various CNIs and proxies:'' # ls), w2))"

text \<open>The whole program: the printed report, or \<open>None\<close> when it exits because the workflows cannot be listed.\<close>

definition report_main :: "('w, 'z) report_env_scheme \<Rightarrow> 'w \<Rightarrow> string option go \<times> 'w" where
  "report_main E w =
     (let ((data, e), w1) = RunCmd E gh [''workflow'', ''list''] w in
      if e \<noteq> None then (Inr None, w1)
      else case parse_list data of
        Inl p \<Rightarrow> (Inl p, w1)
      | Inr wfmap \<Rightarrow>
          (let (is, w2) = goOrder E (length wfmap) w1 in
           case collect_all E (in_order is wfmap) wfmap w2 of
             (Inl p, w3) \<Rightarrow> (Inl p, w3)
           | (Inr wfmap1, w3) \<Rightarrow> (let (report, w4) = generateReport E wfmap1 w3 in (Inr (Some report), w4))))"

section \<open>What a log line yields\<close>

text \<open>The text after the key and one more character, when it has exactly one slash: what follows the slash.\<close>

lemma processLine_slash:
  assumes "l = pre @ key11 @ a @ CHR ''/'' # b" and "length key11 = 11"
    and "CHR ''/'' \<notin> set a" and "CHR ''/'' \<notin> set b"
  shows "processLine l (length pre) = b"
  using assms by (simp add: processLine_def Split_append_sep Split_no_sep)

lemma processLine_no_slash: "processLine l index = '''' \<or> CHR ''/'' \<notin> set (processLine l index)"
proof (cases "index + 11 < length l \<and> length (Split CHR ''/'' (drop (index + 11) l)) = 2")
  case True
  then have "processLine l index \<in> set (Split CHR ''/'' (drop (index + 11) l))"
    by (simp add: processLine_def)
  then show ?thesis using Split_pieces by blast
qed (auto simp: processLine_def Let_def)

definition passed_in :: "string list \<Rightarrow> string set" where
  "passed_in lines =
     {t. t \<noteq> '''' \<and> (\<exists>line \<in> set lines. \<exists>i. Index line keyPassInLog = Some i \<and> processLine line i = t)}"

definition failed_in :: "string list \<Rightarrow> string set" where
  "failed_in lines =
     {t. t \<noteq> '''' \<and> (\<exists>line \<in> set lines. Index line keyPassInLog = None \<and>
                      (\<exists>i. Index line keyFailInLog = Some i \<and> processLine line i = t))}"

lemma log_lines_sets:
  "fst ` set (wf_passedTests (fold log_line lines wfl)) = fst ` set (wf_passedTests wfl) \<union> passed_in lines"
  "fst ` set (wf_failedTests (fold log_line lines wfl)) = fst ` set (wf_failedTests wfl) \<union> failed_in lines"
proof (induction lines arbitrary: wfl)
  case Nil
  {
    case 1
    show ?case by (simp add: passed_in_def)
  next
    case 2
    show ?case by (simp add: failed_in_def)
  }
next
  case (Cons line lines)
  have p: "fst ` set (wf_passedTests (log_line line wfl)) = fst ` set (wf_passedTests wfl) \<union> passed_in [line]" for wfl
    by (auto simp: log_line_def passed_in_def Let_def keys_update split: option.splits)
  have f: "fst ` set (wf_failedTests (log_line line wfl)) = fst ` set (wf_failedTests wfl) \<union> failed_in [line]" for wfl
    by (auto simp: log_line_def failed_in_def Let_def keys_update split: option.splits)
  have ps: "passed_in (line # lines) = passed_in [line] \<union> passed_in lines"
    and fs: "failed_in (line # lines) = failed_in [line] \<union> failed_in lines"
    by (auto simp: passed_in_def failed_in_def)
  {
    case 1
    show ?case unfolding fold.simps o_apply Cons(1) p ps by (rule Un_assoc)
  next
    case 2
    show ?case unfolding fold.simps o_apply Cons(2) f fs by (rule Un_assoc)
  }
qed

lemma log_lines_wf:
  "gomap_wf (wf_passedTests wfl) \<Longrightarrow> gomap_wf (wf_failedTests wfl) \<Longrightarrow>
     gomap_wf (wf_passedTests (fold log_line lines wfl)) \<and> gomap_wf (wf_failedTests (fold log_line lines wfl))"
  by (induction lines arbitrary: wfl) (simp_all add: log_line_def Let_def split: option.split)

section \<open>What the report says\<close>

text \<open>Whatever the order, the lines are the same up to the order of the workflows and tests.\<close>

definition wf_verdict :: "workflow \<Rightarrow> string" where
  "wf_verdict wfl = ''[ '' @ (if wf_failedTests wfl = [] then ''PASSED'' else ''FAILED'') @ '' ] - '' @ wf_name wfl"

definition all_test_lines :: "string \<Rightarrow> (string, bool) gomap \<Rightarrow> string list" where
  "all_test_lines title tests =
     (if tests = [] then [title @ '': NONE''] else (title @ '':'') # map (\<lambda>(t, _). ''- '' @ t) tests)"

definition all_lines :: "workflow \<Rightarrow> string list" where
  "all_lines wfl =
     [(CHR 0x0A) # ''======================'', wf_verdict wfl,
      ''* status: '' @ wf_status wfl @ '', action run ID: '' @ wf_lastRunID wfl @
        '', completed at: '' @ wf_lastJobCompletedAt wfl] @
     all_test_lines ''PASSED TESTS'' (wf_passedTests wfl) @ all_test_lines ''FAILED TESTS'' (wf_failedTests wfl)"

lemma test_lines_mset:
  assumes "order_law E"
  shows "mset (fst (test_lines E title tests w)) = mset (all_test_lines title tests)"
proof -
  obtain is' w1 where o: "goOrder E (length tests) w = (is', w1)" by fastforce
  have "mset (map f (in_order is' tests)) = mset (map f tests)" for f :: "string \<times> bool \<Rightarrow> string"
    using mset_goOrder [OF assms o] by simp
  then show ?thesis by (simp add: test_lines_def all_test_lines_def o)
qed

lemma workflow_lines_mset:
  assumes "order_law E"
  shows "mset (fst (workflow_lines E wfl w)) = mset (all_lines wfl)"
proof -
  obtain p w1 where p: "test_lines E ''PASSED TESTS'' (wf_passedTests wfl) w = (p, w1)" by fastforce
  obtain f w2 where f: "test_lines E ''FAILED TESTS'' (wf_failedTests wfl) w1 = (f, w2)" by fastforce
  have "mset p = mset (all_test_lines ''PASSED TESTS'' (wf_passedTests wfl))"
    and "mset f = mset (all_test_lines ''FAILED TESTS'' (wf_failedTests wfl))"
    using test_lines_mset [OF assms, of "''PASSED TESTS''" "wf_passedTests wfl" w]
      test_lines_mset [OF assms, of "''FAILED TESTS''" "wf_failedTests wfl" w1] p f by simp_all
  then show ?thesis by (simp add: workflow_lines_def all_lines_def wf_verdict_def p f)
qed

lemma report_lines_mset:
  assumes "order_law E"
  shows "mset (fst (report_lines E xs w)) = mset (concat (map (all_lines \<circ> snd) xs))"
proof (induction xs arbitrary: w)
  case Nil
  then show ?case by simp
next
  case (Cons x xs)
  obtain ls w1 where "workflow_lines E (snd x) w = (ls, w1)" by fastforce
  moreover obtain rest w2 where "report_lines E xs w1 = (rest, w2)" by fastforce
  ultimately show ?case
    using workflow_lines_mset [OF assms, of "snd x" w] Cons [of w1] by simp
qed

lemma mset_concat_map_cong:
  assumes "mset xs = mset ys"
  shows "mset (concat (map g xs)) = mset (concat (map g ys))"
proof -
  have "mset (concat (map g zs)) = sum_mset (image_mset (\<lambda>z. mset (g z)) (mset zs))" for zs
    by (induction zs) simp_all
  then show ?thesis using assms by simp
qed

lemma generateReport_lines:
  assumes "order_law E"
  shows "\<exists>ls. fst (generateReport E wfmap w) =
           Join [CHR 0x0A] (''Aggregated testing report from CIs running with various CNIs and proxies:'' # ls) \<and>
           mset ls = mset (concat (map (all_lines \<circ> snd) wfmap))"
proof -
  obtain is' w1 where o: "goOrder E (length wfmap) w = (is', w1)" by fastforce
  obtain ls w2 where ls: "report_lines E (in_order is' wfmap) w1 = (ls, w2)" by fastforce
  have "mset (concat (map (all_lines \<circ> snd) (in_order is' wfmap))) = mset (concat (map (all_lines \<circ> snd) wfmap))"
    by (rule mset_concat_map_cong) (rule mset_goOrder [OF assms o])
  then have "mset ls = mset (concat (map (all_lines \<circ> snd) wfmap))"
    using report_lines_mset [OF assms, of "in_order is' wfmap" w1] ls by simp
  then show ?thesis by (intro exI [of _ ls]) (simp add: generateReport_def o ls Let_def)
qed

section \<open>What failing commands do\<close>

lemma collect_run_list_fails:
  assumes "cmdOutput E gh [''run'', ''list'', ''--workflow'', ident, ''--limit'', ''1''] w = ((out, Some e), w1)"
  shows "collect_run E (ident, wfl) w = (Inl IndexOutOfRange, w1)"
  using assms by (simp add: collect_run_def RunCmd_def)

text \<open>A log that cannot be fetched reads as one without failures.\<close>

lemma process_log_empty: "process_log '''' wfl = wfl"
  by (simp add: process_log_def log_line_def keyPassInLog_def keyFailInLog_def)

lemma collect_run_shape:
  assumes "collect_run E (ident, wfl) w = (Inr wfl', w')"
  shows "\<exists>runID j time w2. wfl' = process_log (fst (fst (RunCmd E gh [''run'', ''view'', ''--job'', j, ''--log''] w2)))
           (wfl\<lparr>wf_passedTests := [], wf_failedTests := [], wf_lastRunID := runID, wf_lastJobID := j,
                wf_lastJobCompletedAt := time\<rparr>)"
proof -
  obtain data e w1 where a: "RunCmd E gh [''run'', ''list'', ''--workflow'', ident, ''--limit'', ''1''] w = ((data, e), w1)"
    by (metis surj_pair)
  let ?ss = "Split (CHR 0x09) data"
  let ?id = "?ss ! (length ?ss - 3)"
  obtain data2 e2 w2 where b: "RunCmd E gh [''api'',
      ''https://api.github.com/repos/K8sbykeshed/k8s-service-validator/actions/runs/'' @ ?id @ ''/jobs''] w1 = ((data2, e2), w2)"
    by (metis surj_pair)
  have ss: "\<not> length ?ss < 3" using assms by (auto simp: collect_run_def a)
  obtain j where j: "jq_query E ''.jobs.[0].id'' data2 = Inr j"
    using assms ss b by (cases "jq_query E ''.jobs.[0].id'' data2") (auto simp: collect_run_def a)
  obtain tm where tm: "jq_query E ''.jobs.[0].completed_at'' data2 = Inr tm"
    using assms ss b j by (cases "jq_query E ''.jobs.[0].completed_at'' data2") (auto simp: collect_run_def a)
  obtain data3 e3 w3 where c: "RunCmd E gh [''run'', ''view'', ''--job'', j, ''--log''] w2 = ((data3, e3), w3)"
    by (metis surj_pair)
  have "wfl' = process_log data3 (wfl\<lparr>wf_passedTests := [], wf_failedTests := [], wf_lastRunID := ?id,
      wf_lastJobID := j, wf_lastJobCompletedAt := tm\<rparr>)"
    using assms ss b j tm c by (auto simp: collect_run_def a Let_def)
  then show ?thesis using c by (metis fst_conv)
qed

text \<open>A log that cannot be fetched makes its workflow pass.\<close>

lemma collect_run_no_log:
  assumes "collect_run E (ident, wfl) w = (Inr wfl', w')"
    and "\<And>j w. \<exists>out e w1. cmdOutput E gh [''run'', ''view'', ''--job'', j, ''--log''] w = ((out, Some e), w1)"
  shows "wf_verdict wfl' = ''[ PASSED ] - '' @ wf_name wfl"
proof -
  have "fst (fst (RunCmd E gh [''run'', ''view'', ''--job'', j, ''--log''] w2)) = ''''" for j w2
    using assms(2) [of j w2] by (auto simp: RunCmd_def)
  with collect_run_shape [OF assms(1)] obtain runID j tm where
    "wfl' = wfl\<lparr>wf_passedTests := [], wf_failedTests := [], wf_lastRunID := runID, wf_lastJobID := j,
                wf_lastJobCompletedAt := tm\<rparr>"
    by (auto simp: process_log_empty)
  then show ?thesis by (simp add: wf_verdict_def)
qed

section \<open>Properties\<close>

text \<open>
  Reading a log adds to the passed tests the names that follow the slash on lines with the
  pass key, and to the failed tests those on lines with the fail key and without the pass key
  (which wins on lines with both), and nothing else; each test is recorded once.
\<close>

lemma log_classifies_tests:
  assumes "gomap_wf (wf_passedTests wfl)" and "gomap_wf (wf_failedTests wfl)"
  shows "fst ` set (wf_passedTests (process_log data wfl)) =
           fst ` set (wf_passedTests wfl) \<union> passed_in (Split (CHR 0x0A) data) \<and>
         fst ` set (wf_failedTests (process_log data wfl)) =
           fst ` set (wf_failedTests wfl) \<union> failed_in (Split (CHR 0x0A) data) \<and>
         gomap_wf (wf_passedTests (process_log data wfl)) \<and> gomap_wf (wf_failedTests (process_log data wfl))"
  unfolding process_log_def using log_lines_wf [OF assms] by (simp only: log_lines_sets simp_thms)

definition demo_workflow :: "string \<Rightarrow> workflow" where
  "demo_workflow name = \<lparr>wf_name = name, wf_status = ''active'', wf_id = ''7'', wf_lastRunID = '''', wf_lastJobID = '''',
     wf_lastJobCompletedAt = '''', wf_passedTests = [], wf_failedTests = []\<rparr>"

lemma demo_log_line:
  "passed_in [''- PASS tests a/udp''] = {''udp''}" "failed_in [''- PASS tests a/udp''] = {}"
proof -
  have "Index ''- PASS tests a/udp'' keyPassInLog = Some 2" by (simp add: keyPassInLog_def)
  moreover have "processLine ''- PASS tests a/udp'' 2 = ''udp''" by (simp add: processLine_def)
  ultimately show "passed_in [''- PASS tests a/udp''] = {''udp''}" "failed_in [''- PASS tests a/udp''] = {}"
    by (auto simp: passed_in_def failed_in_def)
qed

text \<open>
  A workflow whose log cannot be fetched is reported as passed: the failed command leaves an
  empty log, without failures.
\<close>

lemma missing_log_reads_as_passed:
  assumes "collect_run E (ident, wfl) w = (Inr wfl', w')"
    and "\<And>j w. \<exists>out e w1. cmdOutput E gh [''run'', ''view'', ''--job'', j, ''--log''] w = ((out, Some e), w1)"
  shows "wf_verdict wfl' = ''[ PASSED ] - '' @ wf_name wfl"
  by (rule collect_run_no_log [OF assms])

definition demo_report_env :: "nat report_env" where
  "demo_report_env =
     \<lparr>goOrder = (\<lambda>n w. ([0..<n], w)), randIntn = (\<lambda>n w. (0, w)),
      cmdOutput = (\<lambda>name args w. ((if take 2 args = [''run'', ''list''] then [CHR 0x09, CHR 0x09] else [],
        if take 2 args = [''run'', ''view''] then refused else None), w)),
      cmdString = (\<lambda>name args. name), errWrap = (\<lambda>e m. e),
      jqParse = (\<lambda>q. (Some 0, None)), jqApply = (\<lambda>n s. (s, None))\<rparr>"

lemma missing_log_reads_as_passed_example:
  "\<exists>wfl' w'. collect_run demo_report_env (''7'', demo_workflow ''kind'') 0 = (Inr wfl', w') \<and>
     wf_verdict wfl' = ''[ PASSED ] - kind''"
proof -
  have "length (Split (CHR 0x09) [CHR 0x09, CHR 0x09]) = 3" by (simp add: length_Split)
  then obtain wfl' w' where c: "collect_run demo_report_env (''7'', demo_workflow ''kind'') 0 = (Inr wfl', w')"
    by (simp add: collect_run_def RunCmd_def jq_query_def demo_report_env_def refused_def Let_def)
  have "\<exists>out e w1. cmdOutput demo_report_env gh [''run'', ''view'', ''--job'', j, ''--log''] w = ((out, Some e), w1)" for j w
    by (simp add: demo_report_env_def refused_def)
  from missing_log_reads_as_passed [OF c this] c show ?thesis by (auto simp: demo_workflow_def)
qed

end
