(* ===== verification/Report_Run.thy ===== *)
theory Report_Run
  imports Report
begin

text \<open>
  The whole run of \<open>cmd/report/main.go\<close> when \<open>gh\<close> answers: what the printed report says about each
  workflow that \<open>gh\<close> lists, from the list down to the lines of the logs. The theory \<open>Report\<close> has the
  program and what its parts compute; here they are put together.
\<close>

section \<open>When gh answers\<close>

text \<open>
  \<open>gh\<close> answers every command without an error, and the same way whenever it is asked, and the two
  queries are parsed. Nothing is assumed of the texts it prints.
\<close>

definition steady_gh :: "('w, 'z) report_env_scheme \<Rightarrow> (string list \<Rightarrow> string) \<Rightarrow> nat \<Rightarrow> nat \<Rightarrow> bool" where
  "steady_gh E out opJobID opCompletedTime \<longleftrightarrow>
     (\<forall>args w. cmdOutput E gh args w = ((out args, None), w)) \<and>
     fst (jqParse E ''.jobs.[0].id'') = Some opJobID \<and>
     fst (jqParse E ''.jobs.[0].completed_at'') = Some opCompletedTime"

definition list_args :: "string \<Rightarrow> string list" where
  "list_args ident = [''run'', ''list'', ''--workflow'', ident, ''--limit'', ''1'']"

definition last_run :: "(string list \<Rightarrow> string) \<Rightarrow> string \<Rightarrow> string" where
  "last_run out ident = (let ss = Split (CHR 0x09) (out (list_args ident)) in ss ! (length ss - 3))"

definition jobs_of_run :: "(string list \<Rightarrow> string) \<Rightarrow> string \<Rightarrow> string" where
  "jobs_of_run out ident = out [''api'',
     ''https://api.github.com/repos/K8sbykeshed/k8s-service-validator/actions/runs/'' @ last_run out ident @ ''/jobs'']"

definition last_job :: "('w, 'z) report_env_scheme \<Rightarrow> (string list \<Rightarrow> string) \<Rightarrow> nat \<Rightarrow> string \<Rightarrow> string" where
  "last_job E out opJobID ident = fst (jqApply E opJobID (jobs_of_run out ident))"

definition job_log :: "('w, 'z) report_env_scheme \<Rightarrow> (string list \<Rightarrow> string) \<Rightarrow> nat \<Rightarrow> string \<Rightarrow> string list" where
  "job_log E out opJobID ident =
     Split (CHR 0x0A) (out [''run'', ''view'', ''--job'', last_job E out opJobID ident, ''--log''])"

text \<open>What a run leaves in the map for one workflow.\<close>

definition filled :: "('w, 'z) report_env_scheme \<Rightarrow> (string list \<Rightarrow> string) \<Rightarrow> nat \<Rightarrow> nat \<Rightarrow> string \<Rightarrow> workflow \<Rightarrow> workflow" where
  "filled E out opJobID opCompletedTime ident wfl =
     fold log_line (job_log E out opJobID ident)
       (wfl\<lparr>wf_passedTests := [], wf_failedTests := [], wf_lastRunID := last_run out ident,
            wf_lastJobID := last_job E out opJobID ident,
            wf_lastJobCompletedAt := fst (jqApply E opCompletedTime (jobs_of_run out ident))\<rparr>)"

lemma collect_run_steady:
  assumes "steady_gh E out a b" and "3 \<le> length (Split (CHR 0x09) (out (list_args ident)))"
  shows "collect_run E (ident, wfl) w = (Inr (filled E out a b ident wfl), w)"
proof -
  have run: "RunCmd E gh args w = ((out args, None), w)" for args w
    using assms(1) by (simp add: steady_gh_def RunCmd_def)
  have jq: "jq_query E ''.jobs.[0].id'' data = Inr (fst (jqApply E a data))"
      "jq_query E ''.jobs.[0].completed_at'' data = Inr (fst (jqApply E b data))" for data
    using assms(1) by (simp_all add: steady_gh_def jq_query_def)
  show ?thesis
    using assms(2)
    unfolding collect_run_def filled_def job_log_def last_job_def jobs_of_run_def last_run_def list_args_def
      process_log_def Let_def
    by (simp only: run jq prod.case fst_conv snd_conv sum.case not_less [symmetric] if_False if_True simp_thms)
qed

lemma collect_all_steady:
  assumes "steady_gh E out a b"
    and "\<forall>x \<in> set xs. 3 \<le> length (Split (CHR 0x09) (out (list_args (fst x))))"
  shows "collect_all E xs wfmap w =
    (Inr (fold (\<lambda>x. AList.update (fst x) (filled E out a b (fst x) (snd x))) xs wfmap), w)"
  using assms(2)
proof (induction xs arbitrary: wfmap)
  case (Cons x xs)
  have "collect_run E x w = (Inr (filled E out a b (fst x) (snd x)), w)"
    using collect_run_steady [OF assms(1), of "fst x" "snd x" w] Cons.prems by simp
  with Cons show ?case by simp
qed simp

section \<open>The map of workflows after the run\<close>

lemma fold_update_lookup:
  assumes "gomap_wf xs"
  shows "map_of (fold (\<lambda>x. AList.update (fst x) (f (fst x) (snd x))) xs m) k =
    (case map_of xs k of Some v \<Rightarrow> Some (f k v) | None \<Rightarrow> map_of m k)"
  using assms
proof (induction xs arbitrary: m)
  case (Cons x xs)
  then have "fst x \<notin> fst ` set xs" and wf: "gomap_wf xs" by (simp_all add: gomap_wf_def)
  then have "map_of xs (fst x) = None" by (simp add: map_of_eq_None_iff)
  with Cons.IH [OF wf] show ?case
    by (cases "k = fst x") (auto simp: map_of_update split: option.splits)
qed simp

lemma fold_update_gomap_wf: "gomap_wf m \<Longrightarrow> gomap_wf (fold (\<lambda>x. AList.update (g x) (f x)) xs m)"
  by (induction xs arbitrary: m) simp_all

lemma map_of_mapk: "map_of (map (\<lambda>(k, v). (k, f k v)) m) k = map_option (f k) (map_of m k)"
  by (induction m) auto

text \<open>Each entry is replaced once, so the order does not matter.\<close>

lemma fold_update_entries:
  assumes "gomap_wf m" and "mset xs = mset m"
  shows "mset (fold (\<lambda>x. AList.update (fst x) (f (fst x) (snd x))) xs m) = mset (map (\<lambda>(k, v). (k, f k v)) m)"
proof -
  let ?r = "fold (\<lambda>x. AList.update (fst x) (f (fst x) (snd x))) xs m" and ?s = "map (\<lambda>(k, v). (k, f k v)) m"
  have "mset (map fst xs) = mset (map fst m)" using assms(2) by simp
  then have xs: "gomap_wf xs"
    using assms(1) mset_eq_imp_distinct_iff unfolding gomap_wf_def by blast
  have s: "gomap_wf ?s" using assms(1) by (simp add: gomap_wf_def o_def case_prod_unfold)
  have r: "gomap_wf ?r" by (rule fold_update_gomap_wf [OF assms(1)])
  have "map_of xs = map_of m"
    using map_of_permute [OF assms(2) xs] by simp
  then have "map_of ?r k = map_of ?s k" for k
    unfolding fold_update_lookup [OF xs] by (simp add: map_of_mapk split: option.split)
  then have "x \<in> set ?r \<longleftrightarrow> x \<in> set ?s" for x
    using gomap_lookup_iff [OF r, of "fst x" "snd x"] gomap_lookup_iff [OF s, of "fst x" "snd x"] by (simp only: prod.collapse)
  then have "set ?r = set ?s" by blast
  then show ?thesis
    using gomap_wf_distinct [OF r] gomap_wf_distinct [OF s] set_eq_iff_mset_eq_distinct by blast
qed

lemma parse_list_wf:
  assumes "parse_list data = Inr wfmap"
  shows "gomap_wf wfmap"
proof -
  have "go_fold list_line lines m = Inr m' \<Longrightarrow> gomap_wf m \<Longrightarrow> gomap_wf m'" for lines m m'
  proof (induction lines arbitrary: m)
    case (Cons l ls)
    then obtain m1 where "list_line l m = Inr m1" "go_fold list_line ls m1 = Inr m'"
      by (auto simp: go_bind_eq_Inr_iff)
    moreover have "gomap_wf m1" using calculation(1) Cons.prems(2)
      by (auto simp: list_line_def Let_def split: if_splits)
    ultimately show ?case using Cons.IH by blast
  qed simp
  with assms show ?thesis unfolding parse_list_def by fastforce
qed

text \<open>The verdict of a filled workflow is what its log says.\<close>

lemma filled_verdict:
  "wf_verdict (filled E out a b ident wfl) =
     ''[ '' @ (if failed_in (job_log E out a ident) = {} then ''PASSED'' else ''FAILED'') @ '' ] - '' @ wf_name wfl"
proof -
  have name: "wf_name (fold log_line ls v) = wf_name v" for ls v
    by (induction ls arbitrary: v) (simp_all add: log_line_def Let_def split: option.split)
  let ?v = "wfl\<lparr>wf_passedTests := [], wf_failedTests := [], wf_lastRunID := last_run out ident,
    wf_lastJobID := last_job E out a ident,
    wf_lastJobCompletedAt := fst (jqApply E b (jobs_of_run out ident))\<rparr>"
  have "fst ` set (wf_failedTests (fold log_line (job_log E out a ident) ?v)) = failed_in (job_log E out a ident)"
    unfolding log_lines_sets(2) by simp
  then have "wf_failedTests (fold log_line (job_log E out a ident) ?v) = [] \<longleftrightarrow> failed_in (job_log E out a ident) = {}"
    by auto
  then show ?thesis by (simp add: wf_verdict_def filled_def name)
qed

section \<open>Properties\<close>

text \<open>
  C22. When \<open>gh\<close> answers every command, and the answer that lists the last run of each workflow has
  three fields or more, the program prints a report: its title and then, for each workflow that
  \<open>gh workflow list\<close> lists, the same lines whatever the orders of the maps, with the tests of the
  log of the last job, and with the verdict PASSED exactly when that log has no failed test.
\<close>

theorem report_end_to_end:
  assumes "order_law E" and "steady_gh E out opJobID opCompletedTime"
    and "parse_list (out [''workflow'', ''list'']) = Inr wfmap"
    and "\<forall>x \<in> set wfmap. 3 \<le> length (Split (CHR 0x09) (out (list_args (fst x))))"
  shows "\<exists>ls w'. report_main E w = (Inr (Some (Join [CHR 0x0A]
             (''Aggregated testing report from CIs running with various CNIs and proxies:'' # ls))), w') \<and>
           mset ls = mset (concat (map (\<lambda>(ident, wfl). all_lines (filled E out opJobID opCompletedTime ident wfl)) wfmap)) \<and>
           (\<forall>(ident, wfl) \<in> set wfmap.
              (''[ '' @ (if failed_in (job_log E out opJobID ident) = {} then ''PASSED'' else ''FAILED'') @ '' ] - '' @ wf_name wfl)
                \<in> set ls)"
proof -
  let ?fill = "filled E out opJobID opCompletedTime"
  obtain is' w1 where o: "goOrder E (length wfmap) w = (is', w1)" by fastforce
  let ?xs = "in_order is' wfmap"
  have xs: "mset ?xs = mset wfmap" by (rule mset_goOrder [OF assms(1) o])
  then have "\<forall>x \<in> set ?xs. 3 \<le> length (Split (CHR 0x09) (out (list_args (fst x))))"
    using assms(4) mset_eq_setD [OF xs] by simp
  note all = collect_all_steady [OF assms(2) this]
  let ?m = "fold (\<lambda>x. AList.update (fst x) (?fill (fst x) (snd x))) ?xs wfmap"
  have m: "mset ?m = mset (map (\<lambda>(k, v). (k, ?fill k v)) wfmap)"
    by (rule fold_update_entries [OF parse_list_wf [OF assms(3)] xs])
  obtain report w2 where g: "generateReport E ?m w1 = (report, w2)" by fastforce
  then obtain ls where ls: "report = Join [CHR 0x0A]
        (''Aggregated testing report from CIs running with various CNIs and proxies:'' # ls)"
      "mset ls = mset (concat (map (all_lines \<circ> snd) ?m))"
    using generateReport_lines [OF assms(1), of ?m w1] by auto
  have "RunCmd E gh [''workflow'', ''list''] w = ((out [''workflow'', ''list''], None), w)"
    using assms(2) by (simp add: steady_gh_def RunCmd_def)
  then have main: "report_main E w = (Inr (Some report), w2)"
    by (simp add: report_main_def assms(3) o all g)
  have lines: "mset ls = mset (concat (map (\<lambda>(ident, wfl). all_lines (?fill ident wfl)) wfmap))"
    unfolding ls(2) mset_concat_map_cong [OF m] by (simp add: o_def case_prod_unfold)
  have "wf_verdict (?fill ident wfl) \<in> set ls" if "(ident, wfl) \<in> set wfmap" for ident wfl
    using mset_eq_setD [OF lines] that by (auto simp: all_lines_def intro!: bexI [of _ "(ident, wfl)"])
  then show ?thesis
    using main lines by (intro exI [of _ ls] exI [of _ w2]) (auto simp: ls(1) filled_verdict)
qed

text \<open>One workflow, whose log has a failed test.\<close>

definition demo_gh :: "string list \<Rightarrow> string" where
  "demo_gh args =
     (if args = [''workflow'', ''list''] then ''kind'' @ [CHR 0x09] @ ''active'' @ [CHR 0x09] @ ''7''
      else if args = list_args ''7'' then [CHR 0x09, CHR 0x09]
      else if take 2 args = [''run'', ''view''] then ''FAIL: tests T/udp'' else '''')"

definition demo_gh_env :: "nat report_env" where
  "demo_gh_env = demo_report_env\<lparr>cmdOutput := \<lambda>name args w. ((demo_gh args, None), w)\<rparr>"

theorem report_end_to_end_witness:
  "\<exists>ls w'. report_main demo_gh_env 0 = (Inr (Some (Join [CHR 0x0A]
      (''Aggregated testing report from CIs running with various CNIs and proxies:'' # ls))), w') \<and>
    ''[ FAILED ] - kind'' \<in> set ls"
proof -
  have "order_law demo_gh_env" by (simp add: order_law_def demo_gh_env_def demo_report_env_def)
  moreover have "steady_gh demo_gh_env demo_gh 0 0" by (simp add: steady_gh_def demo_gh_env_def demo_report_env_def)
  moreover have "parse_list (demo_gh [''workflow'', ''list'']) = Inr [(''7'', demo_workflow ''kind'')]"
    by (simp add: parse_list_def demo_gh_def list_line_def TrimSpace_def is_space_def demo_workflow_def)
  moreover have "3 \<le> length (Split (CHR 0x09) (demo_gh (list_args ''7'')))"
    by (simp add: demo_gh_def list_args_def length_Split)
  moreover have "job_log demo_gh_env demo_gh 0 ''7'' = [''FAIL: tests T/udp'']"
    by (simp add: job_log_def demo_gh_def list_args_def)
  moreover have "failed_in [''FAIL: tests T/udp''] \<noteq> {}"
  proof -
    have "Index ''FAIL: tests T/udp'' keyPassInLog = None" "Index ''FAIL: tests T/udp'' keyFailInLog = Some 0"
      by (simp_all add: keyPassInLog_def keyFailInLog_def)
    moreover have "processLine ''FAIL: tests T/udp'' 0 \<noteq> ''''" by (simp add: processLine_def)
    ultimately show ?thesis by (auto simp: failed_in_def)
  qed
  ultimately show ?thesis
    using report_end_to_end [of demo_gh_env demo_gh 0 0 "[(''7'', demo_workflow ''kind'')]" 0]
    by (auto simp: demo_workflow_def)
qed

end
