(* ===== verification/Start_Pods.thy ===== *)
theory Start_Pods
  imports Manager
begin

text \<open>
  \<open>StartPods\<close> (\<open>pkg/matrix/manager.go\<close>) as a whole: it creates every namespace with its pods, one pod
  per node, then waits for every pod of the model. The theory composes what the steps of
  \<open>Manager\<close> establish: each wait settles its own pod and leaves the other pods as they were.
\<close>

section \<open>The waits, one after the other\<close>

text \<open>What a later wait can change of a pod that was waited for before.\<close>

definition same_place :: "pod \<Rightarrow> pod \<Rightarrow> bool" where
  "same_place p q \<longleftrightarrow> p_Name q = p_Name p \<and> p_Namespace q = p_Namespace p \<and> p_NodeName q = p_NodeName p \<and>
     p_PodIP q = p_PodIP p \<and> p_HostIP q = p_HostIP p"

lemma same_place_refl [simp]: "same_place p p"
  by (simp add: same_place_def)

lemma spec_of_frame:
  assumes "spec_of E r k = (spec, k1)"
  shows "same_place (k_pods k ! x) (k_pods k1 ! x)" and "length (k_pods k1) = length (k_pods k)"
proof -
  obtain p w where s: "p_ToK8SSpec E (k_pods k ! r) (k_world k) = ((spec, p), w)"
    and k1: "k1 = k\<lparr>k_pods := (k_pods k)[r := p], k_world := w\<rparr>"
    using assms by (auto simp: spec_of_def split: prod.splits)
  have "same_place (k_pods k ! r) p"
    unfolding same_place_def by (subst (1 2 3 4 5) p_ToK8SSpec_pod(1) [OF s]) simp
  then show "same_place (k_pods k ! x) (k_pods k1 ! x)"
    by (cases "r < length (k_pods k)"; cases "x = r") (simp_all add: k1 list_update_beyond)
  show "length (k_pods k1) = length (k_pods k)" by (simp add: k1)
qed

text \<open>A wait writes its own pod, whose name and namespace stay, and no other.\<close>

definition writes_pod :: "nat \<Rightarrow> pod list \<Rightarrow> pod list \<Rightarrow> bool" where
  "writes_pod r ps ps' \<longleftrightarrow>
     (\<exists>q. ps' = ps[r := q] \<and> p_Name q = p_Name (ps ! r) \<and> p_Namespace q = p_Namespace (ps ! r))"

lemma writes_pod_intros:
  "writes_pod r ps ps"
  "writes_pod r ps (ps[r := SetNodeName a (ps ! r)])"
  "writes_pod r ps (ps[r := (SetNodeName a \<circ> SetHostIP b \<circ> SetPodIP c) (ps ! r)])"
  unfolding writes_pod_def
  by (rule exI [of _ "ps ! r"], simp) (rule exI, rule conjI, rule refl, simp add: pod_accessors)+

lemma WaitAndSetIPs_writes:
  assumes "WaitAndSetIPs E r k = (e, k')" and s: "spec_of E r k = (spec, k1)"
  shows "writes_pod r (k_pods k1) (k_pods k')"
proof -
  obtain we w2 pending2 where w:
    "WaitForPodRunningInNamespace E spec (k_world k1, k_PendingPods k1) = (we, (w2, pending2))" by (metis surj_pair)
  obtain got ge w3 where g: "GetPod E (p_Namespace (k_pods k1 ! r)) (p_Name (k_pods k1 ! r)) w2 = ((got, ge), w3)"
    by (metis surj_pair)
  show ?thesis
    using assms(1) writes_pod_intros
    by (cases got) (auto simp: WaitAndSetIPs_def s w g Let_def update_pod_def split: if_splits)
qed

lemma WaitAndSetIPs_frame:
  assumes "WaitAndSetIPs E r k = (e, k')"
  shows "x \<noteq> r \<Longrightarrow> same_place (k_pods k ! x) (k_pods k' ! x)"
    and "length (k_pods k') = length (k_pods k)"
    and "p_Name (k_pods k' ! r) = p_Name (k_pods k ! r)"
    and "p_Namespace (k_pods k' ! r) = p_Namespace (k_pods k ! r)"
proof -
  obtain spec k1 where s: "spec_of E r k = (spec, k1)" by (metis surj_pair)
  obtain q where q: "k_pods k' = (k_pods k1)[r := q]" "p_Name q = p_Name (k_pods k1 ! r)"
      "p_Namespace q = p_Namespace (k_pods k1 ! r)"
    using WaitAndSetIPs_writes [OF assms s] by (auto simp: writes_pod_def)
  then show "x \<noteq> r \<Longrightarrow> same_place (k_pods k ! x) (k_pods k' ! x)"
    and "length (k_pods k') = length (k_pods k)"
    using spec_of_frame [OF s] by simp_all
  show "p_Name (k_pods k' ! r) = p_Name (k_pods k ! r)"
    and "p_Namespace (k_pods k' ! r) = p_Namespace (k_pods k ! r)"
    using spec_of_keeps(3,4) [OF s, of r] q(2,3) unfolding q(1) by (simp_all add: nth_update_keeps)
qed

text \<open>
  A pod is settled when its addresses and its node are those the cluster reported for it, or when
  it has no node.
\<close>

definition reported :: "('w, 'z) client_scheme \<Rightarrow> pod \<Rightarrow> bool" where
  "reported E p \<longleftrightarrow>
     (\<exists>kubePod w w'. podsGet E (p_Namespace p) (p_Name p) w = ((kubePod, None), w') \<and>
        p_PodIP p = kpPodIP kubePod \<and> p_HostIP p = kpHostIP kubePod \<and> p_NodeName p = psNodeName (kpSpec kubePod))"

definition settled :: "('w, 'z) client_scheme \<Rightarrow> pod \<Rightarrow> bool" where
  "settled E p \<longleftrightarrow> reported E p \<or> p_NodeName p = ''''"

lemma settled_same_place: "settled E p \<Longrightarrow> same_place p q \<Longrightarrow> settled E q"
  unfolding settled_def reported_def same_place_def by metis

lemma WaitAndSetIPs_settles:
  assumes "wrapf_law E" and "WaitAndSetIPs E r k = (None, k')" and "r < length (k_pods k)"
  shows "settled E (k_pods k' ! r)"
proof (cases "pending_count (k_PendingPods k') (p_Name (k_pods k ! r)) < PollTimesToDeterminePendingPod")
  case True
  from WaitAndSetIPs_running [OF assms True] show ?thesis
    unfolding settled_def reported_def WaitAndSetIPs_frame(3,4) [OF assms(2)] by blast
next
  case False
  then show ?thesis
    using WaitAndSetIPs_pending(1) [OF assms] by (simp add: settled_def not_less)
qed

lemma wait_all_settles:
  assumes law: "wrapf_law E" and run: "err_loop (\<lambda>r k. Inr (WaitAndSetIPs E r k)) pods k = Inr (None, k')"
    and alloc: "\<forall>r \<in> set pods. r < length (k_pods k)" and r: "r \<in> set pods"
  shows "settled E (k_pods k' ! r)"
proof -
  let ?n = "length (k_pods k)" and ?f = "\<lambda>r k. Inr (WaitAndSetIPs E r k)"
  let ?P = "\<lambda>r s. length (k_pods s) = ?n \<longrightarrow> settled E (k_pods s ! r)"
  have len: "length (k_pods k') = ?n"
    by (rule err_loop_invariant [OF run, of "\<lambda>s. length (k_pods s) = ?n"])
      (simp_all add: WaitAndSetIPs_frame(2))
  have "?P r k'"
  proof (rule err_loop_each [OF run _ _ r])
    fix x s s' assume x: "x \<in> set pods" and "?f x s = Inr (None, s')"
    then have step: "WaitAndSetIPs E x s = (None, s')" by simp
    show "?P x s'"
      using WaitAndSetIPs_settles [OF law step] WaitAndSetIPs_frame(2) [OF step] alloc x by simp
  next
    fix x y s s' assume x: "x \<in> set pods" and P: "?P y s" and "?f x s = Inr (None, s')"
    then have step: "WaitAndSetIPs E x s = (None, s')" by simp
    show "?P y s'"
    proof (cases "x = y")
      case True
      then show ?thesis
        using WaitAndSetIPs_settles [OF law step] WaitAndSetIPs_frame(2) [OF step] alloc x by simp
    next
      case False
      then show ?thesis
        using P settled_same_place WaitAndSetIPs_frame [OF step] by metis
    qed
  qed
  with len show ?thesis by simp
qed

text \<open>Without an address only with a count that has reached the limit, and no wait lowers a count.\<close>

definition known_or_pending :: "('w, 'z) client_scheme \<Rightarrow> pending_pods \<Rightarrow> pod \<Rightarrow> bool" where
  "known_or_pending E pending p \<longleftrightarrow>
     reported E p \<or> p_NodeName p = '''' \<and> PollTimesToDeterminePendingPod \<le> pending_count pending (p_Name p)"

lemma WaitAndSetIPs_known:
  assumes "wrapf_law E" and "WaitAndSetIPs E r k = (None, k')" and "r < length (k_pods k)"
  shows "known_or_pending E (k_PendingPods k') (k_pods k' ! r)"
proof (cases "pending_count (k_PendingPods k') (p_Name (k_pods k ! r)) < PollTimesToDeterminePendingPod")
  case True
  from WaitAndSetIPs_running [OF assms True] show ?thesis
    unfolding known_or_pending_def reported_def WaitAndSetIPs_frame(3,4) [OF assms(2)] by blast
next
  case False
  then show ?thesis
    using WaitAndSetIPs_pending(1) [OF assms] WaitAndSetIPs_frame(3) [OF assms(2)] by (simp add: known_or_pending_def not_less)
qed

definition counts_up :: "pending_pods \<Rightarrow> pending_pods \<Rightarrow> bool" where
  "counts_up m m' \<longleftrightarrow> (\<forall>name. pending_count m name \<le> pending_count m' name) \<and> (gomap_wf m \<longrightarrow> gomap_wf m')"

lemma counts_up_trans: "counts_up m m' \<Longrightarrow> counts_up m' m'' \<Longrightarrow> counts_up m m''"
  unfolding counts_up_def by (meson order_trans)

lemma podRunning_counts_up:
  assumes "podRunning E name ns (w, pending) = (x, (w', pending'))"
  shows "counts_up pending pending'"
proof -
  have "pending_count pending other \<le> pending_count pending' other" for other
    using podRunning_count(1) [OF assms] podRunning_count(3) [OF assms, of other] by (cases "other = name") simp_all
  then show ?thesis using podRunning_count(4) [OF assms] by (simp add: counts_up_def)
qed

lemma WaitForPod_counts_up:
  assumes "poll_law E" and "WaitForPodRunningInNamespace E pod (w, pending) = (e, (w', pending'))"
  shows "counts_up pending pending'"
proof (cases "kpPhase pod = PodRunning")
  case True
  with assms(2) show ?thesis by (simp add: WaitForPodRunningInNamespace_def counts_up_def)
next
  case False
  then have p: "polls (podRunning E (kpName pod) (kpNamespace pod)) (w, pending) e (w', pending')"
    using poll_lawD [OF assms(1)] assms(2) by (simp add: WaitForPodRunningInNamespace_def)
  have "counts_up pending (snd (w', pending'))"
  proof (rule polls_invariant [OF p, of "\<lambda>s. counts_up pending (snd s)"])
    fix s x s1 assume up: "counts_up pending (snd s)" and "podRunning E (kpName pod) (kpNamespace pod) s = (x, s1)"
    then have "podRunning E (kpName pod) (kpNamespace pod) (fst s, snd s) = (x, (fst s1, snd s1))" by simp
    from counts_up_trans [OF up podRunning_counts_up [OF this]] show "counts_up pending (snd s1)" .
  qed (simp add: counts_up_def)
  then show ?thesis by simp
qed

lemma WaitAndSetIPs_counts_up:
  assumes "poll_law E" and "WaitAndSetIPs E r k = (e, k')"
  shows "counts_up (k_PendingPods k) (k_PendingPods k')"
proof -
  obtain spec k1 where s: "spec_of E r k = (spec, k1)" by (metis surj_pair)
  obtain we w2 pending2 where w:
    "WaitForPodRunningInNamespace E spec (k_world k1, k_PendingPods k1) = (we, (w2, pending2))" by (metis surj_pair)
  obtain got ge w3 where g: "GetPod E (p_Namespace (k_pods k1 ! r)) (p_Name (k_pods k1 ! r)) w2 = ((got, ge), w3)"
    by (metis surj_pair)
  have "k_PendingPods k' = pending2"
    using assms(2) by (cases got) (auto simp: WaitAndSetIPs_def s w g Let_def update_pod_def split: if_splits)
  then show ?thesis using WaitForPod_counts_up [OF assms(1) w] spec_of_keeps(1) [OF s] by simp
qed

lemma known_same_place:
  assumes "known_or_pending E pending p" and "same_place p q" and "counts_up pending pending'"
  shows "known_or_pending E pending' q"
  using assms unfolding known_or_pending_def reported_def same_place_def counts_up_def by (metis order_trans)

lemma wait_all_known:
  assumes laws: "wrapf_law E" "poll_law E"
    and run: "err_loop (\<lambda>r k. Inr (WaitAndSetIPs E r k)) pods k = Inr (None, k')"
    and alloc: "\<forall>r \<in> set pods. r < length (k_pods k)" and r: "r \<in> set pods"
  shows "known_or_pending E (k_PendingPods k') (k_pods k' ! r)"
proof -
  let ?n = "length (k_pods k)" and ?f = "\<lambda>r k. Inr (WaitAndSetIPs E r k)"
  let ?P = "\<lambda>r s. length (k_pods s) = ?n \<longrightarrow> known_or_pending E (k_PendingPods s) (k_pods s ! r)"
  have len: "length (k_pods k') = ?n"
    by (rule err_loop_invariant [OF run, of "\<lambda>s. length (k_pods s) = ?n"])
      (simp_all add: WaitAndSetIPs_frame(2))
  have own: "?P x s'" if "x \<in> set pods" "WaitAndSetIPs E x s = (None, s')" for x s s'
    using WaitAndSetIPs_known [OF laws(1) that(2)] WaitAndSetIPs_frame(2) [OF that(2)] alloc that(1) by simp
  have "?P r k'"
  proof (rule err_loop_each [OF run _ _ r])
    fix x y s s' assume x: "x \<in> set pods" and P: "?P y s" and "?f x s = Inr (None, s')"
    then have step: "WaitAndSetIPs E x s = (None, s')" by simp
    show "?P y s'"
    proof (cases "x = y")
      case False
      then show ?thesis
        using P known_same_place [OF _ WaitAndSetIPs_frame(1) [OF step] WaitAndSetIPs_counts_up [OF laws(2) step]]
          WaitAndSetIPs_frame(2) [OF step] by metis
    qed (use own x step in blast)
  qed (use own in simp)
  with len show ?thesis by simp
qed

lemma wait_all_counts_up:
  assumes "poll_law E" and "err_loop (\<lambda>r k. Inr (WaitAndSetIPs E r k)) pods k = Inr (e, k')"
  shows "counts_up (k_PendingPods k) (k_PendingPods k')"
proof (rule err_loop_invariant [OF assms(2), of "\<lambda>s. counts_up (k_PendingPods k) (k_PendingPods s)"])
  fix x s e s' assume "counts_up (k_PendingPods k) (k_PendingPods s)" "Inr (WaitAndSetIPs E x s) = Inr (e, s')"
  then show "counts_up (k_PendingPods k) (k_PendingPods s')"
    using WaitAndSetIPs_counts_up [OF assms(1), of x s e s'] counts_up_trans by blast
qed (simp add: counts_up_def)

section \<open>Starting the namespaces\<close>

lemma start_namespace_total: "\<exists>y. start_namespace E nodes ns k = Inr y"
  using StartPodsInNamespace_total [of ns nodes E k] by (simp add: start_namespace_def)

lemma start_namespace_keeps:
  assumes "start_namespace E nodes ns k = Inr (e, k')"
  shows "length (k_pods k') = length (k_pods k)"
    and "e = None \<Longrightarrow> length (ns_Pods ns) = length nodes \<and> 1 < length nodes"
proof -
  show "e = None \<Longrightarrow> length (ns_Pods ns) = length nodes \<and> 1 < length nodes"
    using assms by (simp add: start_namespace_def split: if_splits)
  show "length (k_pods k') = length (k_pods k)"
  proof (cases "length (ns_Pods ns) \<noteq> length nodes \<or> length nodes \<le> 1")
    case True
    with assms show ?thesis by (auto simp: start_namespace_def)
  next
    case False
    then obtain w where "k_pods k' = k_pods k \<or>
        err_loop (start_pod E nodes) (List.enumerate 0 (ns_Pods ns)) (k\<lparr>k_world := w\<rparr>) = Inr (e, k')"
      using assms
      by (auto simp: start_namespace_def StartPodsInNamespace_def Let_def split: prod.splits if_splits)
    then show ?thesis
    proof
      assume run: "err_loop (start_pod E nodes) (List.enumerate 0 (ns_Pods ns)) (k\<lparr>k_world := w\<rparr>) = Inr (e, k')"
      show ?thesis
      proof (rule err_loop_invariant [OF run, of "\<lambda>s. length (k_pods s) = length (k_pods k)"])
        fix x s e s' assume "length (k_pods s) = length (k_pods k)" "start_pod E nodes x s = Inr (e, s')"
        then show "length (k_pods s') = length (k_pods k)"
          using start_pod_nodes(1) by (cases x) fastforce
      qed simp
    qed simp
  qed
qed

lemma StartPods_total: "\<exists>e m' k'. StartPods E nodes m k = Inr (e, m', k')"
proof -
  obtain e k1 where l1: "err_loop (start_namespace E nodes) (m_Namespaces m) k = Inr (e, k1)"
    using err_loop_total [of "m_Namespaces m" "start_namespace E nodes" k] start_namespace_total
    by (metis surj_pair)
  obtain pods m1 where "AllPods m = (pods, m1)" by fastforce
  moreover obtain e2 k2 where "err_loop (\<lambda>r k. Inr (WaitAndSetIPs E r k)) pods k1 = Inr (e2, k2)"
    using err_loop_total [of pods "\<lambda>r k. Inr (WaitAndSetIPs E r k)" k1] by (metis surj_pair)
  ultimately show ?thesis using l1 by (auto simp: StartPods_def)
qed

lemma StartPods_outcome:
  assumes law: "wrapf_law E" and cache: "cache_ok m"
    and alloc: "\<forall>ns \<in> set (m_Namespaces m). ns_allocated (k_pods k) ns"
    and run: "StartPods E nodes m k = Inr (None, m', k')"
  shows "\<forall>ns \<in> set (m_Namespaces m). length (ns_Pods ns) = length nodes \<and> 1 < length nodes \<and>
           (\<forall>r \<in> set (ns_Pods ns). settled E (k_pods k' ! r))"
proof -
  obtain k1 pods where l1: "err_loop (start_namespace E nodes) (m_Namespaces m) k = Inr (None, k1)"
    and pods: "AllPods m = (pods, m')"
    and l2: "err_loop (\<lambda>r k. Inr (WaitAndSetIPs E r k)) pods k1 = Inr (None, k')"
    using run by (fastforce simp: StartPods_def go_bind_eq_Inr_iff split: if_splits prod.splits)
  have len: "length (k_pods k1) = length (k_pods k)"
    by (rule err_loop_invariant [OF l1, of "\<lambda>s. length (k_pods s) = length (k_pods k)"])
      (simp_all add: start_namespace_keeps(1))
  have set_pods: "set pods = set (all_refs (m_Namespaces m))"
    using AllPods_result(1) [OF cache pods] by (rule mset_eq_setD)
  have "settled E (k_pods k' ! r)" if "ns \<in> set (m_Namespaces m)" "r \<in> set (ns_Pods ns)" for ns r
  proof (rule wait_all_settles [OF law l2])
    show "r \<in> set pods" using that by (auto simp: set_pods all_refs_concat)
    show "\<forall>r \<in> set pods. r < length (k_pods k1)"
      using alloc by (auto simp: set_pods all_refs_concat len ns_allocated_def)
  qed
  moreover have "length (ns_Pods ns) = length nodes \<and> 1 < length nodes" if "ns \<in> set (m_Namespaces m)" for ns
    by (rule err_loop_each [OF l1 _ _ that, of "\<lambda>ns _. length (ns_Pods ns) = length nodes \<and> 1 < length nodes"])
      (auto dest: start_namespace_keeps(2))
  ultimately show ?thesis by blast
qed

lemma start_namespace_pending:
  assumes "start_namespace E nodes ns k = Inr (e, k')"
  shows "k_PendingPods k' = k_PendingPods k"
proof -
  have "k_PendingPods s' = k_PendingPods s" if "start_pod E nodes x s = Inr (e, s')" for x s e s'
    using that spec_of_keeps(1)
    by (cases x) (fastforce simp: start_pod_def update_pod_def Let_def split: if_splits prod.splits)
  then have "k_PendingPods k' = k_PendingPods k"
    if "err_loop (start_pod E nodes) xs (k\<lparr>k_world := w\<rparr>) = Inr (e, k')" for xs w
    by (intro err_loop_invariant [OF that, of "\<lambda>s. k_PendingPods s = k_PendingPods k"]) simp_all
  then show ?thesis
    using assms by (auto simp: start_namespace_def StartPodsInNamespace_def Let_def split: prod.splits if_splits)
qed

text \<open>What the waits after all starts leave: every pod is known, or its count has reached the limit.\<close>

lemma StartPods_known:
  assumes laws: "wrapf_law E" "poll_law E" and cache: "cache_ok m"
    and alloc: "\<forall>ns \<in> set (m_Namespaces m). ns_allocated (k_pods k) ns"
    and run: "StartPods E nodes m k = Inr (None, m', k')"
  shows "\<forall>r \<in> set (all_refs (m_Namespaces m)). known_or_pending E (k_PendingPods k') (k_pods k' ! r)"
    and "gomap_wf (k_PendingPods k) \<Longrightarrow> gomap_wf (k_PendingPods k')"
proof -
  obtain k1 pods where l1: "err_loop (start_namespace E nodes) (m_Namespaces m) k = Inr (None, k1)"
    and pods: "AllPods m = (pods, m')"
    and l2: "err_loop (\<lambda>r k. Inr (WaitAndSetIPs E r k)) pods k1 = Inr (None, k')"
    using run by (fastforce simp: StartPods_def go_bind_eq_Inr_iff split: if_splits prod.splits)
  have len: "length (k_pods k1) = length (k_pods k)"
    by (rule err_loop_invariant [OF l1, of "\<lambda>s. length (k_pods s) = length (k_pods k)"])
      (simp_all add: start_namespace_keeps(1))
  have set_pods: "set pods = set (all_refs (m_Namespaces m))"
    using AllPods_result(1) [OF cache pods] by (rule mset_eq_setD)
  then have range: "\<forall>r \<in> set pods. r < length (k_pods k1)"
    using alloc by (auto simp: all_refs_concat len ns_allocated_def)
  show "\<forall>r \<in> set (all_refs (m_Namespaces m)). known_or_pending E (k_PendingPods k') (k_pods k' ! r)"
    using wait_all_known [OF laws l2 range] by (simp add: set_pods)
  have "k_PendingPods k1 = k_PendingPods k"
    by (rule err_loop_invariant [OF l1, of "\<lambda>s. k_PendingPods s = k_PendingPods k"])
      (simp_all add: start_namespace_pending)
  then show "gomap_wf (k_PendingPods k) \<Longrightarrow> gomap_wf (k_PendingPods k')"
    using wait_all_counts_up [OF laws(2) l2] by (simp add: counts_up_def)
qed

section \<open>Properties\<close>

text \<open>
  C16. \<open>StartPods\<close> never panics. When it returns nil, every namespace of the model has one pod for
  each node, of which there are at least two, and every pod is settled: its addresses and its node
  are those the cluster reported for the pod of its namespace and name, or it has no node (it was
  seen pending too often).
\<close>

theorem start_pods_settles:
  assumes "wrapf_law E" and "cache_ok m" and "\<forall>ns \<in> set (m_Namespaces m). ns_allocated (k_pods k) ns"
  shows "\<exists>e m' k'. StartPods E nodes m k = Inr (e, m', k') \<and>
           (if e \<noteq> None then True
            else \<forall>ns \<in> set (m_Namespaces m). length (ns_Pods ns) = length nodes \<and> 1 < length nodes \<and>
                   (\<forall>r \<in> set (ns_Pods ns). settled E (k_pods k' ! r)))"
proof -
  obtain e m' k' where run: "StartPods E nodes m k = Inr (e, m', k')" using StartPods_total by blast
  show ?thesis
  proof (cases e)
    case None
    from StartPods_outcome [OF assms run [unfolded None]] run None show ?thesis by auto
  qed (use run in auto)
qed

definition demo_unstarted :: model where
  "demo_unstarted = \<lparr>m_pods = None, m_ports = None, m_protocols = None,
     m_Namespaces = [\<lparr>ns_Name = ''x'', ns_Pods = [0, 1]\<rparr>], m_dnsDomain = ''cluster.local''\<rparr>"

lemma demo_get: "GetPod demo_client ns name w =
    ((Some (demo_pod ns name (if w < 2 then PodPending else PodRunning)), None), w + 1)"
  by (simp add: GetPod_def demo_client_def)

lemma demo_waits_end: "fst (WaitForPodRunningInNamespace demo_client spec (w, pending)) = None"
proof -
  consider "w = 0" | "w = 1" | "2 \<le> w" by linarith
  then show ?thesis
    by cases (simp_all add: WaitForPodRunningInNamespace_def demo_client_def podRunning_def demo_pod_def
        PollTimesToDeterminePendingPod_def eval_nat_numeral Let_def)
qed

lemma demo_waits: "WaitAndSetIPs demo_client r k = (e, k') \<Longrightarrow> e = None"
proof -
  assume run: "WaitAndSetIPs demo_client r k = (e, k')"
  obtain spec k1 where s: "spec_of demo_client r k = (spec, k1)" by (metis surj_pair)
  obtain w2 pending2 where "WaitForPodRunningInNamespace demo_client spec (k_world k1, k_PendingPods k1) =
      (None, (w2, pending2))"
    using demo_waits_end [of spec "k_world k1" "k_PendingPods k1"] by (metis prod.collapse)
  with run show "e = None"
    by (auto simp: WaitAndSetIPs_def s demo_get Let_def split: if_splits)
qed

lemma demo_start_ends:
  assumes "m_Namespaces m = [ns]" and "length (ns_Pods ns) = 2"
    and "StartPods demo_client [demo_node ''n5'', demo_node ''n6''] m k = Inr (e, m', k')"
  shows "e = None"
proof -
  let ?nodes = "[demo_node ''n5'', demo_node ''n6'']"
  obtain e1 k1 where l: "start_namespace demo_client ?nodes ns k = Inr (e1, k1)"
    using start_namespace_total by (metis surj_pair)
  then have "err_loop (start_pod demo_client ?nodes) (List.enumerate 0 (ns_Pods ns)) (k\<lparr>k_world := k_world k\<rparr>) = Inr (e1, k1)"
    by (simp add: start_namespace_def StartPodsInNamespace_def demo_creates assms(2) Let_def del: err_loop.simps enumerate_simps)
  then have "e1 = None" by (rule err_loop_no_error [rotated]) (rule demo_starts)
  with l have "err_loop (start_namespace demo_client ?nodes) [ns] k = Inr (None, k1)" by simp
  moreover obtain pods m1 where "AllPods m = (pods, m1)" by fastforce
  ultimately have "\<exists>k2. err_loop (\<lambda>r k. Inr (WaitAndSetIPs demo_client r k)) pods k1 = Inr (e, k2)"
    using assms(3) by (auto simp: StartPods_def assms(1) go_bind_eq_Inr_iff)
  then show ?thesis using err_loop_no_error [of "\<lambda>r k. Inr (WaitAndSetIPs demo_client r k)"] demo_waits by blast
qed

theorem start_pods_settles_witness:
  "\<exists>m' k'. StartPods demo_client [demo_node ''n5'', demo_node ''n6''] demo_unstarted (demo_board [] 0) =
      Inr (None, m', k') \<and> settled demo_client (k_pods k' ! 0) \<and> settled demo_client (k_pods k' ! 1)"
proof -
  have "cache_ok demo_unstarted" "\<forall>ns \<in> set (m_Namespaces demo_unstarted). ns_allocated (k_pods (demo_board [] 0)) ns"
    by (simp_all add: cache_ok_def demo_unstarted_def ns_allocated_def demo_board_sel)
  from start_pods_settles [OF demo_wrapf_law this, of "[demo_node ''n5'', demo_node ''n6'']"] obtain e m' k' where
    run: "StartPods demo_client [demo_node ''n5'', demo_node ''n6''] demo_unstarted (demo_board [] 0) = Inr (e, m', k')"
    and "if e \<noteq> None then True
         else \<forall>ns \<in> set (m_Namespaces demo_unstarted). length (ns_Pods ns) = length [demo_node ''n5'', demo_node ''n6''] \<and>
                1 < length [demo_node ''n5'', demo_node ''n6''] \<and>
                (\<forall>r \<in> set (ns_Pods ns). settled demo_client (k_pods k' ! r))" by blast
  moreover have e: "e = None" by (rule demo_start_ends [where ns = "\<lparr>ns_Name = ''x'', ns_Pods = [0, 1]\<rparr>", OF _ _ run])
      (simp_all add: demo_unstarted_def)
  ultimately show ?thesis using run by (auto simp: demo_unstarted_def)
qed

end
