(* ===== verification/Service_Counter.thy ===== *)
theory Service_Counter
  imports Services
begin

text \<open>
  The process-wide counter \<open>SvcID\<close> (\<open>pkg/entities/service.go\<close>) when several goroutines make
  services at once, as a step relation: the sequential model of \<open>Services\<close> has each call of
  \<open>NewService\<close> as one step, here it has the steps of \<open>IncreaseServiceID\<close>, whose mutex guards the
  increment but neither the test for nil before it nor the read of the number that goes into the
  name. A step is one access to the shared variables by one goroutine.
\<close>

section \<open>Goroutines and the counter\<close>

text \<open>
  Where a goroutine is: before the test for nil; before the assignment of a new counter; before
  \<open>SvcID.mu.Lock()\<close>; waiting for the mutex of a counter; holding it, before \<open>defer\<close>; with the
  deferred unlock of a counter, before \<open>SvcID.ID++\<close>; in its middle, with the counter to write and the
  number loaded from it; before the deferred unlock; before the read for the name; and with the
  number it read.
\<close>

datatype svc_pc = AtCheck | AtAlloc | AtLock | Waiting nat | HasLock nat | Deferred nat
  | Loaded nat nat int | Counted nat | Unlocked | Named int

text \<open>The pointer \<open>SvcID\<close>, the counters allocated so far with their mutexes, and the goroutines.\<close>

record svc_state =
  sv_ptr :: "nat option"
  sv_ids :: "int list"
  sv_locked :: "bool list"
  sv_pcs :: "svc_pc list"

definition svc_move :: "nat \<Rightarrow> svc_pc \<Rightarrow> svc_state \<Rightarrow> svc_state" where
  "svc_move i x s = s\<lparr>sv_pcs := (sv_pcs s)[i := x]\<rparr>"

text \<open>
  The receiver of a call is evaluated when the call is made or deferred, so \<open>lock\<close> waits for the
  mutex it found and \<open>unlock\<close> releases the one it found at \<open>defer\<close>. Unlocking a mutex that is not
  locked ends the program: such a state has no step of that goroutine.
\<close>

inductive svc_step :: "svc_state \<Rightarrow> svc_state \<Rightarrow> bool" where
  check_nil: "i < length (sv_pcs s) \<Longrightarrow> sv_pcs s ! i = AtCheck \<Longrightarrow> sv_ptr s = None \<Longrightarrow>
     svc_step s (svc_move i AtAlloc s)"
| check_set: "i < length (sv_pcs s) \<Longrightarrow> sv_pcs s ! i = AtCheck \<Longrightarrow> sv_ptr s = Some c \<Longrightarrow>
     svc_step s (svc_move i AtLock s)"
| alloc: "i < length (sv_pcs s) \<Longrightarrow> sv_pcs s ! i = AtAlloc \<Longrightarrow>
     svc_step s (svc_move i AtLock (s\<lparr>sv_ptr := Some (length (sv_ids s)), sv_ids := sv_ids s @ [0],
                                       sv_locked := sv_locked s @ [False]\<rparr>))"
| call_lock: "i < length (sv_pcs s) \<Longrightarrow> sv_pcs s ! i = AtLock \<Longrightarrow> sv_ptr s = Some c \<Longrightarrow>
     svc_step s (svc_move i (Waiting c) s)"
| lock: "i < length (sv_pcs s) \<Longrightarrow> sv_pcs s ! i = Waiting c \<Longrightarrow> \<not> sv_locked s ! c \<Longrightarrow>
     svc_step s (svc_move i (HasLock c) (s\<lparr>sv_locked := (sv_locked s)[c := True]\<rparr>))"
| defer_unlock: "i < length (sv_pcs s) \<Longrightarrow> sv_pcs s ! i = HasLock c \<Longrightarrow> sv_ptr s = Some d \<Longrightarrow>
     svc_step s (svc_move i (Deferred d) s)"
| load: "i < length (sv_pcs s) \<Longrightarrow> sv_pcs s ! i = Deferred d \<Longrightarrow> sv_ptr s = Some c \<Longrightarrow>
     svc_step s (svc_move i (Loaded d c (sv_ids s ! c)) s)"
| store: "i < length (sv_pcs s) \<Longrightarrow> sv_pcs s ! i = Loaded d c m \<Longrightarrow>
     svc_step s (svc_move i (Counted d) (s\<lparr>sv_ids := (sv_ids s)[c := m + 1]\<rparr>))"
| unlock: "i < length (sv_pcs s) \<Longrightarrow> sv_pcs s ! i = Counted d \<Longrightarrow> sv_locked s ! d \<Longrightarrow>
     svc_step s (svc_move i Unlocked (s\<lparr>sv_locked := (sv_locked s)[d := False]\<rparr>))"
| read_number: "i < length (sv_pcs s) \<Longrightarrow> sv_pcs s ! i = Unlocked \<Longrightarrow> sv_ptr s = Some c \<Longrightarrow>
     svc_step s (svc_move i (Named (sv_ids s ! c)) s)"

inductive_cases svc_stepE: "svc_step s t"

inductive svc_reach :: "svc_state \<Rightarrow> svc_state \<Rightarrow> bool" for s0 where
  svc_start: "svc_reach s0 s0"
| svc_next: "svc_reach s0 s \<Longrightarrow> svc_step s t \<Longrightarrow> svc_reach s0 t"

text \<open>\<open>n\<close> goroutines about to make a service, with a counter that stands at \<open>k\<close>, or with none yet.\<close>

definition svc_ready :: "int \<Rightarrow> nat \<Rightarrow> svc_state" where
  "svc_ready k n = \<lparr>sv_ptr = Some 0, sv_ids = [k], sv_locked = [False], sv_pcs = replicate n AtCheck\<rparr>"

definition svc_fresh :: "nat \<Rightarrow> svc_state" where
  "svc_fresh n = \<lparr>sv_ptr = None, sv_ids = [], sv_locked = [], sv_pcs = replicate n AtCheck\<rparr>"

section \<open>With a counter in place no increment is lost\<close>

definition counted :: "svc_pc \<Rightarrow> bool" where
  "counted x \<longleftrightarrow> (case x of Counted _ \<Rightarrow> True | Unlocked \<Rightarrow> True | Named _ \<Rightarrow> True | _ \<Rightarrow> False)"

definition holds_lock :: "svc_pc \<Rightarrow> bool" where
  "holds_lock x \<longleftrightarrow> (case x of HasLock _ \<Rightarrow> True | Deferred _ \<Rightarrow> True | Loaded _ _ _ \<Rightarrow> True
     | Counted _ \<Rightarrow> True | _ \<Rightarrow> False)"

definition tally :: "('a \<Rightarrow> bool) \<Rightarrow> 'a list \<Rightarrow> nat" where
  "tally P xs = length (filter P xs)"

lemma tally_update:
  "i < length xs \<Longrightarrow> tally P (xs[i := y]) + (if P (xs ! i) then 1 else 0) = tally P xs + (if P y then 1 else 0)"
proof (induction xs arbitrary: i)
  case (Cons x xs)
  then show ?case by (cases i) (auto simp: tally_def)
qed simp

lemma tally_all: "\<forall>x \<in> set xs. P x \<Longrightarrow> tally P xs = length xs"
  by (simp add: tally_def)

lemma tally_others:
  "tally P xs \<le> 1 \<Longrightarrow> i < length xs \<Longrightarrow> P (xs ! i) \<Longrightarrow> z \<in> set (xs[i := y]) \<Longrightarrow> z = y \<or> \<not> P z"
proof (induction xs arbitrary: i)
  case (Cons x xs)
  show ?case
  proof (cases i)
    case 0
    with Cons.prems show ?thesis by (auto simp: tally_def filter_empty_conv)
  next
    case (Suc j)
    then have "0 < tally P xs" using Cons.prems by (auto simp: tally_def filter_empty_conv)
    with Suc Cons show ?thesis by (cases "P x") (auto simp: tally_def)
  qed
qed simp

lemma tally_positive: "i < length xs \<Longrightarrow> P (xs ! i) \<Longrightarrow> 0 < tally P xs"
  by (auto simp: tally_def filter_empty_conv)

text \<open>
  The invariant: the pointer and the one counter stay, the counter stands at its start plus the
  goroutines that have incremented it, the mutex is locked exactly while one goroutine holds it, a
  loaded number is still the counter's, and the numbers read lie between the start and the counter.
\<close>

definition svc_pc_ok :: "int \<Rightarrow> nat \<Rightarrow> svc_pc \<Rightarrow> bool" where
  "svc_pc_ok k n x \<longleftrightarrow> (case x of AtAlloc \<Rightarrow> False | Waiting c \<Rightarrow> c = 0 | HasLock c \<Rightarrow> c = 0 | Deferred d \<Rightarrow> d = 0
     | Loaded d c m \<Rightarrow> d = 0 \<and> c = 0 \<and> m = k + int n | Counted d \<Rightarrow> d = 0
     | Named m \<Rightarrow> k < m \<and> m \<le> k + int n | _ \<Rightarrow> True)"

definition svc_inv :: "int \<Rightarrow> svc_state \<Rightarrow> bool" where
  "svc_inv k s \<longleftrightarrow>
     sv_ptr s = Some 0 \<and> sv_ids s = [k + int (tally counted (sv_pcs s))] \<and>
     sv_locked s = [0 < tally holds_lock (sv_pcs s)] \<and> tally holds_lock (sv_pcs s) \<le> 1 \<and>
     (\<forall>x \<in> set (sv_pcs s). svc_pc_ok k (tally counted (sv_pcs s)) x)"

lemma svc_pc_ok_mono: "svc_pc_ok k n x \<Longrightarrow> n \<le> n' \<Longrightarrow> \<not> holds_lock x \<Longrightarrow> svc_pc_ok k n' x"
  by (auto simp: svc_pc_ok_def holds_lock_def split: svc_pc.splits)

lemma svc_inv_pc: "svc_inv k s \<Longrightarrow> i < length (sv_pcs s) \<Longrightarrow> svc_pc_ok k (tally counted (sv_pcs s)) (sv_pcs s ! i)"
  by (simp add: svc_inv_def)

text \<open>One move, told by what it does to the two tallies: only a holder of the mutex counts.\<close>

lemma svc_inv_move:
  assumes inv: "svc_inv k s" and i: "i < length (sv_pcs s)" and x: "sv_pcs s ! i = x"
    and c: "counted x \<Longrightarrow> counted y" and h: "counted y \<Longrightarrow> \<not> counted x \<Longrightarrow> holds_lock x"
    and ids: "sv_ids t = [k + int (tally counted (sv_pcs s)) + (if counted y \<and> \<not> counted x then 1 else 0)]"
    and locked: "sv_locked t = [0 < tally holds_lock ((sv_pcs s)[i := y])]"
    and holders: "tally holds_lock ((sv_pcs s)[i := y]) \<le> 1"
    and ptr: "sv_ptr t = Some 0" and pcs: "sv_pcs t = (sv_pcs s)[i := y]"
    and y: "svc_pc_ok k (tally counted ((sv_pcs s)[i := y])) y"
  shows "svc_inv k t"
proof -
  note n = tally_update [OF i, of counted y, unfolded x]
  have old: "svc_pc_ok k (tally counted (sv_pcs s)) z" if "z \<in> set (sv_pcs s)" for z
    using inv that by (simp add: svc_inv_def)
  have "svc_pc_ok k (tally counted ((sv_pcs s)[i := y])) z" if z: "z \<in> set ((sv_pcs s)[i := y])" for z
  proof (cases "counted y \<and> \<not> counted x")
    case True
    then have "z = y \<or> \<not> holds_lock z"
      using tally_others [OF _ i, of holds_lock z y] inv h z by (simp add: svc_inv_def x)
    then show ?thesis
      using y svc_pc_ok_mono [OF old, of z "tally counted ((sv_pcs s)[i := y])"] n True z
        set_update_subset_insert [of "sv_pcs s" i y] by (cases "z = y") auto
  next
    case False
    then have "tally counted ((sv_pcs s)[i := y]) = tally counted (sv_pcs s)"
      using n c by (auto split: if_splits)
    then show ?thesis using y old z set_update_subset_insert [of "sv_pcs s" i y] by auto
  qed
  moreover have "sv_ids t = [k + int (tally counted ((sv_pcs s)[i := y]))]"
    using n c unfolding ids by (auto split: if_splits)
  ultimately show ?thesis
    using ptr locked holders by (simp add: svc_inv_def pcs)
qed

lemmas svc_simps = svc_inv_def svc_move_def counted_def holds_lock_def svc_pc_ok_def

lemma svc_step_inv: "svc_step s t \<Longrightarrow> svc_inv k s \<Longrightarrow> svc_inv k t"
proof (induction rule: svc_step.induct)
  case (check_nil i s)
  then show ?case by (simp add: svc_inv_def)
next
  case (check_set i s c)
  note h = tally_update [OF check_set(1), of holds_lock AtLock, unfolded check_set(2)]
  show ?case
    by (rule svc_inv_move [OF check_set(4,1,2), of AtLock]) (use check_set h in \<open>auto simp: svc_simps\<close>)
next
  case (alloc i s)
  then show ?case using svc_inv_pc [OF alloc(3,1)] by (simp add: svc_pc_ok_def)
next
  case (call_lock i s c)
  note h = tally_update [OF call_lock(1), of holds_lock "Waiting c", unfolded call_lock(2)]
  show ?case
    by (rule svc_inv_move [OF call_lock(4,1,2), of "Waiting c"]) (use call_lock h in \<open>auto simp: svc_simps\<close>)
next
  case (lock i s c)
  note h = tally_update [OF lock(1), of holds_lock "HasLock c", unfolded lock(2)]
  have "c = 0" using svc_inv_pc [OF lock(4,1)] lock(2) by (simp add: svc_pc_ok_def)
  show ?case
    by (rule svc_inv_move [OF lock(4,1,2), of "HasLock c"]) (use lock h \<open>c = 0\<close> in \<open>auto simp: svc_simps\<close>)
next
  case (defer_unlock i s c d)
  note h = tally_update [OF defer_unlock(1), of holds_lock "Deferred d", unfolded defer_unlock(2)]
  show ?case
    by (rule svc_inv_move [OF defer_unlock(4,1,2), of "Deferred d"]) (use defer_unlock h in \<open>auto simp: svc_simps\<close>)
next
  case (load i s d c)
  let ?y = "Loaded d c (sv_ids s ! c)"
  note h = tally_update [OF load(1), of holds_lock ?y, unfolded load(2)]
  note n = tally_update [OF load(1), of counted ?y, unfolded load(2)]
  have "d = 0" using svc_inv_pc [OF load(4,1)] load(2) by (simp add: svc_pc_ok_def)
  show ?case
    by (rule svc_inv_move [OF load(4,1,2), of ?y]) (use load h n \<open>d = 0\<close> in \<open>auto simp: svc_simps\<close>)
next
  case (store i s d c m)
  note h = tally_update [OF store(1), of holds_lock "Counted d", unfolded store(2)]
  have "d = 0 \<and> c = 0 \<and> m = k + int (tally counted (sv_pcs s))"
    using svc_inv_pc [OF store(3,1)] store(2) by (simp add: svc_pc_ok_def)
  then show ?case
    by (intro svc_inv_move [OF store(3,1,2), of "Counted d"]) (use store h in \<open>auto simp: svc_simps\<close>)
next
  case (unlock i s d)
  note h = tally_update [OF unlock(1), of holds_lock Unlocked, unfolded unlock(2)]
  have "d = 0" using svc_inv_pc [OF unlock(4,1)] unlock(2) by (simp add: svc_pc_ok_def)
  show ?case
    by (rule svc_inv_move [OF unlock(4,1,2), of Unlocked]) (use unlock h \<open>d = 0\<close> in \<open>auto simp: svc_simps\<close>)
next
  case (read_number i s c)
  let ?y = "Named (sv_ids s ! c)"
  note h = tally_update [OF read_number(1), of holds_lock ?y, unfolded read_number(2)]
  note n = tally_update [OF read_number(1), of counted ?y, unfolded read_number(2)]
  have "0 < tally counted (sv_pcs s)"
    by (rule tally_positive [OF read_number(1)]) (simp add: read_number(2) counted_def)
  then show ?case
    by (intro svc_inv_move [OF read_number(4,1,2), of ?y]) (use read_number h n in \<open>auto simp: svc_simps\<close>)
qed

lemma svc_reach_inv: "svc_reach s0 s \<Longrightarrow> svc_inv k s0 \<Longrightarrow> svc_inv k s"
  by (induction rule: svc_reach.induct) (blast intro: svc_step_inv)+

lemma svc_ready_inv: "svc_inv k (svc_ready k n)"
  by (simp add: svc_inv_def svc_ready_def tally_def counted_def holds_lock_def svc_pc_ok_def)

lemma svc_reach_length: "svc_reach s0 s \<Longrightarrow> length (sv_pcs s) = length (sv_pcs s0)"
  by (induction rule: svc_reach.induct) (auto elim: svc_stepE simp: svc_move_def)

section \<open>Schedules\<close>

text \<open>
  Each goroutine has at most one next step, so a run is a list of the goroutines that take one;
  \<open>None\<close> where the chosen one waits, has ended or would end the program.
\<close>

definition svc_go :: "nat \<Rightarrow> svc_state \<Rightarrow> svc_state option" where
  "svc_go i s = (if i < length (sv_pcs s) then (case sv_pcs s ! i of
       AtCheck \<Rightarrow> Some (svc_move i (if sv_ptr s = None then AtAlloc else AtLock) s)
     | AtAlloc \<Rightarrow> Some (svc_move i AtLock (s\<lparr>sv_ptr := Some (length (sv_ids s)), sv_ids := sv_ids s @ [0],
                                            sv_locked := sv_locked s @ [False]\<rparr>))
     | AtLock \<Rightarrow> map_option (\<lambda>c. svc_move i (Waiting c) s) (sv_ptr s)
     | Waiting c \<Rightarrow> if sv_locked s ! c then None
         else Some (svc_move i (HasLock c) (s\<lparr>sv_locked := (sv_locked s)[c := True]\<rparr>))
     | HasLock c \<Rightarrow> map_option (\<lambda>d. svc_move i (Deferred d) s) (sv_ptr s)
     | Deferred d \<Rightarrow> map_option (\<lambda>c. svc_move i (Loaded d c (sv_ids s ! c)) s) (sv_ptr s)
     | Loaded d c m \<Rightarrow> Some (svc_move i (Counted d) (s\<lparr>sv_ids := (sv_ids s)[c := m + 1]\<rparr>))
     | Counted d \<Rightarrow> if sv_locked s ! d
         then Some (svc_move i Unlocked (s\<lparr>sv_locked := (sv_locked s)[d := False]\<rparr>)) else None
     | Unlocked \<Rightarrow> map_option (\<lambda>c. svc_move i (Named (sv_ids s ! c)) s) (sv_ptr s)
     | Named m \<Rightarrow> None) else None)"

fun svc_sched :: "nat list \<Rightarrow> svc_state \<Rightarrow> svc_state option" where
  "svc_sched [] s = Some s"
| "svc_sched (i # is) s = (case svc_go i s of None \<Rightarrow> None | Some t \<Rightarrow> svc_sched is t)"

lemma svc_go_step: "svc_go i s = Some t \<Longrightarrow> svc_step s t"
  by (auto simp: svc_go_def intro: svc_step.intros split: if_splits svc_pc.splits)

lemma svc_step_go: "svc_step s t \<Longrightarrow> \<exists>i < length (sv_pcs s). svc_go i s = Some t"
  by (induction rule: svc_step.induct; rule_tac x = i in exI; simp add: svc_go_def)

lemma svc_sched_reach: "svc_sched is s = Some t \<Longrightarrow> svc_reach s0 s \<Longrightarrow> svc_reach s0 t"
proof (induction "is" arbitrary: s)
  case (Cons i "is")
  then show ?case by (auto split: option.splits intro: svc_next [OF _ svc_go_step])
qed simp

text \<open>Nobody waits for ever: while a goroutine is not done, one that holds the mutex or needs none can go on.\<close>

lemma svc_inv_goes:
  assumes inv: "svc_inv k s" and i: "i < length (sv_pcs s)" and "\<forall>m. sv_pcs s ! i \<noteq> Named m"
    and free: "\<forall>c. sv_pcs s ! i = Waiting c \<longrightarrow> \<not> sv_locked s ! c"
  shows "svc_go i s \<noteq> None"
proof -
  have "holds_lock (sv_pcs s ! i) \<Longrightarrow> sv_locked s ! 0"
    using inv tally_positive [OF i, of holds_lock] by (simp add: svc_inv_def)
  then show ?thesis
    using assms svc_inv_pc [OF inv i]
    by (cases "sv_pcs s ! i") (auto simp: svc_go_def svc_inv_def svc_pc_ok_def holds_lock_def)
qed

lemma svc_inv_progress:
  assumes inv: "svc_inv k s" and "x \<in> set (sv_pcs s)" "\<forall>m. x \<noteq> Named m"
  shows "\<exists>t. svc_step s t"
proof -
  obtain i where i: "i < length (sv_pcs s)" "sv_pcs s ! i = x" using assms(2) by (auto simp: in_set_conv_nth)
  show ?thesis
  proof (cases "\<exists>c. x = Waiting c \<and> sv_locked s ! c")
    case False
    then show ?thesis using svc_inv_goes [OF inv i(1)] assms(3) i(2) svc_go_step by fastforce
  next
    case True
    then have "0 < tally holds_lock (sv_pcs s)"
      using svc_inv_pc [OF inv i(1)] inv i(2) by (auto simp: svc_inv_def svc_pc_ok_def)
    then obtain y where y: "y \<in> set (sv_pcs s)" "holds_lock y" by (auto simp: tally_def filter_empty_conv)
    then obtain j where j: "j < length (sv_pcs s)" "sv_pcs s ! j = y" by (auto simp: in_set_conv_nth)
    have "svc_go j s \<noteq> None"
      by (rule svc_inv_goes [OF inv j(1)]) (use j(2) y(2) in \<open>auto simp: holds_lock_def\<close>)
    then show ?thesis using svc_go_step by fastforce
  qed
qed

section \<open>Properties\<close>

text \<open>
  C37. However \<open>n\<close> goroutines that make services at once are interleaved, when the counter exists
  and stands at \<open>k\<close>: at most one is in the critical section; some goroutine can go on until all have
  their number; every number lies above \<open>k\<close> and is at most \<open>k + n\<close>; and when all are done the
  counter stands at \<open>k + n\<close>, so no increment is lost.
\<close>

theorem service_counter_exact:
  assumes "svc_reach (svc_ready k n) s"
  shows "length (filter holds_lock (sv_pcs s)) \<le> 1 \<and>
    ((\<forall>x \<in> set (sv_pcs s). \<exists>m. x = Named m) \<or> (\<exists>t. svc_step s t)) \<and>
    (\<forall>m. Named m \<in> set (sv_pcs s) \<longrightarrow> k < m \<and> m \<le> k + int n) \<and>
    ((\<forall>x \<in> set (sv_pcs s). \<exists>m. x = Named m) \<longrightarrow> sv_ids s = [k + int n])"
proof (intro conjI)
  have inv: "svc_inv k s" by (rule svc_reach_inv [OF assms svc_ready_inv])
  have len: "length (sv_pcs s) = n" using svc_reach_length [OF assms] by (simp add: svc_ready_def)
  have "tally counted (sv_pcs s) \<le> n" using len by (auto simp: tally_def)
  then show "\<forall>m. Named m \<in> set (sv_pcs s) \<longrightarrow> k < m \<and> m \<le> k + int n"
    using inv by (force simp: svc_inv_def svc_pc_ok_def)
  show "length (filter holds_lock (sv_pcs s)) \<le> 1" using inv by (simp add: svc_inv_def tally_def)
  show "(\<forall>x \<in> set (sv_pcs s). \<exists>m. x = Named m) \<or> (\<exists>t. svc_step s t)" using svc_inv_progress [OF inv] by blast
  show "(\<forall>x \<in> set (sv_pcs s). \<exists>m. x = Named m) \<longrightarrow> sv_ids s = [k + int n]"
    using inv len tally_all [of "sv_pcs s" counted] by (force simp: svc_inv_def counted_def)
qed

text \<open>Two goroutines, one after the other.\<close>

definition in_turn :: "nat list" where
  "in_turn = replicate 8 0 @ replicate 8 1"

theorem service_counter_exact_witness:
  "svc_sched in_turn (svc_ready 4 2) = Some \<lparr>sv_ptr = Some 0, sv_ids = [6], sv_locked = [False], sv_pcs = [Named 5, Named 6]\<rparr>
   \<and> length (filter holds_lock [Named 5, Named 6]) \<le> 1 \<and> (4::int) < 6 \<and> (6::int) \<le> 4 + int 2
   \<and> [6] = [4 + int 2]"
proof -
  define s where "s = \<lparr>sv_ptr = Some 0, sv_ids = [6], sv_locked = [False], sv_pcs = [Named 5, Named 6]\<rparr>"
  have run: "svc_sched in_turn (svc_ready 4 2) = Some s"
    by (simp add: in_turn_def svc_ready_def svc_go_def svc_move_def s_def eval_nat_numeral)
  have r: "svc_reach (svc_ready 4 2) s" by (rule svc_sched_reach [OF run svc_start])
  show ?thesis
    using run service_counter_exact [OF r] unfolding s_def by simp
qed

text \<open>The schedules of the three races below.\<close>

definition both_before_reading :: "nat list" where
  "both_before_reading = replicate 7 0 @ replicate 7 1 @ [0, 1]"

definition both_see_nil :: "nat list" where
  "both_see_nil = [0, 1] @ replicate 7 0 @ replicate 7 1 @ [1, 0]"

definition pointer_changes :: "nat list" where
  "pointer_changes = [0, 1] @ replicate 3 0 @ [1] @ replicate 3 0"

text \<open>
  C38. What the mutex does not guard can go wrong. Two goroutines that start with a counter can
  both read the number after both increments, so two services of one pod get one name; without a
  counter yet, each can make its own, so an increment is lost as well; and one can find itself
  about to unlock the mutex of a counter that nobody locked, which ends the program.
\<close>

theorem service_counter_races:
  "(\<exists>s. svc_reach (svc_ready k 2) s \<and> sv_pcs s = [Named (k + 2), Named (k + 2)]) \<and>
   (\<exists>s. svc_reach (svc_fresh 2) s \<and> sv_pcs s = [Named 1, Named 1] \<and> sv_ptr s = Some 1 \<and> sv_ids s = [1, 1]) \<and>
   (\<exists>s. svc_reach (svc_fresh 2) s \<and> sv_pcs s ! 0 = Counted 1 \<and> sv_locked s = [True, False])"
proof (intro conjI)
  have "svc_sched both_before_reading (svc_ready k 2)
     = Some \<lparr>sv_ptr = Some 0, sv_ids = [k + 1 + 1], sv_locked = [False], sv_pcs = [Named (k + 1 + 1), Named (k + 1 + 1)]\<rparr>"
    by (simp add: both_before_reading_def svc_ready_def svc_go_def svc_move_def eval_nat_numeral)
  from svc_sched_reach [OF this svc_start]
  show "\<exists>s. svc_reach (svc_ready k 2) s \<and> sv_pcs s = [Named (k + 2), Named (k + 2)]" by fastforce
  have "svc_sched both_see_nil (svc_fresh 2)
     = Some \<lparr>sv_ptr = Some 1, sv_ids = [1, 1], sv_locked = [False, False], sv_pcs = [Named 1, Named 1]\<rparr>"
    by (simp add: both_see_nil_def svc_fresh_def svc_go_def svc_move_def eval_nat_numeral)
  from svc_sched_reach [OF this svc_start]
  show "\<exists>s. svc_reach (svc_fresh 2) s \<and> sv_pcs s = [Named 1, Named 1] \<and> sv_ptr s = Some 1 \<and> sv_ids s = [1, 1]"
    by fastforce
  have "svc_sched pointer_changes (svc_fresh 2)
     = Some \<lparr>sv_ptr = Some 1, sv_ids = [0, 1], sv_locked = [True, False], sv_pcs = [Counted 1, AtLock]\<rparr>"
    by (simp add: pointer_changes_def svc_fresh_def svc_go_def svc_move_def eval_nat_numeral)
  from svc_sched_reach [OF this svc_start]
  show "\<exists>s. svc_reach (svc_fresh 2) s \<and> sv_pcs s ! 0 = Counted 1 \<and> sv_locked s = [True, False]" by fastforce
qed

end
