(* ===== verification/Model_States.thy ===== *)
theory Model_States
  imports Model
begin

text \<open>
  The states a model (\<open>pkg/matrix/model.go\<close>) goes through in a test: built with one namespace, then
  changed by its methods in any order. The step relation has one rule for each method; its guards are the
  conditions under which the tests call it, that the names of namespaces and of pods are new when
  something is added, and that a pod is removed from the namespace it is in. The invariant says what
  the rest of the program relies on: the cache of pods is in step with the namespaces, pods are told
  apart by their names, and no reference dangles. One method breaks the first of these, adding a namespace with
  image and commands while the cache is filled; a mark that the states carry records it.
\<close>

section \<open>States and steps\<close>

definition names_of_pods :: "model \<Rightarrow> pod_store \<Rightarrow> string list" where
  "names_of_pods m h = map (\<lambda>r. p_Name (h ! r)) (all_refs (m_Namespaces m))"

definition names_of_namespaces :: "model \<Rightarrow> string list" where
  "names_of_namespaces m = map ns_Name (m_Namespaces m)"

definition new_names :: "string \<Rightarrow> string list \<Rightarrow> model \<Rightarrow> pod_store \<Rightarrow> bool" where
  "new_names n podNames m h \<longleftrightarrow>
     n \<notin> set (names_of_namespaces m) \<and> distinct podNames \<and> set podNames \<inter> set (names_of_pods m h) = {}"

text \<open>The pod of that name is in the namespace of that name, or in none.\<close>

definition rightly_named :: "string \<Rightarrow> string \<Rightarrow> model \<Rightarrow> pod_store \<Rightarrow> bool" where
  "rightly_named podName n m h \<longleftrightarrow>
     (\<forall>ns \<in> set (m_Namespaces m). \<forall>r \<in> set (ns_Pods ns). p_Name (h ! r) = podName \<longrightarrow> ns_Name ns = n)"

text \<open>
  The mark is set by the one method that adds a namespace and keeps the cache, when there is a
  cache; the other two ways of adding a namespace drop the cache, and with it the mark.
\<close>

type_synonym marked = "bool \<times> model \<times> pod_store"

inductive model_step :: "marked \<Rightarrow> marked \<Rightarrow> bool" where
  add_namespace: "new_names n podNames m h \<Longrightarrow> AddNamespace n podNames ports protocols m h = (ns, m', h') \<Longrightarrow>
     model_step (stale, m, h) (False, m', h')"
| add_iperf_namespace: "new_names n podNames m h \<Longrightarrow> AddIPerfNamespace n podNames ports protocols m h = (ns, m', h') \<Longrightarrow>
     model_step (stale, m, h) (False, m', h')"
| add_namespace_with_image: "new_names n podNames m h \<Longrightarrow>
     AddNamespaceWithImageAndCommands n podNames ports protocols img cmds m h = (ns, m', h') \<Longrightarrow>
     model_step (stale, m, h) (stale \<or> m_pods m \<noteq> None, m', h')"
| all_pods: "AllPods m = (ps, m') \<Longrightarrow> model_step (stale, m, h) (stale, m', h)"
| reset_all_pods: "ResetAllPods m h = (m', h') \<Longrightarrow> model_step (stale, m, h) (stale, m', h')"
| all_ports: "AllPortsProtocol h m = Inr (pp, m') \<Longrightarrow> model_step (stale, m, h) (stale, m', h)"
| add_pod: "n \<in> set (names_of_namespaces m) \<Longrightarrow> p_Name p \<notin> set (names_of_pods m h) \<Longrightarrow> AddPod (length h) n m = Inr m' \<Longrightarrow>
     model_step (stale, m, h) (stale, m', h @ [p])"
| remove_pod: "rightly_named podName n m h \<Longrightarrow> RemovePod h podName n m = Inr (e, m') \<Longrightarrow>
     model_step (stale, m, h) (stale, m', h)"

inductive model_reach :: "marked \<Rightarrow> bool" where
  new_model: "distinct podNames \<Longrightarrow> NewModel [n] podNames ports protocols dnsDomain h = (m, h') \<Longrightarrow> model_reach (False, m, h')"
| next_model: "model_reach s \<Longrightarrow> model_step s t \<Longrightarrow> model_reach t"

section \<open>The invariant\<close>

definition model_ok :: "model \<times> pod_store \<Rightarrow> bool" where
  "model_ok s \<longleftrightarrow> (case s of (m, h) \<Rightarrow>
     cache_ok m \<and> (\<forall>r \<in> set (all_refs (m_Namespaces m)). r < length h) \<and>
     distinct (names_of_pods m h) \<and> distinct (names_of_namespaces m) \<and> (m_ports m = None \<longleftrightarrow> m_protocols m = None))"

lemma all_refs_snoc: "all_refs (nss @ [ns]) = all_refs nss @ ns_Pods ns"
  by (simp add: all_refs_concat)

text \<open>A namespace allocated behind the store extends the references and the names.\<close>

lemma model_ok_add:
  assumes ok: "model_ok (m, h)" and new: "new_names n podNames m h"
    and alloc: "alloc_namespace n pods h = (ns, h')" and names: "map p_Name pods = podNames"
    and m': "m_Namespaces m' = m_Namespaces m @ [ns]" "m_ports m' = m_ports m" "m_protocols m' = m_protocols m"
      "m_pods m' = None"
  shows "model_ok (m', h')"
proof -
  note a = alloc_namespace_pods [OF alloc]
  have old: "map (\<lambda>r. p_Name (h' ! r)) (all_refs (m_Namespaces m)) = names_of_pods m h"
    using ok by (auto simp: model_ok_def names_of_pods_def a(1) nth_append)
  have "map (\<lambda>r. p_Name (h' ! r)) (ns_Pods ns) = podNames"
    using arg_cong [OF a(2), of "map p_Name"] names by (simp add: pods_of_def o_def)
  then have "names_of_pods m' h' = names_of_pods m h @ podNames"
    using old by (simp add: names_of_pods_def m'(1) all_refs_snoc)
  moreover have "\<forall>r \<in> set (all_refs (m_Namespaces m')). r < length h'"
    using ok a by (auto simp: model_ok_def m'(1) all_refs_snoc)
  ultimately show ?thesis
    using ok new a(3) m' by (auto simp: model_ok_def new_names_def cache_ok_def names_of_namespaces_def)
qed

lemma model_ok_new:
  assumes "distinct podNames" and "NewModel [n] podNames ports protocols dnsDomain h = s"
  shows "model_ok s"
proof -
  let ?m = "\<lparr>m_pods = None, m_ports = None, m_protocols = None, m_Namespaces = [], m_dnsDomain = dnsDomain\<rparr>"
  obtain ns h' where a: "NewNamespaceWithPods n podNames ports protocols h = (ns, h')" by fastforce
  obtain pods where p: "alloc_namespace n pods h = (ns, h')" "map p_Name pods = podNames"
    using new_namespace_alloc(1) a unfolding NewNamespaceWithPods_def by metis
  have "model_ok (?m, h)" and "new_names n podNames ?m h"
    using assms(1) by (simp_all add: model_ok_def cache_ok_def names_of_pods_def names_of_namespaces_def new_names_def all_refs_concat)
  from model_ok_add [OF this p, of "fst s"] assms(2) a show ?thesis
    by (auto simp: NewModel_def Let_def)
qed

lemma model_ok_refs:
  assumes "model_ok (m, h)" and "m_pods m = Some ps"
  shows "mset ps = mset (all_refs (m_Namespaces m))" and "distinct ps"
    and "x \<in> set ps \<Longrightarrow> y \<in> set ps \<Longrightarrow> p_Name (h ! x) = p_Name (h ! y) \<Longrightarrow> x = y"
proof -
  show m: "mset ps = mset (all_refs (m_Namespaces m))" using assms by (simp add: model_ok_def cache_ok_def)
  have "mset (map (\<lambda>r. p_Name (h ! r)) ps) = mset (names_of_pods m h)" by (simp add: names_of_pods_def m)
  then have "distinct (map (\<lambda>r. p_Name (h ! r)) ps)"
    using assms(1) mset_eq_imp_distinct_iff by (fastforce simp: model_ok_def)
  then show "distinct ps" and "x \<in> set ps \<Longrightarrow> y \<in> set ps \<Longrightarrow> p_Name (h ! x) = p_Name (h ! y) \<Longrightarrow> x = y"
    by (auto simp: distinct_map inj_on_def)
qed

lemma reset_keeps: "length (fold (\<lambda>p h. h[p := p_Reset (h ! p)]) ps h) = length h \<and>
    p_Name (fold (\<lambda>p h. h[p := p_Reset (h ! p)]) ps h ! r) = p_Name (h ! r)"
proof (induction ps arbitrary: h)
  case (Cons p ps)
  show ?case using Cons [of "h[p := p_Reset (h ! p)]"]
    by (cases "p < length h"; cases "p = r") (simp_all add: p_Reset_def not_less list_update_beyond)
qed simp

lemma name_filter_one:
  "distinct (map ns_Name nss) \<Longrightarrow> n \<in> set (map ns_Name nss) \<Longrightarrow> length (filter (\<lambda>ns. ns_Name ns = n) nss) = 1"
proof (induction nss)
  case (Cons ns nss)
  show ?case
  proof (cases "ns_Name ns = n")
    case True
    with Cons.prems(1) have "filter (\<lambda>ns. ns_Name ns = n) nss = []" by (simp add: filter_empty_conv) (metis image_eqI)
    with True show ?thesis by simp
  qed (use Cons in auto)
qed simp

lemma model_ok_AddPod:
  assumes ok: "model_ok (m, h)" and n: "n \<in> set (names_of_namespaces m)" and p: "p_Name p \<notin> set (names_of_pods m h)"
    and add: "AddPod (length h) n m = Inr m'"
  shows "model_ok (m', h @ [p])"
proof -
  let ?add = "map (\<lambda>ns. if ns_Name ns = n then ns\<lparr>ns_Pods := ns_Pods ns @ [length h]\<rparr> else ns) (m_Namespaces m)"
  have one: "length (filter (\<lambda>ns. ns_Name ns = n) (m_Namespaces m)) = 1"
    using ok n name_filter_one [of "m_Namespaces m" n] by (simp add: model_ok_def names_of_namespaces_def)
  obtain ps where ps: "m_pods m = Some ps" using add by (cases "m_pods m") (simp_all add: AddPod_def)
  have m': "m' = m\<lparr>m_pods := Some (ps @ [length h]), m_Namespaces := ?add\<rparr>" using add ps by (simp add: AddPod_def)
  have refs: "mset (all_refs ?add) = add_mset (length h) (mset (all_refs (m_Namespaces m)))"
    by (rule add_to_namespaces [OF one])
  have "mset (names_of_pods m' (h @ [p])) =
      add_mset (p_Name p) (image_mset (\<lambda>r. p_Name ((h @ [p]) ! r)) (mset (all_refs (m_Namespaces m))))"
    by (simp add: names_of_pods_def m' refs)
  also have "image_mset (\<lambda>r. p_Name ((h @ [p]) ! r)) (mset (all_refs (m_Namespaces m))) = mset (names_of_pods m h)"
    using ok by (auto simp: names_of_pods_def model_ok_def nth_append intro!: image_mset_cong)
  finally have "mset (names_of_pods m' (h @ [p])) = mset (p_Name p # names_of_pods m h)" by simp
  then have "distinct (names_of_pods m' (h @ [p]))"
    using mset_eq_imp_distinct_iff [of "names_of_pods m' (h @ [p])" "p_Name p # names_of_pods m h"] ok p
    by (simp add: model_ok_def)
  moreover have "\<forall>r \<in> set (all_refs ?add). r < length (h @ [p])"
    using mset_eq_setD [of "all_refs ?add" "length h # all_refs (m_Namespaces m)"] refs ok
    by (auto simp: model_ok_def less_Suc_eq)
  moreover have "cache_ok m'" using AddPod_cache [of m ps n "length h"] ok one ps add by (auto simp: model_ok_def)
  moreover have "names_of_namespaces m' = names_of_namespaces m" by (simp add: names_of_namespaces_def m' o_def)
  ultimately show ?thesis using ok by (simp add: model_ok_def m')
qed

lemma distinct_submset:
  assumes "mset xs \<subseteq># mset ys" and "distinct ys"
  shows "distinct xs"
proof -
  obtain zs where "mset ys = mset (xs @ zs)"
    using assms(1) by (metis ex_mset mset_append subset_mset.add_diff_inverse)
  with assms(2) have "distinct (xs @ zs)" using mset_eq_imp_distinct_iff by blast
  then show ?thesis by simp
qed

lemma RemovePod_frame:
  assumes "RemovePod h podName n m = Inr (e, m')"
  shows "m_ports m' = m_ports m" and "m_protocols m' = m_protocols m" and "m_dnsDomain m' = m_dnsDomain m"
proof -
  have "m_ports m' = m_ports m \<and> m_protocols m' = m_protocols m \<and> m_dnsDomain m' = m_dnsDomain m"
  proof (cases "last_namespace n (m_Namespaces m)")
    case None
    with assms show ?thesis by (simp add: RemovePod_not_found)
  next
    case (Some j)
    then show ?thesis using assms
      by (cases "remove_loop h podName (ns_Pods (m_Namespaces m ! j))"; cases "m_pods m")
        (auto simp: RemovePod_def Let_def split: option.splits)
  qed
  then show "m_ports m' = m_ports m" and "m_protocols m' = m_protocols m" and "m_dnsDomain m' = m_dnsDomain m"
    by simp_all
qed

text \<open>On a filled cache it does not panic, and keeps what it does not remove.\<close>

lemma RemovePod_outcome:
  assumes ok: "model_ok (m, h)" and right: "rightly_named podName n m h" and ps: "m_pods m = Some ps"
  shows "\<exists>e m'. RemovePod h podName n m = Inr (e, m') \<and> model_ok (m', h) \<and> m_pods m' \<noteq> None \<and>
           names_of_namespaces m' = names_of_namespaces m \<and>
           set (all_refs (m_Namespaces m')) \<subseteq> set (all_refs (m_Namespaces m))"
proof (cases "last_namespace n (m_Namespaces m)")
  case None
  then show ?thesis using ok ps by (simp add: RemovePod_not_found)
next
  case (Some j)
  note j = last_namespace_Some [OF Some]
  let ?ns = "m_Namespaces m ! j"
  note refs = model_ok_refs [OF ok ps]
  show ?thesis
  proof (cases "\<exists>r \<in> set (ns_Pods ?ns). p_Name (h ! r) = podName")
    case True
    then obtain r where r: "r \<in> set (ns_Pods ?ns)" "p_Name (h ! r) = podName" by blast
    have "cache_ok m" using ok by (simp add: model_ok_def)
    from RemovePod_unique [OF this ps refs(3,2) Some r] obtain m' where
        rm: "RemovePod h podName n m = Inr (None, m')" and m': "cache_ok m'" "m_pods m' = Some (remove1 r ps)"
        "m_Namespaces m' = (m_Namespaces m)[j := ?ns\<lparr>ns_Pods := remove1 r (ns_Pods ?ns)\<rparr>]" by blast
    note rest = RemovePod_frame [OF rm]
    have "mset (all_refs (m_Namespaces m')) = mset (remove1 r ps)"
      using m'(1,2) by (simp add: cache_ok_def)
    then have sub: "mset (all_refs (m_Namespaces m')) \<subseteq># mset (all_refs (m_Namespaces m))"
      using refs(1) by (metis diff_subset_eq_self mset_remove1)
    have "mset (names_of_pods m' h) \<subseteq># mset (names_of_pods m h)"
      using image_mset_subseteq_mono [OF sub, of "\<lambda>r. p_Name (h ! r)"] by (simp add: names_of_pods_def)
    then have "distinct (names_of_pods m' h)"
      by (rule distinct_submset) (use ok in \<open>simp add: model_ok_def\<close>)
    moreover have names: "names_of_namespaces m' = names_of_namespaces m"
      using j(1) by (simp add: names_of_namespaces_def m'(3) map_update list_update_same_conv)
    moreover have set_sub: "set (all_refs (m_Namespaces m')) \<subseteq> set (all_refs (m_Namespaces m))"
      using set_mset_mono [OF sub] by simp
    ultimately have "model_ok (m', h)" using ok m'(1) rest by (auto simp: model_ok_def)
    with rm names set_sub m'(2) show ?thesis by simp
  next
    case False
    then have loop: "remove_loop h podName (ns_Pods ?ns) = Inr (ns_Pods ?ns)"
      by (intro remove_loop_absent) (simp add: has_name_def)
    have "\<not> has_name h podName r" if r: "r \<in> set ps" for r
    proof
      assume name: "has_name h podName r"
      from r obtain ns where ns: "ns \<in> set (m_Namespaces m)" "r \<in> set (ns_Pods ns)"
        using mset_eq_setD [OF refs(1)] by (auto simp: all_refs_concat)
      with name right have "ns_Name ns = n" by (auto simp: rightly_named_def has_name_def)
      then have "ns = ?ns" using ns(1) j ok
        by (auto simp: model_ok_def names_of_namespaces_def distinct_map inj_on_def)
      with False ns(2) name show False by (auto simp: has_name_def)
    qed
    then have "remove_first h podName ps = None" by (simp add: remove_first_None)
    then have "\<exists>e. RemovePod h podName n m = Inr (e, m)" using loop by (simp add: RemovePod_def Let_def Some ps)
    with ok ps show ?thesis by auto
  qed
qed

text \<open>No pod of that name is left.\<close>

lemma RemovePod_gone:
  assumes ok: "model_ok (m, h)" and right: "rightly_named podName n m h" and ps: "m_pods m = Some ps"
    and rm: "RemovePod h podName n m = Inr (e, m')" and r: "r \<in> set (all_refs (m_Namespaces m'))"
  shows "p_Name (h ! r) \<noteq> podName"
proof
  assume name: "p_Name (h ! r) = podName"
  have "r \<in> set (all_refs (m_Namespaces m))" using RemovePod_outcome [OF ok right ps] rm r by auto
  then obtain ns where ns: "ns \<in> set (m_Namespaces m)" "r \<in> set (ns_Pods ns)" by (auto simp: all_refs_concat)
  have n: "ns_Name ns = n" using right ns name by (auto simp: rightly_named_def)
  then obtain j where j: "last_namespace n (m_Namespaces m) = Some j"
    using last_namespace_None [of n "m_Namespaces m"] ns(1) by (cases "last_namespace n (m_Namespaces m)") auto
  then have "ns = m_Namespaces m ! j"
    using last_namespace_Some [OF j] ns(1) n ok by (auto simp: model_ok_def names_of_namespaces_def distinct_map inj_on_def)
  note refs = model_ok_refs [OF ok ps]
  have "cache_ok m" using ok by (simp add: model_ok_def)
  moreover have "r \<in> set (ns_Pods (m_Namespaces m ! j))" using ns(2) \<open>ns = m_Namespaces m ! j\<close> by simp
  ultimately obtain m1 where "RemovePod h podName n m = Inr (None, m1)" "cache_ok m1" "m_pods m1 = Some (remove1 r ps)"
    using RemovePod_unique [OF _ ps refs(3,2) j _ name] by blast
  with rm have "cache_ok m'" "m_pods m' = Some (remove1 r ps)" by simp_all
  then have "set (all_refs (m_Namespaces m')) = set (remove1 r ps)"
    by (intro mset_eq_setD) (simp add: cache_ok_def)
  with r refs(2) show False by simp
qed

lemma model_ok_RemovePod:
  assumes ok: "model_ok (m, h)" and right: "rightly_named podName n m h"
    and rm: "RemovePod h podName n m = Inr (e, m')"
  shows "model_ok (m', h)"
proof (cases "m_pods m")
  case None
  then have "last_namespace n (m_Namespaces m) = None"
    using rm RemovePod_nil_cache [of m n h podName] by force
  then show ?thesis using ok rm by (simp add: RemovePod_not_found)
next
  case (Some ps)
  from RemovePod_outcome [OF ok right this] rm show ?thesis by auto
qed

lemma model_ok_cached:
  assumes "model_ok (m, h)" and "AllPods m = (ps, m')"
  shows "model_ok (m', h)" and "m_Namespaces m' = m_Namespaces m"
proof -
  have "cache_ok m" using assms(1) by (simp add: model_ok_def)
  note a = AllPods_result [OF this assms(2)]
  show "m_Namespaces m' = m_Namespaces m" by (simp add: a(2))
  show "model_ok (m', h)" using assms(1) a(2,3)
    by (simp add: model_ok_def names_of_pods_def names_of_namespaces_def)
qed

section \<open>A cache that misses pods\<close>

text \<open>What the invariant says of a model without its cache, and of a cache that may miss pods.\<close>

definition base_ok :: "model \<Rightarrow> pod_store \<Rightarrow> bool" where
  "base_ok m h \<longleftrightarrow> model_ok (m\<lparr>m_pods := None\<rparr>, h)"

definition cache_within :: "model \<Rightarrow> bool" where
  "cache_within m \<longleftrightarrow> (\<forall>ps. m_pods m = Some ps \<longrightarrow> mset ps \<subseteq># mset (all_refs (m_Namespaces m)))"

lemma base_ok_alt:
  "base_ok m h \<longleftrightarrow> (\<forall>r \<in> set (all_refs (m_Namespaces m)). r < length h) \<and> distinct (names_of_pods m h) \<and>
     distinct (names_of_namespaces m) \<and> (m_ports m = None \<longleftrightarrow> m_protocols m = None)"
  by (simp add: base_ok_def model_ok_def cache_ok_def names_of_pods_def names_of_namespaces_def)

lemma model_ok_base: "model_ok (m, h) \<longleftrightarrow> cache_ok m \<and> base_ok m h"
  by (auto simp: model_ok_def base_ok_alt)

lemma cache_ok_within: "cache_ok m \<Longrightarrow> cache_within m"
  by (simp add: cache_ok_def cache_within_def)

lemma base_ok_add:
  assumes "base_ok m h" and "new_names n podNames m h" and "alloc_namespace n pods h = (ns, h')" and "map p_Name pods = podNames"
    and "m_Namespaces m' = m_Namespaces m @ [ns]" "m_ports m' = m_ports m" "m_protocols m' = m_protocols m"
  shows "base_ok m' h'"
proof -
  have "new_names n podNames (m\<lparr>m_pods := None\<rparr>) h"
    using assms(2) by (simp add: new_names_def names_of_pods_def names_of_namespaces_def)
  from model_ok_add [OF assms(1) [unfolded base_ok_def] this assms(3,4), of "m'\<lparr>m_pods := None\<rparr>"] assms(5-7)
  show ?thesis by (simp add: base_ok_def)
qed

text \<open>The namespaces and the names after adding a pod do not depend on what the cache holds.\<close>

lemma base_ok_AddPod:
  assumes base: "base_ok m h" and n: "n \<in> set (names_of_namespaces m)" and p: "p_Name p \<notin> set (names_of_pods m h)"
    and add: "AddPod (length h) n m = Inr m'"
  shows "base_ok m' (h @ [p])" and "cache_within m \<Longrightarrow> cache_within m'"
proof -
  let ?full = "m\<lparr>m_pods := Some (all_refs (m_Namespaces m))\<rparr>"
  obtain ps where ps: "m_pods m = Some ps" using add by (cases "m_pods m") (simp_all add: AddPod_def)
  have "model_ok (?full, h)"
    using base by (simp add: model_ok_def base_ok_alt cache_ok_def names_of_pods_def names_of_namespaces_def)
  moreover obtain m1 where m1: "AddPod (length h) n ?full = Inr m1" by (simp add: AddPod_def)
  ultimately have "model_ok (m1, h @ [p])"
    using model_ok_AddPod [of ?full h n p m1] n p by (simp add: names_of_pods_def names_of_namespaces_def)
  moreover have "m_Namespaces m1 = m_Namespaces m'" "m_ports m1 = m_ports m'" "m_protocols m1 = m_protocols m'"
    using m1 add ps by (auto simp: AddPod_def)
  ultimately show "base_ok m' (h @ [p])"
    unfolding model_ok_base by (simp add: base_ok_alt names_of_pods_def names_of_namespaces_def)
  have "length (filter (\<lambda>ns. ns_Name ns = n) (m_Namespaces m)) = 1"
    using base n name_filter_one [of "m_Namespaces m" n] by (simp add: base_ok_alt names_of_namespaces_def)
  from add_to_namespaces [OF this, of "length h"] show "cache_within m \<Longrightarrow> cache_within m'"
    using add ps by (auto simp: AddPod_def cache_within_def)
qed

lemma base_ok_names:
  assumes "base_ok m h" and "x \<in> set (all_refs (m_Namespaces m))" and "y \<in> set (all_refs (m_Namespaces m))"
    and "p_Name (h ! x) = p_Name (h ! y)"
  shows "x = y"
  using assms by (auto simp: base_ok_alt names_of_pods_def distinct_map inj_on_def)

lemma submset_without:
  assumes "mset xs \<subseteq># mset ys" and "r \<notin> set xs"
  shows "mset xs \<subseteq># mset (remove1 r ys)"
proof (rule mset_subset_eqI)
  fix x
  show "count (mset xs) x \<le> count (mset (remove1 r ys)) x"
  proof (cases "x = r")
    case True
    then have "count (mset xs) x = 0" using assms(2) by (simp only: count_mset_0_iff not_False_eq_True)
    then show ?thesis by (simp only: le0)
  qed (use mset_subset_eq_count [OF assms(1), of x] in simp)
qed

text \<open>A pod the cache misses leaves its namespace all the same, though its removal is reported to have failed.\<close>

lemma RemovePod_within:
  assumes base: "base_ok m h" and within: "cache_within m" and right: "rightly_named podName n m h"
    and rm: "RemovePod h podName n m = Inr (e, m')"
  shows "base_ok m' h \<and> cache_within m'"
proof (cases "last_namespace n (m_Namespaces m)")
  case None
  then show ?thesis using base within rm by (simp add: RemovePod_not_found)
next
  case (Some j)
  note j = last_namespace_Some [OF Some]
  let ?ns = "m_Namespaces m ! j" and ?refs = "all_refs (m_Namespaces m)"
  obtain ps where ps: "m_pods m = Some ps" using rm RemovePod_nil_cache [of m n h podName] Some by (cases "m_pods m") force+
  have sub: "mset ps \<subseteq># mset ?refs" using within ps by (simp add: cache_within_def)
  then have in_refs: "set ps \<subseteq> set ?refs" using set_mset_mono [OF sub] by simp
  note frame = RemovePod_frame(1,2) [OF rm]
  show ?thesis
  proof (cases "\<exists>r \<in> set (ns_Pods ?ns). p_Name (h ! r) = podName")
    case True
    then obtain r where r: "r \<in> set (ns_Pods ?ns)" "p_Name (h ! r) = podName" by blast
    let ?full = "m\<lparr>m_pods := Some ?refs\<rparr>" and ?nss = "(m_Namespaces m)[j := ?ns\<lparr>ns_Pods := remove1 r (ns_Pods ?ns)\<rparr>]"
    have full: "model_ok (?full, h)"
      using base by (simp add: model_ok_def base_ok_alt cache_ok_def names_of_pods_def names_of_namespaces_def)
    have rfull: "rightly_named podName n ?full h" using right by (simp add: rightly_named_def)
    have d: "distinct ?refs" using base by (simp add: base_ok_alt names_of_pods_def distinct_map)
    have rr: "r \<in> set ?refs" using r(1) j by (auto simp: all_refs_concat)
    have "cache_ok ?full" using full by (simp add: model_ok_base)
    from RemovePod_unique [OF this _ _ d, of h n j r podName] Some r base_ok_names [OF base] obtain m1 where
      m1: "RemovePod h podName n ?full = Inr (None, m1)" "cache_ok m1" "m_pods m1 = Some (remove1 r ?refs)"
        "m_Namespaces m1 = ?nss" by auto
    have ok1: "model_ok (m1, h)" by (rule model_ok_RemovePod [OF full rfull m1(1)])
    have m': "m_Namespaces m' = ?nss"
      using rm m1(1,4) Some ps
      by (cases "remove_loop h podName (ns_Pods ?ns)") (auto simp: RemovePod_def Let_def split: option.splits)
    have base': "base_ok m' h"
      using ok1 m' m1(4) frame base unfolding model_ok_base
      by (simp add: base_ok_alt names_of_pods_def names_of_namespaces_def)
    have refs': "mset (all_refs ?nss) = mset (remove1 r ?refs)" using m1(2-4) by (simp add: cache_ok_def)
    have "\<exists>ps'. m_pods m' = Some ps' \<and> mset ps' \<subseteq># mset ps \<and> r \<notin> set ps'"
    proof (cases "remove_first h podName ps")
      case None
      then have "m_pods m' = Some ps" using rm Some ps
        by (cases "remove_loop h podName (ns_Pods ?ns)") (auto simp: RemovePod_def Let_def)
      moreover have "r \<notin> set ps" using None r(2) unfolding remove_first_None by (auto simp: has_name_def)
      ultimately show ?thesis by blast
    next
      case (Some ps')
      then have "m_pods m' = Some ps'" using rm \<open>last_namespace n (m_Namespaces m) = Some j\<close> ps
        by (cases "remove_loop h podName (ns_Pods ?ns)") (auto simp: RemovePod_def Let_def)
      moreover obtain xs s ys where s: "ps = xs @ s # ys" "has_name h podName s" "ps' = xs @ ys"
        using remove_first_Some [OF Some] by blast
      moreover have "s = r"
        using base_ok_names [OF base _ rr, of s] in_refs s(1,2) r(2) by (auto simp: has_name_def)
      moreover have "distinct ps" by (rule distinct_submset [OF sub d])
      ultimately show ?thesis by auto
    qed
    then obtain ps' where ps': "m_pods m' = Some ps'" "mset ps' \<subseteq># mset ps" "r \<notin> set ps'" by blast
    have "mset ps' \<subseteq># mset ?refs" using ps'(2) sub by (rule subset_mset.order_trans)
    then have "mset ps' \<subseteq># mset (remove1 r ?refs)" by (rule submset_without) (rule ps'(3))
    then have "cache_within m'" by (simp add: cache_within_def ps'(1) m' refs')
    with base' show ?thesis by blast
  next
    case False
    then have loop: "remove_loop h podName (ns_Pods ?ns) = Inr (ns_Pods ?ns)"
      by (intro remove_loop_absent) (simp add: has_name_def)
    have "\<not> has_name h podName r" if r: "r \<in> set ps" for r
    proof
      assume name: "has_name h podName r"
      from r in_refs obtain ns where ns: "ns \<in> set (m_Namespaces m)" "r \<in> set (ns_Pods ns)" by (auto simp: all_refs_concat)
      with name right have "ns_Name ns = n" by (auto simp: rightly_named_def has_name_def)
      then have "ns = ?ns" using ns(1) j base by (auto simp: base_ok_alt names_of_namespaces_def distinct_map inj_on_def)
      with False ns(2) name show False by (auto simp: has_name_def)
    qed
    then have "remove_first h podName ps = None" by (simp add: remove_first_None)
    then have "m' = m" using rm loop by (simp add: RemovePod_def Let_def Some ps)
    with base within show ?thesis by simp
  qed
qed

section \<open>The invariant of all runs\<close>

definition marked_ok :: "marked \<Rightarrow> bool" where
  "marked_ok s \<longleftrightarrow> (case s of (stale, m, h) \<Rightarrow> base_ok m h \<and> cache_within m \<and> (stale \<or> cache_ok m))"

lemma marked_ok_unmarked: "model_ok (m, h) \<Longrightarrow> marked_ok (stale, m, h)"
  by (simp add: marked_ok_def model_ok_base cache_ok_within)

lemma model_step_ok: "model_step s t \<Longrightarrow> marked_ok s \<Longrightarrow> marked_ok t"
proof (induction rule: model_step.induct)
  case (add_namespace n podNames m h ports protocols ns m' h' stale)
  obtain pods where pods: "alloc_namespace n pods h = (ns, h')" "map p_Name pods = podNames"
    using new_namespace_alloc(1) [of n podNames ports protocols NotSpecifiedImage "[]" h] add_namespace(2)
    by (auto simp: AddNamespace_def NewNamespaceWithPods_def split: prod.splits)
  note base = base_ok_add [OF _ add_namespace(1) pods]
  have "base_ok m' h'"
    by (rule base) (use add_namespace in \<open>auto simp: AddNamespace_def marked_ok_def split: prod.splits\<close>)
  moreover have "m_pods m' = None" using add_namespace(2) by (auto simp: AddNamespace_def split: prod.splits)
  ultimately show ?case by (simp add: marked_ok_def cache_within_def cache_ok_def)
next
  case (add_iperf_namespace n podNames m h ports protocols ns m' h' stale)
  obtain pods where pods: "alloc_namespace n pods h = (ns, h')" "map p_Name pods = podNames"
    using new_namespace_alloc(2) [of n podNames ports protocols h] add_iperf_namespace(2)
    by (auto simp: AddIPerfNamespace_def split: prod.splits)
  note base = base_ok_add [OF _ add_iperf_namespace(1) pods]
  have "base_ok m' h'"
    by (rule base) (use add_iperf_namespace in \<open>auto simp: AddIPerfNamespace_def marked_ok_def split: prod.splits\<close>)
  moreover have "m_pods m' = None" using add_iperf_namespace(2) by (auto simp: AddIPerfNamespace_def split: prod.splits)
  ultimately show ?case by (simp add: marked_ok_def cache_within_def cache_ok_def)
next
  case (add_namespace_with_image n podNames m h ports protocols img cmds ns m' h' stale)
  obtain pods where pods: "alloc_namespace n pods h = (ns, h')" "map p_Name pods = podNames"
    using new_namespace_alloc(1) [of n podNames ports protocols img cmds h] add_namespace_with_image(2)
    by (auto simp: AddNamespaceWithImageAndCommands_def split: prod.splits)
  note base = base_ok_add [OF _ add_namespace_with_image(1) pods]
  have "base_ok m' h'"
    by (rule base) (use add_namespace_with_image in \<open>auto simp: AddNamespaceWithImageAndCommands_def marked_ok_def split: prod.splits\<close>)
  moreover have "m_pods m' = m_pods m" "m_Namespaces m' = m_Namespaces m @ [ns]"
    using add_namespace_with_image(2) by (auto simp: AddNamespaceWithImageAndCommands_def split: prod.splits)
  ultimately show ?case
    using add_namespace_with_image(3)
    by (auto simp: marked_ok_def cache_within_def cache_ok_def all_refs_snoc subset_mset.add_increasing2)
next
  case (all_pods m ps m' stale h)
  then show ?case
    by (auto simp: marked_ok_def base_ok_alt cache_within_def cache_ok_def names_of_pods_def names_of_namespaces_def
        AllPods_def Let_def split: option.splits)
next
  case (reset_all_pods m h m' h' stale)
  obtain ps where a: "AllPods m = (ps, m')" and h': "h' = fold (\<lambda>p h. h[p := p_Reset (h ! p)]) ps h"
    using reset_all_pods(1) by (auto simp: ResetAllPods_def split: prod.splits)
  then show ?case using reset_all_pods(2) reset_keeps [of ps h]
    by (auto simp: marked_ok_def base_ok_alt cache_within_def cache_ok_def names_of_pods_def names_of_namespaces_def
        AllPods_def Let_def split: option.splits)
next
  case (all_ports h m pp m' stale)
  then show ?case
    by (auto simp: AllPortsProtocol_def marked_ok_def base_ok_alt cache_within_def cache_ok_def names_of_pods_def
        names_of_namespaces_def Let_def go_bind_def deref_def split: sum.splits option.splits prod.splits if_splits)
next
  case (add_pod n m p h m' stale)
  then show ?case
    using base_ok_AddPod [of m h n p m'] model_ok_AddPod [of m h n p m']
    by (auto simp: marked_ok_def model_ok_base)
next
  case (remove_pod podName n m h e m' stale)
  then show ?case
    using RemovePod_within [of m h podName n e m'] model_ok_RemovePod [of m h podName n e m']
    by (auto simp: marked_ok_def model_ok_base)
qed

lemma model_reach_ok: "model_reach s \<Longrightarrow> marked_ok s"
proof (induction rule: model_reach.induct)
  case (new_model podNames n ports protocols dnsDomain h m h')
  from marked_ok_unmarked [OF model_ok_new [OF this]] show ?case .
qed (rule model_step_ok)

section \<open>Properties\<close>

text \<open>
  C17. Whatever sequence of its methods a model has been through (namespaces and pods added under
  new names, pods removed from the namespace they are in, resets and queries in between),
  \<open>AllPods\<close> returns pods of its namespaces, each at most once, told apart by their names and all in the
  store, and \<open>AllPortsProtocol\<close> does not panic. It returns all of them unless a
  namespace was added with \<open>AddNamespaceWithImageAndCommands\<close> while the cache was filled (the mark of the
  state), and none by another method since: then it may miss pods.
\<close>

theorem model_stays_consistent:
  assumes "model_reach (stale, m, h)" and "AllPods m = (ps, m')"
  shows "(if stale then mset ps \<subseteq># mset (all_refs (m_Namespaces m)) else mset ps = mset (all_refs (m_Namespaces m))) \<and>
         (\<forall>r \<in> set ps. r < length h) \<and> distinct (map (\<lambda>r. p_Name (h ! r)) ps) \<and>
         distinct (map ns_Name (m_Namespaces m)) \<and> (\<exists>r. AllPortsProtocol h m = Inr r)"
proof -
  have ok: "base_ok m h" "cache_within m" "stale \<or> cache_ok m"
    using model_reach_ok [OF assms(1)] by (simp_all add: marked_ok_def)
  have sub: "mset ps \<subseteq># mset (all_refs (m_Namespaces m))"
    using ok(2) assms(2) by (auto simp: AllPods_def cache_within_def all_refs_concat Let_def split: option.splits)
  have "mset (map (\<lambda>r. p_Name (h ! r)) ps) \<subseteq># mset (names_of_pods m h)"
    using image_mset_subseteq_mono [OF sub, of "\<lambda>r. p_Name (h ! r)"] by (simp add: names_of_pods_def)
  then have "distinct (map (\<lambda>r. p_Name (h ! r)) ps)"
    by (rule distinct_submset) (use ok(1) in \<open>simp add: base_ok_alt\<close>)
  moreover have "\<exists>r. AllPortsProtocol h m = Inr r"
    using ok(1) by (cases "m_ports m"; cases "m_protocols m")
      (auto simp: AllPortsProtocol_def base_ok_alt Let_def split: prod.splits)
  moreover have "\<forall>r \<in> set ps. r < length h"
    using ok(1) set_mset_mono [OF sub] by (auto simp: base_ok_alt)
  moreover have "stale \<or> mset ps = mset (all_refs (m_Namespaces m))" using ok(3) AllPods_result(1) [OF _ assms(2)] by blast
  ultimately show ?thesis using ok(1) sub by (auto simp: base_ok_alt names_of_namespaces_def)
qed

text \<open>A model of one namespace, its pods listed, and one of them removed; and a namespace added behind the filled cache.\<close>

theorem model_stays_consistent_witness:
  "\<exists>m h m3 h3. model_reach (False, m, h) \<and> fst (AllPods m) = [1] \<and> all_refs (m_Namespaces m) = [1] \<and> p_Name (h ! 1) = ''b'' \<and>
     (\<exists>r. AllPortsProtocol h m = Inr r) \<and>
     model_reach (True, m3, h3) \<and> fst (AllPods m3) = [1] \<and> all_refs (m_Namespaces m3) = [1, 2] \<and>
     distinct (map (\<lambda>r. p_Name (h3 ! r)) [1 :: nat])"
proof -
  obtain m h where new: "NewModel [''x''] [''a'', ''b''] [80] [ProtocolTCP] ''d'' [] = (m, h)" by fastforce
  then have m: "m_Namespaces m = [\<lparr>ns_Name = ''x'', ns_Pods = [0, 1]\<rparr>]" "m_pods m = None"
    and h: "p_Name (h ! 0) = ''a''" "p_Name (h ! 1) = ''b''" "length h = 2"
    by (auto simp: NewModel_def NewNamespaceWithPods_def NewNamespaceWithPodsGivenImageAndCommand_def
        alloc_namespace_def Let_def new_pod_def)
  have 1: "model_reach (False, m, h)" by (rule new_model [OF _ new]) simp
  obtain m1 where a: "AllPods m = ([0, 1], m1)" and m1: "m_Namespaces m1 = m_Namespaces m" "m_pods m1 = Some [0, 1]"
    by (auto simp: AllPods_def m all_refs_concat Let_def)
  have 2: "model_reach (False, m1, h)" by (rule next_model [OF 1 all_pods [OF a]])
  have "rightly_named ''a'' ''x'' m1 h" by (simp add: rightly_named_def m1 m)
  moreover obtain m2 where rm: "RemovePod h ''a'' ''x'' m1 = Inr (None, m2)"
      and m2: "m_Namespaces m2 = [\<lparr>ns_Name = ''x'', ns_Pods = [1]\<rparr>]" "m_pods m2 = Some [1]"
    using h remove_loop_once [of h "''a''" 0 "[]" "[1]"]
    by (auto simp: RemovePod_def m1 m has_name_def)
  ultimately have 3: "model_reach (False, m2, h)" using next_model [OF 2 remove_pod] by blast
  obtain ns m3 h3 where add: "AddNamespaceWithImageAndCommands ''y'' [''c''] [80] [ProtocolTCP] NotSpecifiedImage [] m2 h = (ns, m3, h3)"
    by (metis surj_pair)
  note added = AddNamespaceWithImageAndCommands_pods [OF add]
  have m3: "m_pods m3 = Some [1]" "m_Namespaces m3 = [\<lparr>ns_Name = ''x'', ns_Pods = [1]\<rparr>, ns]" "ns_Pods ns = [2]"
    using add added h(3) m2 by (auto simp: AddNamespaceWithImageAndCommands_def split: prod.splits)
  have "new_names ''y'' [''c''] m2 h"
    using h by (simp add: new_names_def names_of_namespaces_def names_of_pods_def m2 all_refs_concat)
  from add_namespace_with_image [OF this add, of False] have 4: "model_reach (True, m3, h3)"
    using next_model [OF 3, of "(True, m3, h3)"] by (simp add: m2)
  have all: "AllPods m2 = ([1], m2)" "AllPods m3 = ([1], m3)" using m2 m3 by (simp_all add: AllPods_def)
  show ?thesis
    using 3 4 m2 m3 h model_stays_consistent [OF 3 all(1)] model_stays_consistent [OF 4 all(2)] all
    by (intro exI [of _ m2] exI [of _ h] exI [of _ m3] exI [of _ h3]) (simp add: all_refs_concat)
qed

text \<open>
  The cache is searched for the name alone: removing a pod under the name of a namespace it is
  not in reports success, takes the pod out of the cache and leaves it in its namespace, so the
  cache is no longer what the namespaces hold.
\<close>

lemma remove_pod_wrong_namespace:
  assumes "last_namespace n (m_Namespaces m) = Some j"
    and "\<forall>r \<in> set (ns_Pods (m_Namespaces m ! j)). p_Name (h ! r) \<noteq> podName"
    and "cache_ok m" and "m_pods m = Some ps" and "podName \<in> (\<lambda>r. p_Name (h ! r)) ` set ps"
  shows "\<exists>m'. RemovePod h podName n m = Inr (None, m') \<and> m_Namespaces m' = m_Namespaces m \<and>
           length (fst (AllPods m')) + 1 = length (all_refs (m_Namespaces m')) \<and> \<not> cache_ok m'"
proof -
  have loop: "remove_loop h podName (ns_Pods (m_Namespaces m ! j)) = Inr (ns_Pods (m_Namespaces m ! j))"
    by (intro remove_loop_absent) (use assms(2) in \<open>simp add: has_name_def\<close>)
  obtain ps' where first: "remove_first h podName ps = Some ps'"
    using remove_first_None [of h podName ps] assms(5)
    by (cases "remove_first h podName ps") (auto simp: has_name_def)
  obtain xs r ys where "ps = xs @ r # ys" "ps' = xs @ ys" using remove_first_Some [OF first] by blast
  then have len: "length ps' + 1 = length (all_refs (m_Namespaces m))"
    using assms(3,4) mset_eq_length [of ps "all_refs (m_Namespaces m)"] by (simp add: cache_ok_def)
  have rm: "RemovePod h podName n m = Inr (None, m\<lparr>m_pods := Some ps'\<rparr>)"
    using assms(1,4) loop first by (simp add: RemovePod_def Let_def)
  have "\<not> cache_ok (m\<lparr>m_pods := Some ps'\<rparr>)" using len by (auto simp: cache_ok_def dest: mset_eq_length)
  with rm len show ?thesis by (simp add: AllPods_def)
qed

definition demo_two_namespaces :: model where
  "demo_two_namespaces = \<lparr>m_pods = Some [0, 1], m_ports = None, m_protocols = None,
     m_Namespaces = [\<lparr>ns_Name = ''x'', ns_Pods = [0]\<rparr>, \<lparr>ns_Name = ''y'', ns_Pods = [1]\<rparr>], m_dnsDomain = ''d''\<rparr>"

lemma remove_pod_wrong_namespace_example:
  "\<exists>m'. RemovePod demo_store ''a'' ''y'' demo_two_namespaces = Inr (None, m') \<and> \<not> cache_ok m'"
proof -
  have "last_namespace ''y'' (m_Namespaces demo_two_namespaces) = Some 1"
    and "\<forall>r \<in> set (ns_Pods (m_Namespaces demo_two_namespaces ! 1)). p_Name (demo_store ! r) \<noteq> ''a''"
    and "cache_ok demo_two_namespaces" and "m_pods demo_two_namespaces = Some [0, 1]"
    and "''a'' \<in> (\<lambda>r. p_Name (demo_store ! r)) ` set [0, 1]"
    by (simp_all add: demo_two_namespaces_def cache_ok_def all_refs_concat demo_pods [unfolded One_nat_def])
  from remove_pod_wrong_namespace [OF this] show ?thesis by blast
qed

end
