(* ===== verification/Client_Set.thy ===== *)
theory Client_Set
  imports Go_Strings
begin

text \<open>
  \<open>NewClientSet\<close> of \<open>pkg/matrix/helper.go\<close>: where the configuration of the cluster comes from. The
  path functions it uses are those of \<open>path/filepath\<close> on Unix; the environment, the file system and
  the constructors of \<open>client-go\<close> are operations of a record, whose configurations and clientsets are
  types the model leaves open. \<open>panic(err.Error())\<close> is the value \<open>Inl\<close> of that error.
\<close>

section \<open>Paths\<close>

text \<open>
  \<open>filepath.Clean\<close> goes through the elements of a path with those kept so far, last first: an empty one and a
  dot are dropped, two dots take the last one back unless there is none to take.
\<close>

fun clean_elems :: "bool \<Rightarrow> string list \<Rightarrow> string list \<Rightarrow> string list" where
  "clean_elems rooted out [] = rev out"
| "clean_elems rooted out (p # ps) =
     (if p = '''' \<or> p = ''.'' then clean_elems rooted out ps
      else if p = ''..'' then
        (case out of
           [] \<Rightarrow> if rooted then clean_elems rooted [] ps else clean_elems rooted [''..''] ps
         | q # qs \<Rightarrow> if q = ''..'' then clean_elems rooted (''..'' # out) ps else clean_elems rooted qs ps)
      else clean_elems rooted (p # out) ps)"

definition filepath_Clean :: "string \<Rightarrow> string" where
  "filepath_Clean path =
     (if path = '''' then ''.''
      else let rooted = (hd path = CHR ''/'');
               s = Join ''/'' (clean_elems rooted [] (Split CHR ''/'' path))
           in if rooted then ''/'' @ s else if s = '''' then ''.'' else s)"

text \<open>\<open>filepath.Join\<close> starts at the first element that is not empty.\<close>

fun filepath_Join :: "string list \<Rightarrow> string" where
  "filepath_Join [] = ''''"
| "filepath_Join (e # es) = (if e \<noteq> '''' then filepath_Clean (Join ''/'' (e # es)) else filepath_Join es)"

section \<open>The configuration\<close>

record ('c, 's, 'w) client_libs =
  LookupEnv :: "string \<Rightarrow> 'w \<Rightarrow> string option"
  HomeDir :: "'w \<Rightarrow> string"
  Stat :: "string \<Rightarrow> 'w \<Rightarrow> err \<times> 'w"
  BuildConfigFromFlags :: "string \<Rightarrow> string \<Rightarrow> 'w \<Rightarrow> ('c \<times> err) \<times> 'w"
  InClusterConfig :: "'w \<Rightarrow> ('c \<times> err) \<times> 'w"
  NewForConfig :: "'c \<Rightarrow> 'w \<Rightarrow> ('s \<times> err) \<times> 'w"

definition kubeconfig_path :: "('c, 's, 'w) client_libs \<Rightarrow> 'w \<Rightarrow> string" where
  "kubeconfig_path L w =
     (case LookupEnv L ''KUBECONFIG'' w of
        Some kubeconfig \<Rightarrow> kubeconfig
      | None \<Rightarrow> filepath_Join [HomeDir L w, ''.kube'', ''config''])"

definition NewClientSet :: "('c, 's, 'w) client_libs \<Rightarrow> 'w \<Rightarrow> (go_error + 's \<times> 'c) \<times> 'w" where
  "NewClientSet L w =
     (let kubeconfig = kubeconfig_path L w;
          (e, w1) = Stat L kubeconfig w;
          ((config, e), w2) = (if e = None then BuildConfigFromFlags L '''' kubeconfig w1 else InClusterConfig L w1)
      in case e of
           Some x \<Rightarrow> (Inl x, w2)
         | None \<Rightarrow>
             (let ((clientset, e), w3) = NewForConfig L config w2
              in case e of Some x \<Rightarrow> (Inl x, w3) | None \<Rightarrow> (Inr (clientset, config), w3)))"

section \<open>Which path is read\<close>

text \<open>Elements that need no cleaning are kept.\<close>

definition plain_elem :: "string \<Rightarrow> bool" where
  "plain_elem p \<longleftrightarrow> p \<noteq> '''' \<and> p \<noteq> ''.'' \<and> p \<noteq> ''..'' \<and> CHR ''/'' \<notin> set p"

lemma clean_plain: "\<forall>p \<in> set ps. plain_elem p \<Longrightarrow> clean_elems rooted out ps = rev out @ ps"
  by (induction ps arbitrary: out) (auto simp: plain_elem_def)

lemma Clean_plain:
  assumes "\<forall>p \<in> set ps. plain_elem p" and "ps \<noteq> []"
  shows "filepath_Clean (''/'' @ Join ''/'' ps) = ''/'' @ Join ''/'' ps"
proof -
  have "Split CHR ''/'' (Join ''/'' ps) = ps"
    using assms by (intro Split_Join) (auto simp: plain_elem_def)
  then have "Split CHR ''/'' (''/'' @ Join ''/'' ps) = '''' # ps"
    using Split_append_sep [of "CHR ''/''" "''''" "Join ''/'' ps"] by simp
  then show ?thesis using clean_plain [OF assms(1), of True "[]"] by (simp add: filepath_Clean_def)
qed

lemma Join_append: "xs \<noteq> [] \<Longrightarrow> ys \<noteq> [] \<Longrightarrow> Join s (xs @ ys) = Join s xs @ s @ Join s ys"
  by (induction s xs rule: Join.induct) (auto, cases ys, auto)

lemma default_path:
  assumes "\<forall>p \<in> set ps. plain_elem p" and "ps \<noteq> []"
  shows "filepath_Join [''/'' @ Join ''/'' ps, ''.kube'', ''config''] = ''/'' @ Join ''/'' ps @ ''/.kube/config''"
proof -
  have "\<forall>p \<in> set (ps @ [''.kube'', ''config'']). plain_elem p" using assms(1) by (auto simp: plain_elem_def)
  moreover have j: "Join ''/'' (ps @ [''.kube'', ''config'']) = Join ''/'' ps @ ''/.kube/config''"
    using Join_append [OF assms(2), of "[''.kube'', ''config'']" "''/''"] by simp
  ultimately show ?thesis using Clean_plain [of "ps @ [''.kube'', ''config'']"] by (simp add: j)
qed

section \<open>Properties\<close>

text \<open>
  C34. \<open>NewClientSet\<close> reads the path in \<open>KUBECONFIG\<close> when it is set, even to the empty text, and otherwise
  the file \<open>.kube/config\<close> of the home directory, or of the working directory when there is no
  home; it returns exactly when the configuration, built from that file when it exists and taken from inside the cluster when
  it does not, and the clientset made of it both come without an error, and panics otherwise. It does not
  fall back as the README says: a file that exists but gives no configuration makes it panic with that
  error, and with \<open>KUBECONFIG\<close> set the file of the home directory is never tried.
\<close>

theorem client_set_source:
  assumes "\<forall>p \<in> set ps. plain_elem p" and "HomeDir L w = (if ps = [] then '''' else ''/'' @ Join ''/'' ps)"
    and "path = (case LookupEnv L ''KUBECONFIG'' w of
                   Some v \<Rightarrow> v
                 | None \<Rightarrow> if ps = [] then ''.kube/config'' else ''/'' @ Join ''/'' ps @ ''/.kube/config'')"
  shows "(NewClientSet L w = (Inr (clientset, config), w3) \<longleftrightarrow>
           (\<exists>e w1 w2. Stat L path w = (e, w1) \<and>
              (if e = None then BuildConfigFromFlags L '''' path w1 else InClusterConfig L w1) = ((config, None), w2) \<and>
              NewForConfig L config w2 = ((clientset, None), w3))) \<and>
         (\<forall>w1 c x w2. Stat L path w = (None, w1) \<longrightarrow> BuildConfigFromFlags L '''' path w1 = ((c, Some x), w2) \<longrightarrow>
            NewClientSet L w = (Inl x, w2))"
proof -
  have "Split CHR ''/'' ''.kube/config'' = [''.kube'', ''config'']" by simp
  then have "filepath_Join ['''', ''.kube'', ''config''] = ''.kube/config''" by (simp add: filepath_Clean_def)
  then have path: "kubeconfig_path L w = path"
    using assms default_path by (simp add: kubeconfig_path_def split: option.splits)
  obtain e w1 where "Stat L path w = (e, w1)" by fastforce
  moreover obtain c e2 w2 where
    "(if e = None then BuildConfigFromFlags L '''' path w1 else InClusterConfig L w1) = ((c, e2), w2)" by (metis surj_pair)
  moreover obtain s e3 w4 where "NewForConfig L c w2 = ((s, e3), w4)" by (metis surj_pair)
  ultimately have "NewClientSet L w = (Inr (clientset, config), w3) \<longleftrightarrow>
           (\<exists>e w1 w2. Stat L path w = (e, w1) \<and>
              (if e = None then BuildConfigFromFlags L '''' path w1 else InClusterConfig L w1) = ((config, None), w2) \<and>
              NewForConfig L config w2 = ((clientset, None), w3))"
    using path by (cases e2; cases e3) (auto simp: NewClientSet_def Let_def)
  moreover have "NewClientSet L w = (Inl x, w2)"
    if "Stat L path w = (None, w1)" "BuildConfigFromFlags L '''' path w1 = ((c, Some x), w2)" for w1 c x w2
    using that path by (simp add: NewClientSet_def Let_def)
  ultimately show ?thesis by blast
qed

definition demo_libs :: "(string, string, nat) client_libs" where
  "demo_libs = \<lparr>LookupEnv = (\<lambda>_ _. None), HomeDir = (\<lambda>_. ''/home/go''),
     Stat = (\<lambda>path w. (if path = ''/home/go/.kube/config'' then None else Some (ErrText ''no such file''), w)),
     BuildConfigFromFlags = (\<lambda>url path w. ((path, None), w)), InClusterConfig = (\<lambda>w. (('''', Some (ErrText ''not in cluster'')), w)),
     NewForConfig = (\<lambda>config w. ((''clientset'', None), w))\<rparr>"

text \<open>A file in the home directory that is read, and one that \<open>KUBECONFIG\<close> names and that is broken.\<close>

definition broken_libs :: "(string, string, nat) client_libs" where
  "broken_libs = demo_libs\<lparr>LookupEnv := (\<lambda>_ _. Some ''/broken''), Stat := (\<lambda>path w. (None, w)),
     BuildConfigFromFlags := (\<lambda>url path w. ((path, if path = ''/broken'' then Some (ErrText ''invalid configuration'') else None), w))\<rparr>"

theorem client_set_source_witness:
  "NewClientSet demo_libs 0 = (Inr (''clientset'', ''/home/go/.kube/config''), 0) \<and>
   NewClientSet broken_libs 0 = (Inl (ErrText ''invalid configuration''), 0)"
proof
  let ?ps = "[''home'', ''go'']"
  have plain: "\<forall>p \<in> set ?ps. plain_elem p" by (simp add: plain_elem_def)
  have home: "HomeDir demo_libs 0 = (if ?ps = [] then '''' else ''/'' @ Join ''/'' ?ps)"
    "HomeDir broken_libs 0 = (if ?ps = [] then '''' else ''/'' @ Join ''/'' ?ps)"
    by (simp_all add: demo_libs_def broken_libs_def)
  show "NewClientSet demo_libs 0 = (Inr (''clientset'', ''/home/go/.kube/config''), 0)"
    using client_set_source [OF plain home(1) refl, of "''clientset''" "''/home/go/.kube/config''" 0]
    by (simp add: demo_libs_def)
  show "NewClientSet broken_libs 0 = (Inl (ErrText ''invalid configuration''), 0)"
    using client_set_source [OF plain home(2) refl] by (simp add: broken_libs_def)
qed

end
