(* ===== verification/Test_Runs.thy ===== *)
theory Test_Runs
  imports Probe Services
begin

text \<open>
  What the functions of \<open>tests/\<close> run on: the variables they share (the model, the manager, the
  service counter, the services of the running feature) and the ways a function can end. A test
  function goes on after \<open>t.Error\<close>, which is only recorded, and ends at \<open>t.Fatal\<close>; \<open>log.Fatal\<close> and
  a panic end the program; a watch may never return.
\<close>

datatype 'a run = Returns 'a | Fails | Exits | Panics go_panic | Hangs

record 'w board =
  b_model :: model
  b_kube :: "'w kube"
  b_sid :: svc_id
  b_services :: "service option list"
  b_errors :: nat

type_synonym ('w, 'a) step = "'w board \<Rightarrow> 'a run \<times> 'w board"

section \<open>Steps one after the other\<close>

definition run_return :: "'a \<Rightarrow> ('w, 'a) step" where
  "run_return x b = (Returns x, b)"

definition run_bind :: "('w, 'a) step \<Rightarrow> ('a \<Rightarrow> ('w, 'b) step) \<Rightarrow> ('w, 'b) step" where
  "run_bind f g b =
     (case f b of
        (Returns x, b1) \<Rightarrow> g x b1
      | (Fails, b1) \<Rightarrow> (Fails, b1)
      | (Exits, b1) \<Rightarrow> (Exits, b1)
      | (Panics p, b1) \<Rightarrow> (Panics p, b1)
      | (Hangs, b1) \<Rightarrow> (Hangs, b1))"

fun run_each :: "('x \<Rightarrow> ('w, unit) step) \<Rightarrow> 'x list \<Rightarrow> ('w, unit) step" where
  "run_each f [] = run_return ()"
| "run_each f (x # xs) = run_bind (f x) (\<lambda>_. run_each f xs)"

section \<open>The operations as steps\<close>

text \<open>A call that only uses the cluster, one that may panic as well, and one that may not return.\<close>

definition on_world :: "('w \<Rightarrow> 'a \<times> 'w) \<Rightarrow> ('w, 'a) step" where
  "on_world f b = (let (x, w) = f (k_world (b_kube b))
                   in (Returns x, b\<lparr>b_kube := (b_kube b)\<lparr>k_world := w\<rparr>\<rparr>))"

definition on_watch :: "('w \<Rightarrow> ('a go \<times> 'w) option) \<Rightarrow> ('w, 'a) step" where
  "on_watch f b =
     (case f (k_world (b_kube b)) of
        None \<Rightarrow> (Hangs, b)
      | Some (r, w) \<Rightarrow>
          (let b1 = b\<lparr>b_kube := (b_kube b)\<lparr>k_world := w\<rparr>\<rparr>
           in case r of Inl p \<Rightarrow> (Panics p, b1) | Inr x \<Rightarrow> (Returns x, b1)))"

definition on_board :: "('w board \<Rightarrow> ('a \<times> 'w board) go) \<Rightarrow> ('w, 'a) step" where
  "on_board f b = (case f b of Inl p \<Rightarrow> (Panics p, b) | Inr (x, b1) \<Rightarrow> (Returns x, b1))"

definition on_kube :: "('w kube \<Rightarrow> 'a \<times> 'w kube) \<Rightarrow> ('w, 'a) step" where
  "on_kube f b = (let (x, k) = f (b_kube b) in (Returns x, b\<lparr>b_kube := k\<rparr>))"

definition get_board :: "('w, 'w board) step" where
  "get_board b = (Returns b, b)"

definition put_board :: "('w board \<Rightarrow> 'w board) \<Rightarrow> ('w, unit) step" where
  "put_board f b = (Returns (), f b)"

text \<open>A write to a pod through its pointer.\<close>

definition set_pod :: "pod_ref \<Rightarrow> (pod \<Rightarrow> pod) \<Rightarrow> ('w, unit) step" where
  "set_pod r f = put_board (\<lambda>b. b\<lparr>b_kube := update_pod r f (b_kube b)\<rparr>)"

definition t_Error :: "('w, unit) step" where
  "t_Error = put_board (\<lambda>b. b\<lparr>b_errors := b_errors b + 1\<rparr>)"

definition error_if :: "bool \<Rightarrow> ('w, unit) step" where
  "error_if c = (if c then t_Error else run_return ())"

definition fatal_if :: "bool \<Rightarrow> ('w, unit) step" where
  "fatal_if c b = (if c then (Fails, b\<lparr>b_errors := b_errors b + 1\<rparr>) else (Returns (), b))"

definition exit_if :: "bool \<Rightarrow> ('w, unit) step" where
  "exit_if c b = (if c then (Exits, b) else (Returns (), b))"

text \<open>The type assertion \<open>x.(T)\<close> on a nil interface panics.\<close>

definition assert_not_nil :: "'a option \<Rightarrow> ('w, 'a) step" where
  "assert_not_nil x = on_board (\<lambda>b. case x of None \<Rightarrow> Inl FailedTypeAssertion | Some y \<Rightarrow> Inr (y, b))"

lemmas step_defs = on_world_def on_watch_def on_board_def on_kube_def get_board_def put_board_def set_pod_def
  t_Error_def error_if_def fatal_if_def exit_if_def assert_not_nil_def run_return_def

section \<open>What a step promises\<close>

text \<open>
  From a board with \<open>P\<close> the step does not panic and does not hang, and when it returns \<open>Q\<close> holds of
  the value and the board; it may end the test or the program.
\<close>

definition promises :: "('w board \<Rightarrow> bool) \<Rightarrow> ('w, 'a) step \<Rightarrow> ('a \<Rightarrow> 'w board \<Rightarrow> bool) \<Rightarrow> bool" where
  "promises P f Q \<longleftrightarrow>
     (\<forall>b. P b \<longrightarrow> (case f b of
                      (Returns x, b1) \<Rightarrow> Q x b1
                    | (Fails, _) \<Rightarrow> True
                    | (Exits, _) \<Rightarrow> True
                    | (Panics _, _) \<Rightarrow> False
                    | (Hangs, _) \<Rightarrow> False))"

named_theorems promise_intros \<open>rules that prove what a step promises\<close>

lemma promises_bind [promise_intros]:
  "promises P f Q \<Longrightarrow> (\<And>x. promises (Q x) (g x) R) \<Longrightarrow> promises P (run_bind f g) R"
  unfolding promises_def run_bind_def
  by (auto split: prod.splits run.splits) (metis (no_types, lifting) old.prod.case run.simps)+

lemma promises_return [promise_intros]: "(\<And>b. P b \<Longrightarrow> Q x b) \<Longrightarrow> promises P (run_return x) Q"
  by (simp add: promises_def run_return_def)

lemma promises_weaken:
  "promises P' f Q' \<Longrightarrow> (\<And>b. P b \<Longrightarrow> P' b) \<Longrightarrow> (\<And>x b. Q' x b \<Longrightarrow> Q x b) \<Longrightarrow> promises P f Q"
  unfolding promises_def by (fastforce split: prod.splits run.splits)

lemma promises_each:
  assumes "\<And>x. x \<in> set xs \<Longrightarrow> promises I (f x) (\<lambda>_. I)"
  shows "promises I (run_each f xs) (\<lambda>_. I)"
  using assms
proof (induction xs)
  case (Cons x xs)
  then show ?case by (auto intro!: promises_bind [where Q = "\<lambda>_. I"])
qed (simp add: promises_return)

text \<open>The steps that always return.\<close>

lemma promises_steps [promise_intros]:
  "(\<And>b x w. P b \<Longrightarrow> h (k_world (b_kube b)) = (x, w) \<Longrightarrow> Q x (b\<lparr>b_kube := (b_kube b)\<lparr>k_world := w\<rparr>\<rparr>)) \<Longrightarrow>
     promises P (on_world h) Q"
  "(\<And>b. P b \<Longrightarrow> Q' b b) \<Longrightarrow> promises P get_board Q'"
  "(\<And>b. P b \<Longrightarrow> Qu () (u b)) \<Longrightarrow> promises P (put_board u) Qu"
  "(\<And>b x k. P b \<Longrightarrow> g (b_kube b) = (x, k) \<Longrightarrow> Q x (b\<lparr>b_kube := k\<rparr>)) \<Longrightarrow> promises P (on_kube g) Q"
  by (auto simp: promises_def step_defs split: prod.splits)

lemma promises_ends [promise_intros]:
  "(\<And>b. P b \<Longrightarrow> \<not> c \<Longrightarrow> Q () b) \<Longrightarrow> promises P (exit_if c) Q"
  "(\<And>b. P b \<Longrightarrow> \<not> c \<Longrightarrow> Q () b) \<Longrightarrow> promises P (fatal_if c) Q"
  by (auto simp: promises_def step_defs)

lemma promises_board [promise_intros]:
  "(\<And>b. P b \<Longrightarrow> \<exists>x b1. f b = Inr (x, b1) \<and> Q x b1) \<Longrightarrow> promises P (on_board f) Q"
  unfolding promises_def step_defs by fastforce

section \<open>What a step that returned did\<close>

text \<open>Inverting a run that returned, one rule for each step: \<open>returns_iff\<close>.\<close>

lemma run_bind_Returns:
  "run_bind f g b = (Returns y, b2) \<longleftrightarrow> (\<exists>x b1. f b = (Returns x, b1) \<and> g x b1 = (Returns y, b2))"
  by (auto simp: run_bind_def split: prod.splits run.splits)

lemma step_Returns:
  "on_world h b = (Returns x, b1) \<longleftrightarrow>
     (\<exists>w. h (k_world (b_kube b)) = (x, w) \<and> b1 = b\<lparr>b_kube := (b_kube b)\<lparr>k_world := w\<rparr>\<rparr>)"
  "on_watch v b = (Returns y, b1) \<longleftrightarrow>
     (\<exists>w. v (k_world (b_kube b)) = Some (Inr y, w) \<and> b1 = b\<lparr>b_kube := (b_kube b)\<lparr>k_world := w\<rparr>\<rparr>)"
  "on_board f b = (Returns z, b1) \<longleftrightarrow> f b = Inr (z, b1)"
  "on_kube g b = (Returns u, b1) \<longleftrightarrow> (\<exists>k. g (b_kube b) = (u, k) \<and> b1 = b\<lparr>b_kube := k\<rparr>)"
  by (auto simp: on_world_def on_watch_def on_board_def on_kube_def Let_def
      split: prod.splits option.splits sum.splits)

lemma plain_Returns:
  "get_board b = (Returns x, b1) \<longleftrightarrow> x = b \<and> b1 = b"
  "put_board f b = (Returns (), b1) \<longleftrightarrow> b1 = f b"
  "run_return y b = (Returns z, b1) \<longleftrightarrow> z = y \<and> b1 = b"
  "set_pod r h b = (Returns (), b1) \<longleftrightarrow> b1 = b\<lparr>b_kube := update_pod r h (b_kube b)\<rparr>"
  by (auto simp: get_board_def put_board_def run_return_def set_pod_def)

lemma ends_Returns:
  "t_Error b = (Returns (), b1) \<longleftrightarrow> b1 = b\<lparr>b_errors := b_errors b + 1\<rparr>"
  "error_if c b = (Returns (), b1) \<longleftrightarrow> b1 = b\<lparr>b_errors := b_errors b + of_bool c\<rparr>"
  "fatal_if c b = (Returns (), b1) \<longleftrightarrow> \<not> c \<and> b1 = b"
  "exit_if c b = (Returns (), b1) \<longleftrightarrow> \<not> c \<and> b1 = b"
  "assert_not_nil x b = (Returns y, b1) \<longleftrightarrow> x = Some y \<and> b1 = b"
  by (auto simp: t_Error_def error_if_def fatal_if_def exit_if_def assert_not_nil_def on_board_def put_board_def
      run_return_def split: option.splits)

lemmas returns_iff = run_bind_Returns step_Returns plain_Returns ends_Returns

text \<open>A loop that returned did its body for every element, in order.\<close>

lemma run_each_Returns:
  assumes "run_each f xs b = (Returns (), b1)" and "I [] b"
    and "\<And>did x todo b b1. xs = did @ x # todo \<Longrightarrow> I did b \<Longrightarrow> f x b = (Returns (), b1) \<Longrightarrow> I (did @ [x]) b1"
  shows "I xs b1"
proof -
  have "xs = did @ ys \<Longrightarrow> run_each f ys b = (Returns (), b1) \<Longrightarrow> I did b \<Longrightarrow> I xs b1" for did ys b
  proof (induction ys arbitrary: did b)
    case Nil
    then show ?case by (simp add: plain_Returns)
  next
    case (Cons y ys)
    from Cons.prems(2) obtain b2 where "f y b = (Returns (), b2)" "run_each f ys b2 = (Returns (), b1)"
      by (auto simp: run_bind_Returns)
    with Cons.IH [of "did @ [y]"] Cons.prems assms(3) [of did y ys] show ?case by simp
  qed
  from this [of "[]" xs] assms(1,2) show ?thesis by simp
qed

end
