(* ===== verification/Pod_Frames.thy ===== *)
theory Pod_Frames
  imports Start_Pods
begin

text \<open>
  What starting pods leaves of them. The operations of \<open>manager.go\<close> that create pods and wait for
  them write a pod of the store in three ways only: they assign its node, they store the addresses
  and the node the cluster reports, and they render it. Whatever relation between a pod and its
  later self these three keep is kept by all of \<open>StartPods\<close>; the locale proves this once.
\<close>

definition store_kept :: "(pod \<Rightarrow> pod \<Rightarrow> bool) \<Rightarrow> pod_store \<Rightarrow> pod_store \<Rightarrow> bool" where
  "store_kept R h h' \<longleftrightarrow> length h' = length h \<and> (\<forall>x. R (h ! x) (h' ! x))"

lemma store_keptD: "store_kept R h h' \<Longrightarrow> R (h ! x) (h' ! x)" "store_kept R h h' \<Longrightarrow> length h' = length h"
  by (simp_all add: store_kept_def)

locale kept_pods =
  fixes R :: "pod \<Rightarrow> pod \<Rightarrow> bool" and E :: "('w, 'z) client_scheme"
  assumes kept_refl: "R p p"
    and kept_trans: "R p q \<Longrightarrow> R q r \<Longrightarrow> R p r"
    and kept_node: "R p (SetNodeName n p)"
    and kept_addresses: "R p (SetNodeName n (SetHostIP a (SetPodIP b p)))"
    and kept_render: "p_ToK8SSpec E p w = ((spec, q), w1) \<Longrightarrow> R p q"
begin

lemma store_refl: "store_kept R h h"
  by (simp add: store_kept_def kept_refl)

lemma store_trans: "store_kept R h h1 \<Longrightarrow> store_kept R h1 h2 \<Longrightarrow> store_kept R h h2"
  unfolding store_kept_def by (metis kept_trans)

lemma store_update: "R (h ! r) q \<Longrightarrow> store_kept R h (h[r := q])"
  by (cases "r < length h") (auto simp: store_kept_def nth_list_update list_update_beyond kept_refl)

lemma spec_of_kept: "spec_of E r k = (spec, k1) \<Longrightarrow> store_kept R (k_pods k) (k_pods k1)"
  by (auto simp: spec_of_def split: prod.splits intro!: store_update dest: kept_render)

lemma start_pod_kept:
  assumes "start_pod E nodes (i, r) k = Inr (e, k')"
  shows "store_kept R (k_pods k) (k_pods k')"
proof -
  let ?k = "update_pod r (SetNodeName (kdName (nodes ! i))) k"
  obtain spec k2 where s: "spec_of E r ?k = (spec, k2)" by (metis surj_pair)
  have "k_pods k' = k_pods k2" using assms by (auto simp: start_pod_def Let_def s split: if_splits prod.splits)
  moreover have "store_kept R (k_pods k) (k_pods ?k)" by (simp add: update_pod_def store_update kept_node)
  ultimately show ?thesis using spec_of_kept [OF s] store_trans by metis
qed

lemma start_namespace_kept:
  assumes "start_namespace E nodes ns k = Inr (e, k')"
  shows "store_kept R (k_pods k) (k_pods k')"
proof -
  have "store_kept R (k_pods k) (k_pods k')"
    if run: "err_loop (start_pod E nodes) xs (k\<lparr>k_world := w\<rparr>) = Inr (e, k')" for xs w
  proof (rule err_loop_invariant [OF run, of "\<lambda>s. store_kept R (k_pods k) (k_pods s)"])
    fix x s e s' assume "store_kept R (k_pods k) (k_pods s)" "start_pod E nodes x s = Inr (e, s')"
    then show "store_kept R (k_pods k) (k_pods s')" using start_pod_kept store_trans by (cases x) blast
  qed (simp add: store_refl)
  then show ?thesis
    using assms
    by (auto simp: start_namespace_def StartPodsInNamespace_def Let_def store_refl split: prod.splits if_splits)
qed

lemma WaitAndSetIPs_kept:
  assumes "WaitAndSetIPs E r k = (e, k')"
  shows "store_kept R (k_pods k) (k_pods k')"
proof -
  obtain spec k1 where s: "spec_of E r k = (spec, k1)" by (metis surj_pair)
  obtain we w2 pending2 where w:
    "WaitForPodRunningInNamespace E spec (k_world k1, k_PendingPods k1) = (we, (w2, pending2))" by (metis surj_pair)
  obtain got ge w3 where g: "GetPod E (p_Namespace (k_pods k1 ! r)) (p_Name (k_pods k1 ! r)) w2 = ((got, ge), w3)"
    by (metis surj_pair)
  have "store_kept R (k_pods k1) (k_pods k')"
    using assms
    by (cases got)
      (auto simp: WaitAndSetIPs_def s w g Let_def update_pod_def store_refl store_update kept_node kept_addresses
        split: if_splits)
  with spec_of_kept [OF s] show ?thesis by (rule store_trans)
qed

lemma StartPods_kept:
  assumes "StartPods E nodes m k = Inr (e, m', k')"
  shows "store_kept R (k_pods k) (k_pods k')"
proof -
  obtain e1 k1 where l1: "err_loop (start_namespace E nodes) (m_Namespaces m) k = Inr (e1, k1)"
    using err_loop_total [of "m_Namespaces m" "start_namespace E nodes" k] start_namespace_total by (metis surj_pair)
  obtain pods m1 where p: "AllPods m = (pods, m1)" by fastforce
  obtain e2 k2 where l2: "err_loop (\<lambda>r k. Inr (WaitAndSetIPs E r k)) pods k1 = Inr (e2, k2)"
    using err_loop_total [of pods "\<lambda>r k. Inr (WaitAndSetIPs E r k)" k1] by (metis surj_pair)
  have "store_kept R (k_pods k) (k_pods k1)"
    by (rule err_loop_invariant [OF l1, of "\<lambda>s. store_kept R (k_pods k) (k_pods s)"])
      (auto intro: store_refl store_trans start_namespace_kept)
  moreover have "store_kept R (k_pods k1) (k_pods k2)"
    by (rule err_loop_invariant [OF l2, of "\<lambda>s. store_kept R (k_pods k1) (k_pods s)"])
      (auto intro: store_refl store_trans WaitAndSetIPs_kept)
  ultimately show ?thesis
    using assms store_trans by (auto simp: StartPods_def l1 p l2 split: if_splits)
qed

end

section \<open>What a pod keeps\<close>

text \<open>
  Its name and namespace, what is asked of its probes, and the ports and protocols of its containers;
  and the names of containers once they have one.
\<close>

definition keeps_identity :: "pod \<Rightarrow> pod \<Rightarrow> bool" where
  "keeps_identity p q \<longleftrightarrow> p_Name q = p_Name p \<and> p_Namespace q = p_Namespace p \<and> p_SkipProbe q = p_SkipProbe p \<and>
     map (\<lambda>c. (c_Port c, c_Protocol c)) (p_Containers q) = map (\<lambda>c. (c_Port c, c_Protocol c)) (p_Containers p)"

definition named :: "pod \<Rightarrow> bool" where
  "named p \<longleftrightarrow> (\<forall>c \<in> set (p_Containers p). c_Name c \<noteq> '''')"

lemma render_containers:
  assumes "p_ToK8SSpec E p w = ((spec, q), w1)"
  shows "map (\<lambda>c. (c_Port c, c_Protocol c)) (p_Containers q) = map (\<lambda>c. (c_Port c, c_Protocol c)) (p_Containers p)"
proof -
  obtain ks cs wa where c: "ContainersToK8SSpec E (p_Containers p) w = ((ks, cs), wa)" by (metis surj_pair)
  have "p_Containers q = cs"
    using assms by (auto simp: p_ToK8SSpec_def c LabelSelector_def Let_def split: option.splits prod.splits)
  moreover have "list_all2 (\<lambda>c c1. (c_Port c1, c_Protocol c1) = (c_Port c, c_Protocol c)) (p_Containers p) cs"
    using ContainersToK8SSpec_containers [OF c]
    by (auto elim!: list_all2_mono) (metis container.select_convs(4,5) container.surjective container.update_convs(1))+
  then have "map (\<lambda>c. (c_Port c, c_Protocol c)) cs = map (\<lambda>c. (c_Port c, c_Protocol c)) (p_Containers p)"
    by (induction rule: list_all2_induct) auto
  ultimately show ?thesis by simp
qed

lemma render_keeps_identity:
  assumes "p_ToK8SSpec E p w = ((spec, q), w1)"
  shows "keeps_identity p q"
proof -
  obtain cs ics ls where "q = p\<lparr>p_Containers := cs, p_InitContainers := ics, p_Labels := ls\<rparr>"
    using p_ToK8SSpec_pod(1) [OF assms] by blast
  then show ?thesis using render_containers [OF assms] by (simp add: keeps_identity_def)
qed

interpretation pods_same: kept_pods keeps_identity E for E
proof
  fix p w spec q w1 assume "p_ToK8SSpec E p w = ((spec, q), w1)"
  then show "keeps_identity p q" by (rule render_keeps_identity)
qed (auto simp: keeps_identity_def pod_accessors)

interpretation pods_named: kept_pods "\<lambda>p q. named p \<longrightarrow> named q" E for E
proof
  fix p w spec q w1 assume "p_ToK8SSpec E p w = ((spec, q), w1)"
  from p_ToK8SSpec_pod(3) [OF this] show "named p \<longrightarrow> named q" by (simp add: named_def)
qed (auto simp: named_def pod_accessors)

text \<open>A wait names the containers of its pod.\<close>

lemma WaitAndSetIPs_named:
  assumes "WaitAndSetIPs E r k = (e, k')" and "r < length (k_pods k)"
  shows "named (k_pods k' ! r)"
proof -
  obtain spec k1 where s: "spec_of E r k = (spec, k1)" by (metis surj_pair)
  obtain p w where r: "p_ToK8SSpec E (k_pods k ! r) (k_world k) = ((spec, p), w)"
    and "k1 = k\<lparr>k_pods := (k_pods k)[r := p], k_world := w\<rparr>"
    using s by (auto simp: spec_of_def split: prod.splits)
  then have "named (k_pods k1 ! r)" using assms(2) p_ToK8SSpec_pod(3) [OF r] by (simp add: named_def)
  moreover have "p_Containers (k_pods k' ! r) = p_Containers (k_pods k1 ! r)"
  proof -
    obtain we w2 pending2 where w:
      "WaitForPodRunningInNamespace E spec (k_world k1, k_PendingPods k1) = (we, (w2, pending2))" by (metis surj_pair)
    obtain got ge w3 where g: "GetPod E (p_Namespace (k_pods k1 ! r)) (p_Name (k_pods k1 ! r)) w2 = ((got, ge), w3)"
      by (metis surj_pair)
    show ?thesis
      using assms(1)
      by (cases got) (auto simp: WaitAndSetIPs_def s w g Let_def update_pod_def pod_accessors nth_update_keeps
        split: if_splits)
  qed
  ultimately show ?thesis by (simp add: named_def)
qed

lemma wait_all_named:
  assumes run: "err_loop (\<lambda>r k. Inr (WaitAndSetIPs E r k)) pods k = Inr (None, k')"
    and "\<forall>r \<in> set pods. r < length (k_pods k)" and "r \<in> set pods"
  shows "named (k_pods k' ! r)"
proof -
  let ?n = "length (k_pods k)"
  have len: "length (k_pods k') = ?n"
    by (rule err_loop_invariant [OF run, of "\<lambda>s. length (k_pods s) = ?n"]) (simp_all add: WaitAndSetIPs_frame(2))
  have "length (k_pods k') = ?n \<longrightarrow> named (k_pods k' ! r)"
  proof (rule err_loop_each [OF run, of "\<lambda>r s. length (k_pods s) = ?n \<longrightarrow> named (k_pods s ! r)"])
    fix x s s' assume "x \<in> set pods" and "Inr (WaitAndSetIPs E x s) = Inr (None, s')"
    then show "length (k_pods s') = ?n \<longrightarrow> named (k_pods s' ! x)"
      using WaitAndSetIPs_named WaitAndSetIPs_frame(2) assms(2) by (metis Inr_inject)
  next
    fix x y s s' assume "length (k_pods s) = ?n \<longrightarrow> named (k_pods s ! y)"
      and step: "Inr (WaitAndSetIPs E x s) = Inr (None, s')"
    then show "length (k_pods s') = ?n \<longrightarrow> named (k_pods s' ! y)"
      using store_keptD [OF pods_named.WaitAndSetIPs_kept] by (metis Inr_inject)
  qed (rule assms(3))
  with len show ?thesis by simp
qed

lemma StartPods_named:
  assumes "cache_ok m" and "\<forall>ns \<in> set (m_Namespaces m). ns_allocated (k_pods k) ns"
    and "StartPods E nodes m k = Inr (None, m', k')" and "r \<in> set (all_refs (m_Namespaces m))"
  shows "named (k_pods k' ! r)" and "\<exists>pods. AllPods m = (pods, m')"
proof -
  obtain k1 pods where l1: "err_loop (start_namespace E nodes) (m_Namespaces m) k = Inr (None, k1)"
    and pods: "AllPods m = (pods, m')"
    and l2: "err_loop (\<lambda>r k. Inr (WaitAndSetIPs E r k)) pods k1 = Inr (None, k')"
    using assms(3) by (fastforce simp: StartPods_def go_bind_eq_Inr_iff split: if_splits prod.splits)
  have len: "length (k_pods k1) = length (k_pods k)"
    by (rule err_loop_invariant [OF l1, of "\<lambda>s. length (k_pods s) = length (k_pods k)"])
      (simp_all add: start_namespace_keeps(1))
  have set_pods: "set pods = set (all_refs (m_Namespaces m))"
    using AllPods_result(1) [OF assms(1) pods] by (rule mset_eq_setD)
  show "\<exists>pods. AllPods m = (pods, m')" using pods by blast
  show "named (k_pods k' ! r)"
    by (rule wait_all_named [OF l2])
      (use assms(2,4) in \<open>auto simp: set_pods all_refs_concat len ns_allocated_def\<close>)
qed

end
