(* ===== verification/Suite.thy ===== *)
theory Suite
  imports Test_Runs Pod_Frames Model_States Http_Servers
begin

text \<open>
  \<open>tests/main_test.go\<close>: what every test starts from. The suite lists the ready nodes, builds a model
  with one pod for each, starts the pods, removes those that stay pending and waits for their
  servers; an error on the way ends the program. The theory composes the components: on a cluster
  that answers its commands steadily the setup never panics, and a suite that gets past it has a
  model whose pods are settled, told apart and all connected.
\<close>

section \<open>Setup and cleanup\<close>

definition suite_dnsDomain :: string where
  "suite_dnsDomain = ''cluster.local''"

definition suite_pods :: "v1_node list \<Rightarrow> string list" where
  "suite_pods nodes = map (\<lambda>i. ''pod-'' @ Itoa (int i)) [1..<length nodes + 1]"

definition suite_model :: "string \<Rightarrow> v1_node list \<Rightarrow> ('w, unit) step" where
  "suite_model namespace nodes = put_board (\<lambda>b.
     (let (m, h) = NewModel [namespace] (suite_pods nodes) [80, 81] [ProtocolTCP, ProtocolUDP] suite_dnsDomain
                     (k_pods (b_kube b))
      in b\<lparr>b_model := m, b_kube := (b_kube b)\<lparr>k_pods := h\<rparr>\<rparr>))"

definition suite_start :: "('w, 'z) client_scheme \<Rightarrow> v1_node list \<Rightarrow> ('w, err) step" where
  "suite_start E nodes = on_board (\<lambda>b.
     go_bind (StartPods E nodes (b_model b) (b_kube b)) (\<lambda>(e, m, k). Inr (e, b\<lparr>b_model := m, b_kube := k\<rparr>)))"

definition suite_remove_pending :: "('w, 'z) client_scheme \<Rightarrow> string \<Rightarrow> ('w, err) step" where
  "suite_remove_pending E namespace = on_board (\<lambda>b.
     go_bind (RemovePendingPodsInNamespace E namespace (b_model b, b_kube b))
       (\<lambda>(e, m, k). Inr (e, b\<lparr>b_model := m, b_kube := k\<rparr>)))"

definition suite_wait :: "('w, 'z) client_scheme \<Rightarrow> (string \<Rightarrow> float64 \<times> err) \<Rightarrow> ('w, err) step" where
  "suite_wait E PF = on_board (\<lambda>b.
     go_bind (WaitForHTTPServers E PF (b_model b) (b_kube b)) (\<lambda>(e, m, k). Inr (e, b\<lparr>b_model := m, b_kube := k\<rparr>)))"

definition suite_setup :: "('w, 'z) client_scheme \<Rightarrow> (string \<Rightarrow> float64 \<times> err) \<Rightarrow> string \<Rightarrow> ('w, unit) step" where
  "suite_setup E PF namespace =
     run_bind (on_world (GetReadyNodes E)) (\<lambda>(nodes, e).
     run_bind (exit_if (e \<noteq> None)) (\<lambda>_.
     run_bind (suite_model namespace nodes) (\<lambda>_.
     run_bind (suite_start E nodes) (\<lambda>e.
     run_bind (exit_if (e \<noteq> None)) (\<lambda>_.
     run_bind (suite_remove_pending E namespace) (\<lambda>e.
     run_bind (exit_if (e \<noteq> None)) (\<lambda>_.
     run_bind (suite_wait E PF) (\<lambda>e. exit_if (e \<noteq> None)))))))))"

definition suite_finish :: "('w, 'z) client_scheme \<Rightarrow> string \<Rightarrow> ('w, unit) step" where
  "suite_finish E namespace =
     run_bind (on_world (DeleteNamespaces E [namespace])) (\<lambda>e. exit_if (e \<noteq> None))"

section \<open>The pods of the suite\<close>

lemma suite_pods_distinct: "distinct (suite_pods nodes)"
  by (simp add: suite_pods_def distinct_map inj_on_def)

lemma suite_pods_no_slash: "n \<in> set (suite_pods nodes) \<Longrightarrow> CHR ''/'' \<notin> set n"
  using Itoa_chars by (fastforce simp: suite_pods_def decimal_def)

definition suite_pod :: "string \<Rightarrow> string list \<Rightarrow> pod \<Rightarrow> bool" where
  "suite_pod namespace names p \<longleftrightarrow> p_Namespace p = namespace \<and> p_Name p \<in> set names \<and> \<not> p_SkipProbe p \<and>
     map (\<lambda>c. (c_Port c, c_Protocol c)) (p_Containers p) = List.product [80, 81] [ProtocolTCP, ProtocolUDP]"

lemma suite_pod_same: "suite_pod namespace names p \<Longrightarrow> keeps_identity p q \<Longrightarrow> suite_pod namespace names q"
  by (simp add: suite_pod_def keeps_identity_def)

text \<open>
  What holds from the building of the model on, and what starting adds. The store of pods may hold
  others; only those of the model are meant.
\<close>

definition suite_inv :: "string \<Rightarrow> string list \<Rightarrow> model \<Rightarrow> pod_store \<Rightarrow> bool" where
  "suite_inv namespace names m h \<longleftrightarrow>
     model_ok (m, h) \<and> names_of_namespaces m = [namespace] \<and> m_ports m = None \<and>
     (\<forall>r \<in> set (all_refs (m_Namespaces m)). suite_pod namespace names (h ! r))"

definition suite_started :: "('w, 'z) client_scheme \<Rightarrow> string \<Rightarrow> string list \<Rightarrow> model \<Rightarrow> pod_store \<Rightarrow> bool" where
  "suite_started E namespace names m h \<longleftrightarrow>
     suite_inv namespace names m h \<and> m_pods m \<noteq> None \<and>
     (\<forall>r \<in> set (all_refs (m_Namespaces m)). settled E (h ! r) \<and> named (h ! r))"

lemma suite_model_inv:
  assumes "NewModel [namespace] names [80, 81] [ProtocolTCP, ProtocolUDP] d h = (m, h')" and "distinct names"
  shows "suite_inv namespace names m h'"
proof -
  obtain ns h1 where n: "NewNamespaceWithPods namespace names [80, 81] [ProtocolTCP, ProtocolUDP] h = (ns, h1)" by fastforce
  with assms(1) have m: "m_Namespaces m = [ns]" "m_ports m = None" "h' = h1"
    by (auto simp: NewModel_def Let_def)
  note n = n [unfolded NewNamespaceWithPods_def, folded m(3)]
  obtain pods where p: "alloc_namespace namespace pods h = (ns, h')" "map p_Name pods = names"
      "\<forall>p \<in> set pods. p_Namespace p = namespace"
    using new_namespace_alloc(1) n by metis
  have "ns_Name ns = namespace" by (rule alloc_namespace_pods(3) [OF p(1)])
  have pods: "map (\<lambda>r. h' ! r) (ns_Pods ns) = pods"
    using alloc_namespace_pods(2) [OF p(1)] by (simp add: pods_of_def)
  have skip: "\<not> p_SkipProbe p" if "p \<in> set pods" for p
    using that n alloc_namespace_pods(2) [OF n [unfolded NewNamespaceWithPodsGivenImageAndCommand_def Let_def]] pods
    by (auto simp: pods_of_def new_pod_def)
  have "suite_pod namespace names (h' ! r)" if r: "r \<in> set (ns_Pods ns)" for r
  proof -
    have mem: "h' ! r \<in> set pods" "h' ! r \<in> set (pods_of h' ns)" using r by (auto simp: pods [symmetric] pods_of_def)
    then show ?thesis
      using NewNamespaceGiven_containers(1) [OF n mem(2)] p skip by (auto simp: suite_pod_def)
  qed
  moreover have "model_ok (m, h')" by (rule model_ok_new [OF assms(2,1)])
  ultimately show ?thesis
    using \<open>ns_Name ns = namespace\<close> by (simp add: suite_inv_def names_of_namespaces_def m all_refs_concat)
qed

text \<open>Starting the pods changes none of what identifies them.\<close>

lemma suite_inv_store:
  assumes "suite_inv namespace names m h" and "store_kept keeps_identity h h'"
  shows "suite_inv namespace names m h'"
proof -
  have "names_of_pods m h' = names_of_pods m h"
    using store_keptD(1) [OF assms(2)] by (simp add: names_of_pods_def keeps_identity_def)
  then show ?thesis
    using assms(1) store_keptD [OF assms(2)] suite_pod_same unfolding suite_inv_def model_ok_def by (auto; metis)
qed

lemma suite_inv_cached:
  assumes "suite_inv namespace names m h" and "AllPods m = (ps, m')"
  shows "suite_inv namespace names m' h" and "m_pods m' = Some ps" and "m_Namespaces m' = m_Namespaces m"
proof -
  have ok: "model_ok (m, h)" using assms(1) by (simp add: suite_inv_def)
  then have "cache_ok m" by (simp add: model_ok_def)
  note a = AllPods_result [OF this assms(2)]
  show "m_Namespaces m' = m_Namespaces m" "m_pods m' = Some ps" by (simp_all add: a(2))
  then show "suite_inv namespace names m' h"
    using assms(1) model_ok_cached(1) [OF ok assms(2)] by (simp add: suite_inv_def names_of_namespaces_def a(2))
qed

lemma suite_start_step:
  assumes "wrapf_law E" and "suite_inv namespace names m (k_pods k)"
  shows "\<exists>e m' k'. StartPods E nodes m k = Inr (e, m', k') \<and>
           (e = None \<longrightarrow> suite_started E namespace names m' (k_pods k') \<and> m_Namespaces m' = m_Namespaces m)"
proof -
  obtain e m' k' where run: "StartPods E nodes m k = Inr (e, m', k')" using StartPods_total by blast
  have ok: "cache_ok m" "\<forall>ns \<in> set (m_Namespaces m). ns_allocated (k_pods k) ns"
    using assms(2) by (auto simp: suite_inv_def model_ok_def ns_allocated_def all_refs_concat)
  have "suite_started E namespace names m' (k_pods k') \<and> m_Namespaces m' = m_Namespaces m" if "e = None"
  proof -
    note run = run [unfolded that]
    have inv: "suite_inv namespace names m (k_pods k')"
      by (rule suite_inv_store [OF assms(2) pods_same.StartPods_kept [OF run]])
    show ?thesis
    proof (cases "all_refs (m_Namespaces m)")
      case Nil
      obtain ps where "AllPods m = (ps, m')"
        using run by (fastforce simp: StartPods_def go_bind_eq_Inr_iff split: if_splits prod.splits)
      from suite_inv_cached [OF inv this] Nil show ?thesis by (simp add: suite_started_def)
    next
      case (Cons r rs)
      then obtain ps where "AllPods m = (ps, m')" using StartPods_named(2) [OF ok run, of r] by auto
      from suite_inv_cached [OF inv this] show ?thesis
        using StartPods_named(1) [OF ok run] StartPods_outcome [OF assms(1) ok run]
        by (auto simp: suite_started_def all_refs_concat)
    qed
  qed
  with run show ?thesis by blast
qed

section \<open>Removing the pending pods\<close>

text \<open>In a suite there is one namespace, so every pod is looked for where it is.\<close>

lemma suite_rightly_named: "suite_inv namespace names m h \<Longrightarrow> rightly_named podName namespace m h"
  by (cases "m_Namespaces m") (auto simp: suite_inv_def names_of_namespaces_def rightly_named_def)

lemma suite_remove_one:
  assumes "suite_started E namespace names m (k_pods k)"
  shows "\<exists>e m' k'. remove_pending E namespace x (m, k) = Inr (e, m', k') \<and>
           suite_started E namespace names m' (k_pods k') \<and> k_pods k' = k_pods k"
proof -
  obtain name n where x: "x = (name, n)" by (cases x)
  have inv: "suite_inv namespace names m (k_pods k)" using assms by (simp add: suite_started_def)
  then have ok: "model_ok (m, k_pods k)" by (simp add: suite_inv_def)
  obtain ps where ps: "m_pods m = Some ps" using assms by (auto simp: suite_started_def)
  from RemovePod_outcome [OF ok suite_rightly_named [OF inv] ps] obtain e m' where
    rm: "RemovePod (k_pods k) name namespace m = Inr (e, m')" and m': "model_ok (m', k_pods k)" "m_pods m' \<noteq> None"
      "names_of_namespaces m' = names_of_namespaces m"
      "set (all_refs (m_Namespaces m')) \<subseteq> set (all_refs (m_Namespaces m))" by metis
  have started: "suite_started E namespace names m' (k_pods k)"
    using assms m' RemovePod_frame(1) [OF rm] by (auto simp: suite_started_def suite_inv_def)
  obtain de w where "DeletePod E name namespace (k_world k) = (de, w)" by fastforce
  then show ?thesis
    using rm started assms by (cases de) (simp_all add: x remove_pending_def)
qed

lemma suite_remove_loop:
  assumes "suite_started E namespace names m (k_pods k)"
  shows "\<exists>e m' k'. err_loop (remove_pending E namespace) xs (m, k) = Inr (e, m', k') \<and>
           suite_started E namespace names m' (k_pods k') \<and> k_pods k' = k_pods k"
  using assms
proof (induction xs arbitrary: m k)
  case (Cons x xs)
  from suite_remove_one [OF Cons.prems] obtain e m1 k1 where
    1: "remove_pending E namespace x (m, k) = Inr (e, m1, k1)"
      "suite_started E namespace names m1 (k_pods k1)" "k_pods k1 = k_pods k" by blast
  show ?case
  proof (cases e)
    case None
    with 1 Cons.IH [OF 1(2)] show ?thesis by auto
  qed (use 1 in auto)
qed auto

lemma suite_remove_step:
  assumes "suite_started E namespace names m (k_pods k)"
  shows "\<exists>e m' k'. RemovePendingPodsInNamespace E namespace (m, k) = Inr (e, m', k') \<and>
           suite_started E namespace names m' (k_pods k')"
proof (cases "k_PendingPods k")
  case (Cons x xs)
  obtain is' w where o: "goOrder E (length (k_PendingPods k)) (k_world k) = (is', w)" by fastforce
  have "suite_started E namespace names m (k_pods (k\<lparr>k_world := w\<rparr>))" using assms by simp
  from suite_remove_loop [OF this] o Cons show ?thesis
    by (simp add: RemovePendingPodsInNamespace_def) blast
qed (use assms in \<open>simp add: RemovePendingPodsInNamespace_def\<close>)

section \<open>Waiting for the servers\<close>

text \<open>What a suite that is set up has: every pair of its pods is connected on every port and protocol.\<close>

definition suite_connected ::
  "(commandImpl \<Rightarrow> string \<times> err) \<Rightarrow> model \<Rightarrow> pod_store \<Rightarrow> bool" where
  "suite_connected ans m h \<longleftrightarrow>
     (\<forall>port \<in> {80, 81}. \<forall>proto \<in> {ProtocolTCP, ProtocolUDP}.
        \<forall>f \<in> set (all_refs (m_Namespaces m)). \<forall>t \<in> set (all_refs (m_Namespaces m)).
          answer ans h (make_job h m (new_case port proto) False False f t))"

lemma PodString_name_inject:
  assumes "PodString p = PodString q" and "CHR ''/'' \<notin> set (p_Name p)" and "CHR ''/'' \<notin> set (p_Name q)"
  shows "p_Name p = p_Name q"
proof -
  have "rev (p_Name p) @ CHR ''/'' # rev (p_NodeName p @ ''/'' @ p_Namespace p) =
      rev (p_Name q) @ CHR ''/'' # rev (p_NodeName q @ ''/'' @ p_Namespace q)"
    using arg_cong [OF assms(1), of rev] by (simp add: PodString_def NewPodString_def)
  then have "rev (p_Name p) = rev (p_Name q)"
    using assms(2,3) by (subst (asm) sep_append_inject) auto
  then show ?thesis by simp
qed

lemma suite_pods_told_apart:
  assumes "distinct (names_of_pods m h)"
    and "\<forall>r \<in> set (all_refs (m_Namespaces m)). suite_pod namespace names (h ! r) \<and> named (h ! r)"
    and "\<forall>n \<in> set names. CHR ''/'' \<notin> set n" and "mset pods = mset (all_refs (m_Namespaces m))"
  shows "pods_ready h pods"
proof -
  have set: "set pods = set (all_refs (m_Namespaces m))" by (rule mset_eq_setD [OF assms(4)])
  have pod: "suite_pod namespace names (h ! r)" "named (h ! r)" if "r \<in> set pods" for r
    using assms(2) that by (auto simp: set)
  have "has_named_container (h ! r)" if "r \<in> set pods" for r
    using pod [OF that] by (cases "p_Containers (h ! r)") (auto simp: suite_pod_def named_def has_named_container_def)
  moreover have "distinct (map (\<lambda>r. p_Name (h ! r)) pods)"
  proof -
    have "mset (map (\<lambda>r. p_Name (h ! r)) pods) = mset (names_of_pods m h)" by (simp add: names_of_pods_def assms(4))
    with assms(1) show ?thesis using mset_eq_imp_distinct_iff by blast
  qed
  then have "distinct pods" and inj: "inj_on (\<lambda>r. p_Name (h ! r)) (set pods)" by (auto simp: distinct_map)
  moreover have "inj_on (\<lambda>r. PodString (h ! r)) (set pods)"
  proof (rule inj_onI)
    fix x y assume xy: "x \<in> set pods" "y \<in> set pods" and "PodString (h ! x) = PodString (h ! y)"
    then have "p_Name (h ! x) = p_Name (h ! y)"
      using PodString_name_inject pod(1) assms(3) by (metis suite_pod_def)
    with inj xy show "x = y" by (auto dest: inj_onD)
  qed
  ultimately show ?thesis by (auto simp: pods_ready_def pod_names_def distinct_map)
qed

lemma suite_pods_ready:
  assumes "suite_started E namespace names m h" and "\<forall>n \<in> set names. CHR ''/'' \<notin> set n"
    and "mset pods = mset (all_refs (m_Namespaces m))"
  shows "pods_ready h pods"
  using assms suite_pods_told_apart [of m h namespace names pods]
  by (simp add: suite_started_def suite_inv_def model_ok_def)

text \<open>The ports and protocols of the model are those of any of its pods.\<close>

lemma suite_ports:
  assumes "suite_inv namespace names m h"
  shows "\<exists>ports protocols m1. AllPortsProtocol h m = Inr ((ports, protocols), m1) \<and>
           (all_refs (m_Namespaces m) \<noteq> [] \<longrightarrow> set ports = {80, 81} \<and> set protocols = {ProtocolTCP, ProtocolUDP})"
proof -
  have none: "m_ports m = None" "m_protocols m = None" using assms by (auto simp: suite_inv_def model_ok_def)
  obtain ports protocols where e: "extractPortProtocols h (m_Namespaces m) = (ports, protocols)" by fastforce
  have pp: "map (\<lambda>c. (c_Port c, c_Protocol c)) (p_Containers (h ! r)) = List.product [80, 81] [ProtocolTCP, ProtocolUDP]"
    if "r \<in> set (all_refs (m_Namespaces m))" for r
    using assms that by (simp add: suite_inv_def suite_pod_def)
  have each: "c_Port ` set (p_Containers (h ! r)) = {80, 81}"
      "c_Protocol ` set (p_Containers (h ! r)) = {ProtocolTCP, ProtocolUDP}"
    if "r \<in> set (all_refs (m_Namespaces m))" for r
    using arg_cong [OF pp [OF that], of "\<lambda>xs. fst ` set xs"] arg_cong [OF pp [OF that], of "\<lambda>xs. snd ` set xs"]
    by (simp_all add: image_image insert_commute)
  have all: "f ` set (model_containers h (m_Namespaces m)) =
      (\<Union>r \<in> set (all_refs (m_Namespaces m)). f ` set (p_Containers (h ! r)))" for f :: "container \<Rightarrow> 'b"
    by (auto simp: model_containers_def)
  have "set ports = {80, 81} \<and> set protocols = {ProtocolTCP, ProtocolUDP}" if ne: "all_refs (m_Namespaces m) \<noteq> []"
  proof -
    have "set (all_refs (m_Namespaces m)) \<noteq> {}" using ne by simp
    then have "c_Port ` set (model_containers h (m_Namespaces m)) = {80, 81}"
      and "c_Protocol ` set (model_containers h (m_Namespaces m)) = {ProtocolTCP, ProtocolUDP}"
      unfolding all by (simp_all add: each)
    then show ?thesis using extractPortProtocols_set(2,4) [OF e] by auto
  qed
  with none e show ?thesis by (simp add: AllPortsProtocol_def Let_def)
qed

lemma suite_wait_step:
  assumes E: "order_law E" "steady E ans" and started: "suite_started E namespace names m (k_pods k)"
    and names: "\<forall>n \<in> set names. CHR ''/'' \<notin> set n"
  shows "\<exists>e m' k'. WaitForHTTPServers E PF m k = Inr (e, m', k') \<and>
           (e = None \<longleftrightarrow> suite_connected ans m (k_pods k)) \<and>
           (e = None \<longrightarrow> k_pods k' = k_pods k \<and> m_Namespaces m' = m_Namespaces m \<and> fst (AllPods m') = fst (AllPods m) \<and>
              suite_connected ans m' (k_pods k'))"
proof -
  obtain pods m0 where a: "AllPods m = (pods, m0)" by fastforce
  have inv: "suite_inv namespace names m (k_pods k)" using started by (simp add: suite_started_def)
  then have "cache_ok m" by (simp add: suite_inv_def model_ok_def)
  note pods = AllPods_result(1) [OF this a]
  have set: "set pods = set (all_refs (m_Namespaces m))" by (rule mset_eq_setD [OF pods])
  obtain ports protocols m1 where pp: "AllPortsProtocol (k_pods k) m = Inr ((ports, protocols), m1)"
    "all_refs (m_Namespaces m) \<noteq> [] \<longrightarrow> set ports = {80, 81} \<and> set protocols = {ProtocolTCP, ProtocolUDP}"
    using suite_ports [OF inv] by (elim exE conjE) (rule that)
  have "fst (AllPods m) = pods" by (simp add: a)
  from WaitForHTTPServers_steady [OF E suite_pods_ready [OF started names pods] this pp(1), of PF]
  obtain e m' k' where w: "WaitForHTTPServers E PF m k = Inr (e, m', k')"
      "e = None \<longleftrightarrow> (\<forall>port \<in> set ports. \<forall>proto \<in> set protocols. all_connected ans (k_pods k) pods m (new_case port proto))"
    and m': "k_pods k' = k_pods k" "m_Namespaces m' = m_Namespaces m" "m_dnsDomain m' = m_dnsDomain m"
      "fst (AllPods m') = pods" by blast
  have job: "make_job h m' = make_job h m" for h by (simp add: make_job_def fun_eq_iff m'(3))
  have iff: "e = None \<longleftrightarrow> suite_connected ans m (k_pods k)"
  proof (cases "all_refs (m_Namespaces m) = []")
    case False
    then have sets: "set ports = {80, 81}" "set protocols = {ProtocolTCP, ProtocolUDP}" using pp(2) by simp_all
    show ?thesis unfolding w(2) suite_connected_def all_connected_def set sets ..
  next
    case True
    have "pods = []" using pods by (simp add: True)
    then show ?thesis by (simp add: w(2) suite_connected_def all_connected_def True)
  qed
  moreover have "suite_connected ans m' h = suite_connected ans m h" for h
    by (simp add: suite_connected_def m'(2) job)
  ultimately show ?thesis using w(1) m' \<open>fst (AllPods m) = pods\<close>
    by (intro exI [of _ e] exI [of _ m'] exI [of _ k']) simp
qed

section \<open>What a suite that starts has\<close>

text \<open>The steps of the setup, one rule each.\<close>

lemma promises_exit_error:
  "promises (\<lambda>b. e = None \<longrightarrow> I b) (exit_if (e \<noteq> None)) (\<lambda>_. I)"
  by (rule promises_ends(1)) simp

lemma suite_model_promise:
  "promises (\<lambda>_. True) (suite_model namespace nodes)
     (\<lambda>_ b. suite_inv namespace (suite_pods nodes) (b_model b) (k_pods (b_kube b)))"
  unfolding suite_model_def
  by (rule promise_intros) (auto simp: Let_def suite_pods_distinct split: prod.splits intro: suite_model_inv)

lemma suite_start_promise:
  assumes "wrapf_law E"
  shows "promises (\<lambda>b. suite_inv namespace names (b_model b) (k_pods (b_kube b))) (suite_start E nodes)
           (\<lambda>e b. e = None \<longrightarrow> suite_started E namespace names (b_model b) (k_pods (b_kube b)))"
  unfolding suite_start_def
proof (rule promise_intros)
  fix b :: "'a board"
  assume "suite_inv namespace names (b_model b) (k_pods (b_kube b))"
  from suite_start_step [OF assms this, of nodes]
  show "\<exists>x b1. go_bind (StartPods E nodes (b_model b) (b_kube b))
                (\<lambda>(e, m, k). Inr (e, b\<lparr>b_model := m, b_kube := k\<rparr>)) = Inr (x, b1) \<and>
          (x = None \<longrightarrow> suite_started E namespace names (b_model b1) (k_pods (b_kube b1)))"
    by (elim exE conjE) simp
qed

lemma suite_remove_promise:
  "promises (\<lambda>b. suite_started E namespace names (b_model b) (k_pods (b_kube b))) (suite_remove_pending E namespace)
     (\<lambda>e b. e = None \<longrightarrow> suite_started E namespace names (b_model b) (k_pods (b_kube b)))"
  unfolding suite_remove_pending_def
proof (rule promise_intros)
  fix b :: "'a board"
  assume "suite_started E namespace names (b_model b) (k_pods (b_kube b))"
  from suite_remove_step [OF this]
  show "\<exists>x b1. go_bind (RemovePendingPodsInNamespace E namespace (b_model b, b_kube b))
                (\<lambda>(e, m, k). Inr (e, b\<lparr>b_model := m, b_kube := k\<rparr>)) = Inr (x, b1) \<and>
          (x = None \<longrightarrow> suite_started E namespace names (b_model b1) (k_pods (b_kube b1)))"
    by (elim exE conjE) simp
qed

text \<open>
  What the setup leaves: one namespace, whose pods carry the names of the suite and no two the same,
  are the ones every later probe goes through, have named containers and are all connected.
\<close>

definition suite_ready ::
  "(commandImpl \<Rightarrow> string \<times> err) \<Rightarrow> string \<Rightarrow> string list \<Rightarrow> model \<Rightarrow> pod_store \<Rightarrow> bool" where
  "suite_ready ans namespace names m h \<longleftrightarrow>
     names_of_namespaces m = [namespace] \<and> distinct (names_of_pods m h) \<and>
     mset (fst (AllPods m)) = mset (all_refs (m_Namespaces m)) \<and>
     (\<forall>r \<in> set (all_refs (m_Namespaces m)). r < length h) \<and>
     (\<forall>r \<in> set (all_refs (m_Namespaces m)). suite_pod namespace names (h ! r) \<and> named (h ! r)) \<and>
     suite_connected ans m h"

lemma suite_started_waited:
  assumes "suite_started E namespace names m h" and "m_Namespaces m' = m_Namespaces m"
    and "fst (AllPods m') = fst (AllPods m)" and "suite_connected ans m' h"
  shows "suite_ready ans namespace names m' h"
proof -
  have ok: "cache_ok m" using assms(1) by (simp add: suite_started_def suite_inv_def model_ok_def)
  have "mset (fst (AllPods m)) = mset (all_refs (m_Namespaces m))" using AllPods_result(1) [OF ok] by (metis prod.collapse)
  with assms show ?thesis
    by (simp add: suite_ready_def suite_started_def suite_inv_def model_ok_def names_of_namespaces_def names_of_pods_def)
qed

lemma suite_wait_promise:
  assumes "order_law E" "steady E ans" and names: "\<forall>n \<in> set names. CHR ''/'' \<notin> set n"
  shows "promises (\<lambda>b. suite_started E namespace names (b_model b) (k_pods (b_kube b))) (suite_wait E PF)
           (\<lambda>e b. e = None \<longrightarrow> suite_ready ans namespace names (b_model b) (k_pods (b_kube b)))"
  unfolding suite_wait_def
proof (rule promise_intros)
  fix b :: "'a board"
  assume st: "suite_started E namespace names (b_model b) (k_pods (b_kube b))"
  from suite_wait_step [OF assms(1,2) this names, of PF] obtain e m k where
    w: "WaitForHTTPServers E PF (b_model b) (b_kube b) = Inr (e, m, k)" and
    q: "e = None \<longrightarrow> k_pods k = k_pods (b_kube b) \<and> m_Namespaces m = m_Namespaces (b_model b) \<and>
          fst (AllPods m) = fst (AllPods (b_model b)) \<and> suite_connected ans m (k_pods k)"
    by (elim exE conjE) (rule that)
  have "e = None \<longrightarrow> suite_ready ans namespace names m (k_pods k)"
    using q suite_started_waited [OF st, of m ans] by auto
  with w show "\<exists>x b1. go_bind (WaitForHTTPServers E PF (b_model b) (b_kube b))
                (\<lambda>(e, m, k). Inr (e, b\<lparr>b_model := m, b_kube := k\<rparr>)) = Inr (x, b1) \<and>
          (x = None \<longrightarrow> suite_ready ans namespace names (b_model b1) (k_pods (b_kube b1)))"
    by simp
qed

lemma suite_setup_promise:
  assumes "wrapf_law E" "order_law E" "steady E ans"
  shows "promises (\<lambda>b. fst (fst (GetReadyNodes E (k_world (b_kube b)))) = nodes) (suite_setup E PF namespace)
           (\<lambda>_ b. suite_ready ans namespace (suite_pods nodes) (b_model b) (k_pods (b_kube b)))"
proof -
  let ?names = "suite_pods nodes"
  have slash: "\<forall>n \<in> set ?names. CHR ''/'' \<notin> set n" using suite_pods_no_slash by blast
  show ?thesis
    unfolding suite_setup_def
  proof (rule promises_bind [where Q = "\<lambda>(ns, e) _. ns = nodes"])
    show "promises (\<lambda>b. fst (fst (GetReadyNodes E (k_world (b_kube b)))) = nodes) (on_world (GetReadyNodes E))
            (\<lambda>(ns, e) _. ns = nodes)"
      by (rule promise_intros) auto
  next
    fix x :: "v1_node list \<times> err"
    obtain ns e where x: "x = (ns, e)" by fastforce
    show "promises (case x of (ns, e) \<Rightarrow> \<lambda>_. ns = nodes)
        (case x of (nodes, e) \<Rightarrow>
          run_bind (exit_if (e \<noteq> None)) (\<lambda>_.
          run_bind (suite_model namespace nodes) (\<lambda>_.
          run_bind (suite_start E nodes) (\<lambda>e.
          run_bind (exit_if (e \<noteq> None)) (\<lambda>_.
          run_bind (suite_remove_pending E namespace) (\<lambda>e.
          run_bind (exit_if (e \<noteq> None)) (\<lambda>_.
          run_bind (suite_wait E PF) (\<lambda>e. exit_if (e \<noteq> None)))))))))
        (\<lambda>_ b. suite_ready ans namespace ?names (b_model b) (k_pods (b_kube b)))"
    proof (cases "ns = nodes")
      case True
      show ?thesis
        unfolding x True prod.case
        by (rule promises_bind [OF promises_ends(1) [where Q = "\<lambda>_ _. True"]], simp)
           (intro promises_bind [OF suite_model_promise] promises_bind [OF suite_start_promise [OF assms(1)]]
              promises_bind [OF suite_remove_promise] promises_bind [OF suite_wait_promise [OF assms(2,3) slash]]
              promises_bind [OF promises_exit_error] promises_exit_error)
    qed (simp add: promises_def x)
  qed
qed

end
