(* ===== verification/Suite_Ready.thy ===== *)
theory Suite_Ready
  imports Suite
begin

text \<open>
  The setup of the suite as a whole: what it leaves when it returns, also of the pods that were seen
  pending, and a cluster of two nodes on which it does return.
\<close>

section \<open>The setup ends no test\<close>

lemma run_bind_Fails:
  "fst (run_bind f g b) = Fails \<longleftrightarrow> fst (f b) = Fails \<or> (\<exists>x b1. f b = (Returns x, b1) \<and> fst (g x b1) = Fails)"
  by (cases "f b") (auto simp: run_bind_def split: run.splits)

lemma step_never_Fails:
  "fst (on_world h b) \<noteq> Fails" "fst (on_board u b) \<noteq> Fails" "fst (put_board v b) \<noteq> Fails" "fst (exit_if c b) \<noteq> Fails"
  by (auto simp: step_defs split: prod.splits sum.splits)

lemma suite_setup_never_Fails: "fst (suite_setup E PF namespace b) \<noteq> Fails"
  by (auto simp: suite_setup_def suite_model_def suite_start_def suite_remove_pending_def suite_wait_def
      run_bind_Fails step_never_Fails split: prod.splits)

section \<open>The pods that were seen pending\<close>

text \<open>
  Removing the pods seen pending more often than the limit leaves none of those in the model; what is left without
  an address has a count that is the limit itself.
\<close>

lemma suite_remove_gone:
  assumes "err_loop (remove_pending E namespace) xs (m, k) = Inr (None, m', k')" and "suite_started E namespace names m (k_pods k)"
  shows "k_pods k' = k_pods k" and "set (all_refs (m_Namespaces m')) \<subseteq> set (all_refs (m_Namespaces m))"
    and "r \<in> set (all_refs (m_Namespaces m')) \<Longrightarrow> (p_Name (k_pods k ! r), n) \<in> set xs \<Longrightarrow> n \<le> PollTimesToDeterminePendingPod"
proof -
  have "k_pods k' = k_pods k \<and> set (all_refs (m_Namespaces m')) \<subseteq> set (all_refs (m_Namespaces m)) \<and>
      (\<forall>r \<in> set (all_refs (m_Namespaces m')). \<forall>n. (p_Name (k_pods k ! r), n) \<in> set xs \<longrightarrow> n \<le> PollTimesToDeterminePendingPod)"
    using assms
  proof (induction xs arbitrary: m k)
    case (Cons x xs)
    obtain name n where x: "x = (name, n)" by (cases x)
    from suite_remove_one [OF Cons.prems(2), of x] Cons.prems(1) obtain m1 k1 where
      step: "remove_pending E namespace x (m, k) = Inr (None, m1, k1)" and
      rest: "err_loop (remove_pending E namespace) xs (m1, k1) = Inr (None, m', k')" and
      1: "suite_started E namespace names m1 (k_pods k1)" "k_pods k1 = k_pods k"
      by (auto simp: go_bind_eq_Inr_iff split: if_splits)
    note IH = Cons.IH [OF rest 1(1), unfolded 1(2)]
    have inv: "suite_inv namespace names m (k_pods k)" using Cons.prems(2) by (simp add: suite_started_def)
    then have ok: "model_ok (m, k_pods k)" by (simp add: suite_inv_def)
    obtain ps where ps: "m_pods m = Some ps" using Cons.prems(2) by (auto simp: suite_started_def)
    note right = suite_rightly_named [OF inv, of name]
    have m1: "set (all_refs (m_Namespaces m1)) \<subseteq> set (all_refs (m_Namespaces m)) \<and>
        (\<forall>r \<in> set (all_refs (m_Namespaces m1)). PollTimesToDeterminePendingPod < n \<longrightarrow> p_Name (k_pods k ! r) \<noteq> name)"
    proof (cases "PollTimesToDeterminePendingPod < n")
      case True
      obtain de w where "DeletePod E name namespace (k_world k) = (de, w)" by fastforce
      with True obtain e where rm: "RemovePod (k_pods k) name namespace m = Inr (e, m1)"
        using step by (cases de) (auto simp: x remove_pending_def go_bind_eq_Inr_iff)
      show ?thesis using RemovePod_outcome [OF ok right ps] RemovePod_gone [OF ok right ps rm] rm by auto
    qed (use step in \<open>simp add: x remove_pending_def\<close>)
    show ?case
    proof (intro conjI ballI allI impI)
      fix r n' assume r: "r \<in> set (all_refs (m_Namespaces m'))" and mem: "(p_Name (k_pods k ! r), n') \<in> set (x # xs)"
      then have "r \<in> set (all_refs (m_Namespaces m1))" using IH by blast
      then show "n' \<le> PollTimesToDeterminePendingPod" using mem m1 IH r by (auto simp: x not_less [symmetric])
    qed (use IH m1 in auto)
  qed simp
  then show "k_pods k' = k_pods k" and "set (all_refs (m_Namespaces m')) \<subseteq> set (all_refs (m_Namespaces m))"
    and "r \<in> set (all_refs (m_Namespaces m')) \<Longrightarrow> (p_Name (k_pods k ! r), n) \<in> set xs \<Longrightarrow> n \<le> PollTimesToDeterminePendingPod"
    by auto
qed

lemma suite_remove_known:
  assumes "order_law E" and wf: "gomap_wf (k_PendingPods k)"
    and run: "RemovePendingPodsInNamespace E namespace (m, k) = Inr (None, m', k')"
    and started: "suite_started E namespace names m (k_pods k)"
    and known: "\<forall>r \<in> set (all_refs (m_Namespaces m)). known_or_pending E (k_PendingPods k) (k_pods k ! r)"
    and r: "r \<in> set (all_refs (m_Namespaces m'))"
  shows "reported E (k_pods k' ! r) \<or>
         p_NodeName (k_pods k' ! r) = '''' \<and>
         pending_count (k_PendingPods k') (p_Name (k_pods k' ! r)) = PollTimesToDeterminePendingPod"
proof (cases "k_PendingPods k = []")
  case True
  then have "m' = m" "k' = k" using run by (simp_all add: RemovePendingPodsInNamespace_def)
  with known r True show ?thesis by (auto simp: known_or_pending_def PollTimesToDeterminePendingPod_def)
next
  case False
  let ?pend = "k_PendingPods k"
  obtain is' w where o: "goOrder E (length ?pend) (k_world k) = (is', w)" by fastforce
  have set: "set (in_order is' ?pend) = set ?pend" by (rule mset_eq_setD) (rule mset_goOrder [OF assms(1) o])
  have loop: "err_loop (remove_pending E namespace) (in_order is' ?pend) (m, k\<lparr>k_world := w\<rparr>) = Inr (None, m', k')"
    using run False o by (simp add: RemovePendingPodsInNamespace_def)
  have "suite_started E namespace names m (k_pods (k\<lparr>k_world := w\<rparr>))" using started by simp
  note gone = suite_remove_gone [OF loop this, simplified]
  let ?p = "k_pods k ! r"
  have "r \<in> set (all_refs (m_Namespaces m))" using gone(2) r by blast
  with known consider "reported E ?p" | "p_NodeName ?p = ''''" "PollTimesToDeterminePendingPod \<le> pending_count ?pend (p_Name ?p)"
    by (auto simp: known_or_pending_def)
  then show ?thesis
  proof cases
    case 2
    then obtain n where n: "map_of ?pend (p_Name ?p) = Some n" "PollTimesToDeterminePendingPod \<le> n"
      by (cases "map_of ?pend (p_Name ?p)") (simp_all add: pending_count_def PollTimesToDeterminePendingPod_def)
    then have "(p_Name ?p, n) \<in> set ?pend" using gomap_lookup_iff [OF wf] by blast
    then have "n = PollTimesToDeterminePendingPod" using gone(3) [OF r] set n(2) by (simp add: order.antisym)
    then have "map_of (k_PendingPods k') (p_Name ?p) = Some PollTimesToDeterminePendingPod"
      using RemovePending_map [OF assms(1) wf run, of "p_Name ?p"] n(1) by simp
    with 2(1) show ?thesis by (simp add: gone(1) pending_count_def)
  qed (simp add: gone(1))
qed

text \<open>The steps of a setup that returned.\<close>

lemma suite_setup_steps:
  assumes "suite_setup E PF namespace b = (Returns (), b1)"
  obtains nodes w c m2 k2 m3 k3 where
    "GetReadyNodes E (k_world (b_kube b)) = ((nodes, None), w)"
    "suite_model namespace nodes (b\<lparr>b_kube := (b_kube b)\<lparr>k_world := w\<rparr>\<rparr>) = (Returns (), c)"
    "StartPods E nodes (b_model c) (b_kube c) = Inr (None, m2, k2)"
    "RemovePendingPodsInNamespace E namespace (m2, k2) = Inr (None, m3, k3)"
    "WaitForHTTPServers E PF m3 k3 = Inr (None, b_model b1, b_kube b1)"
  using assms
  unfolding suite_setup_def suite_start_def suite_remove_pending_def suite_wait_def
  by (clarsimp simp: returns_iff go_bind_eq_Inr_iff)

lemma suite_setup_known:
  assumes laws: "wrapf_law E" "order_law E" "steady E ans" "poll_law E" and wf: "gomap_wf (k_PendingPods (b_kube b))"
    and run: "suite_setup E PF namespace b = (Returns (), b1)"
    and r: "r \<in> set (all_refs (m_Namespaces (b_model b1)))"
  shows "reported E (k_pods (b_kube b1) ! r) \<or>
         p_NodeName (k_pods (b_kube b1) ! r) = '''' \<and>
         pending_count (k_PendingPods (b_kube b1)) (p_Name (k_pods (b_kube b1) ! r)) = PollTimesToDeterminePendingPod"
proof -
  obtain nodes w c m2 k2 m3 k3 where
    n: "GetReadyNodes E (k_world (b_kube b)) = ((nodes, None), w)" and
    c: "suite_model namespace nodes (b\<lparr>b_kube := (b_kube b)\<lparr>k_world := w\<rparr>\<rparr>) = (Returns (), c)" and
    s: "StartPods E nodes (b_model c) (b_kube c) = Inr (None, m2, k2)" and
    rm: "RemovePendingPodsInNamespace E namespace (m2, k2) = Inr (None, m3, k3)" and
    w: "WaitForHTTPServers E PF m3 k3 = Inr (None, b_model b1, b_kube b1)"
    by (rule suite_setup_steps [OF run])
  let ?names = "suite_pods nodes"
  have inv: "suite_inv namespace ?names (b_model c) (k_pods (b_kube c))"
    using suite_model_promise [of namespace nodes] c
    by (auto simp: promises_def dest!: spec [of _ "b\<lparr>b_kube := (b_kube b)\<lparr>k_world := w\<rparr>\<rparr>"])
  have "k_PendingPods (b_kube c) = k_PendingPods (b_kube b)"
    using c by (auto simp: suite_model_def put_board_def Let_def split: prod.splits)
  then have wfc: "gomap_wf (k_PendingPods (b_kube c))" using wf by simp
  from suite_start_step [OF laws(1) inv, of nodes] s have
    started: "suite_started E namespace ?names m2 (k_pods k2)" and ns: "m_Namespaces m2 = m_Namespaces (b_model c)" by auto
  have "cache_ok (b_model c)" "\<forall>ns \<in> set (m_Namespaces (b_model c)). ns_allocated (k_pods (b_kube c)) ns"
    using inv by (auto simp: suite_inv_def model_ok_def ns_allocated_def all_refs_concat)
  note known = StartPods_known [OF laws(1,4) this s]
  from suite_remove_step [OF started] rm have started3: "suite_started E namespace ?names m3 (k_pods k3)" by auto
  have "\<forall>n \<in> set ?names. CHR ''/'' \<notin> set n" using suite_pods_no_slash by blast
  from suite_wait_step [OF laws(2,3) started3 this, of PF] w have
    same: "k_pods (b_kube b1) = k_pods k3" "m_Namespaces (b_model b1) = m_Namespaces m3" by auto
  have "k_PendingPods (b_kube b1) = k_PendingPods k3" by (rule WaitForHTTPServers_pending [OF w])
  then show ?thesis
    using suite_remove_known [OF laws(2) known(2) [OF wfc] rm started, of r] known(1) r by (simp add: same ns)
qed

section \<open>A cluster on which it returns\<close>

text \<open>A cluster of two ready nodes whose commands all succeed.\<close>

definition live_client :: "nat client" where
  "live_client = demo_client\<lparr>execStream := \<lambda>req w. (('''', '''', None), w),
     nodesList := \<lambda>w. (([demo_node ''n5'', demo_node ''n6''], None), w)\<rparr>"

lemma live_laws: "wrapf_law live_client" "order_law live_client" "steady live_client (\<lambda>_. ('''', None))"
proof -
  show "wrapf_law live_client" using demo_wrapf_law by (simp add: wrapf_law_def live_client_def)
  show "order_law live_client" using demo_order_law by (simp add: order_law_def live_client_def)
  have "TrimSpace [] = []" by (simp add: TrimSpace_def)
  then show "steady live_client (\<lambda>_. ('''', None))"
    by (simp add: steady_def Execute_def ExecWithOptions_def execute_def exec_request_of_def live_client_def demo_client_def)
qed

text \<open>Its pods start as those of \<open>demo_client\<close> do.\<close>

lemma live_fields:
  "errWrapf live_client = errWrapf demo_client" "randIntn live_client = randIntn demo_client"
  "podsCreate live_client = podsCreate demo_client" "podsGet live_client = podsGet demo_client"
  "namespacesCreate live_client = namespacesCreate demo_client"
  "pollImmediate live_client = pollImmediate demo_client"
  by (simp_all add: live_client_def)

lemma live_specs: "ContainersToK8SSpec live_client = ContainersToK8SSpec demo_client"
proof -
  have names: "GetName live_client = GetName demo_client" "PortName live_client = PortName demo_client"
    unfolding fun_eq_iff GetName_def PortName_def live_fields by simp_all
  have "c_ToK8SSpec live_client = c_ToK8SSpec demo_client" unfolding fun_eq_iff c_ToK8SSpec_def names by simp
  then have "ContainersToK8SSpec live_client cs w = ContainersToK8SSpec demo_client cs w" for cs w
    by (induction cs arbitrary: w) simp_all
  then show ?thesis by blast
qed

lemma live_starts: "StartPods live_client = StartPods demo_client"
proof -
  have pods: "spec_of live_client = spec_of demo_client" "CreatePod live_client = CreatePod demo_client"
    "CreateNamespace live_client = CreateNamespace demo_client" "GetPod live_client = GetPod demo_client"
    "WaitForPodRunningInNamespace live_client = WaitForPodRunningInNamespace demo_client"
    unfolding fun_eq_iff spec_of_def p_ToK8SSpec_def live_specs CreatePod_def CreateNamespace_def GetPod_def
      WaitForPodRunningInNamespace_def podRunning_def live_fields by simp_all
  have steps: "start_pod live_client = start_pod demo_client" "WaitAndSetIPs live_client = WaitAndSetIPs demo_client"
    unfolding fun_eq_iff start_pod_def WaitAndSetIPs_def pods live_fields by simp_all
  show ?thesis
    unfolding fun_eq_iff StartPods_def start_namespace_def StartPodsInNamespace_def pods steps by simp
qed

lemma live_deletes: "RemovePendingPodsInNamespace live_client namespace s = Inr (e, s') \<Longrightarrow> e = None"
proof -
  have "remove_pending live_client namespace x s = Inr (e, s') \<Longrightarrow> e = None" for x s e s'
    by (cases x; cases s) (auto simp: remove_pending_def DeletePod_def live_client_def demo_client_def go_bind_eq_Inr_iff
        split: if_splits prod.splits)
  moreover assume "RemovePendingPodsInNamespace live_client namespace s = Inr (e, s')"
  ultimately show "e = None"
    by (cases s) (auto simp: RemovePendingPodsInNamespace_def Let_def split: if_splits prod.splits
        dest!: err_loop_no_error [rotated])
qed

lemma length_suite_pods: "length (suite_pods nodes) = length nodes"
  by (simp add: suite_pods_def del: upt_Suc upt.simps)

lemma suite_model_pods:
  "suite_model namespace nodes b = (x, b1) \<Longrightarrow>
     x = Returns () \<and> (\<exists>ns. m_Namespaces (b_model b1) = [ns] \<and> length (ns_Pods ns) = length nodes)"
  by (auto simp: suite_model_def put_board_def NewModel_def NewNamespaceWithPods_def length_suite_pods
      NewNamespaceWithPodsGivenImageAndCommand_def alloc_namespace_def Let_def simp del: upt.simps upt_Suc split: prod.splits)

definition live_board :: "nat board" where
  "live_board = \<lparr>b_model = demo_unstarted, b_kube = \<lparr>k_pods = [], k_PendingPods = [], k_world = 0\<rparr>,
     b_sid = None, b_services = [], b_errors = 0\<rparr>"

lemma live_nodes: "GetReadyNodes live_client w = (([demo_node ''n5'', demo_node ''n6''], None), w)"
  by (simp add: GetReadyNodes_def live_client_def demo_node_def)

lemma live_setup_returns: "fst (suite_setup live_client PF ''x'' live_board) = Returns ()"
proof -
  let ?nodes = "[demo_node ''n5'', demo_node ''n6'']" and ?ans = "\<lambda>_. ('''', None)"
  obtain x b1 where m: "suite_model ''x'' ?nodes live_board = (x, b1)" by fastforce
  from suite_model_pods [OF this] obtain ns where
    ns: "x = Returns ()" "m_Namespaces (b_model b1) = [ns]" "length (ns_Pods ns) = 2" by auto
  have "suite_inv ''x'' (suite_pods ?nodes) (b_model b1) (k_pods (b_kube b1))"
    using suite_model_promise [of "''x''" ?nodes] m ns(1) by (auto simp: promises_def dest!: spec [of _ live_board])
  from suite_start_step [OF live_laws(1) this, of ?nodes] obtain e m2 k2 where
    s: "StartPods live_client ?nodes (b_model b1) (b_kube b1) = Inr (e, m2, k2)"
      "e = None \<longrightarrow> suite_started live_client ''x'' (suite_pods ?nodes) m2 (k_pods k2)" by blast
  have "e = None" by (rule demo_start_ends [OF ns(2,3) s(1) [unfolded live_starts]])
  note s = s(1) [unfolded this] s(2) [rule_format, OF this]
  from suite_remove_step [OF s(2)] obtain e m3 k3 where
    r: "RemovePendingPodsInNamespace live_client ''x'' (m2, k2) = Inr (e, m3, k3)"
      "suite_started live_client ''x'' (suite_pods ?nodes) m3 (k_pods k3)" by blast
  have "e = None" by (rule live_deletes [OF r(1)])
  note r = r(1) [unfolded this] r(2)
  have all: "suite_connected ?ans m3 h" for h by (simp add: suite_connected_def answer_def make_job_def Let_def)
  have "\<forall>n \<in> set (suite_pods ?nodes). CHR ''/'' \<notin> set n" using suite_pods_no_slash by blast
  from suite_wait_step [OF live_laws(2,3) r(2) this, of PF] obtain e m4 k4 where
    "WaitForHTTPServers live_client PF m3 k3 = Inr (e, m4, k4)" "e = None \<longleftrightarrow> suite_connected ?ans m3 (k_pods k3)"
    by (elim exE conjE) (rule that)
  then have "WaitForHTTPServers live_client PF m3 k3 = Inr (None, m4, k4)" using all by simp
  with m ns(1) s(1) r(1) show ?thesis
    by (simp add: suite_setup_def run_bind_def suite_start_def suite_remove_pending_def suite_wait_def
        on_world_def on_board_def exit_if_def live_nodes)
qed

section \<open>Properties\<close>

text \<open>
  C6. On a cluster that answers its commands steadily, the setup of the suite never panics, never
  waits for ever and never fails a test: it returns or ends the program. When it returns, the model has the
  one namespace of the suite; its pods carry names of the suite, no two the same, and named containers;
  every ordered pair of them is connected on both ports and both protocols; and each has
  the node and the addresses the cluster reports, but for those that were seen pending exactly as often as the limit,
  which have no node: those seen pending more often are gone.
\<close>

theorem suite_setup_ready:
  assumes "wrapf_law E" and "order_law E" and "steady E ans" and "poll_law E"
    and "fst (fst (GetReadyNodes E (k_world (b_kube b)))) = nodes" and "gomap_wf (k_PendingPods (b_kube b))"
  shows "fst (suite_setup E PF namespace b) = Exits \<or>
         (\<exists>b1. suite_setup E PF namespace b = (Returns (), b1) \<and>
               suite_ready ans namespace (suite_pods nodes) (b_model b1) (k_pods (b_kube b1)) \<and>
               (\<forall>r \<in> set (all_refs (m_Namespaces (b_model b1))). reported E (k_pods (b_kube b1) ! r) \<or>
                  p_NodeName (k_pods (b_kube b1) ! r) = '''' \<and>
                  pending_count (k_PendingPods (b_kube b1)) (p_Name (k_pods (b_kube b1) ! r)) = PollTimesToDeterminePendingPod))"
proof -
  have "fst (suite_setup E PF namespace b) = Exits \<or>
         (\<exists>b1. suite_setup E PF namespace b = (Returns (), b1) \<and>
               suite_ready ans namespace (suite_pods nodes) (b_model b1) (k_pods (b_kube b1)))"
    using suite_setup_promise [OF assms(1-3), of nodes PF namespace] suite_setup_never_Fails [of E PF namespace b] assms(5)
    unfolding promises_def by (cases "suite_setup E PF namespace b"; cases "fst (suite_setup E PF namespace b)") force+
  then show ?thesis using suite_setup_known [OF assms(1-4,6)] by blast
qed

theorem suite_setup_ready_witness:
  "\<exists>b1. suite_setup live_client (\<lambda>_. (Fin 0, None)) ''x'' live_board = (Returns (), b1) \<and>
     suite_ready (\<lambda>_. ('''', None)) ''x'' (suite_pods [demo_node ''n5'', demo_node ''n6'']) (b_model b1) (k_pods (b_kube b1))"
proof -
  have nodes: "fst (fst (GetReadyNodes live_client (k_world (b_kube live_board)))) = [demo_node ''n5'', demo_node ''n6'']"
    by (simp add: live_nodes)
  have poll: "poll_law live_client" using demo_poll_law by (simp add: poll_law_def live_client_def)
  have wf: "gomap_wf (k_PendingPods (b_kube live_board))" by (simp add: live_board_def)
  from suite_setup_ready [OF live_laws poll nodes wf, of "\<lambda>_. (Fin 0, None)" "''x''"] show ?thesis
    using live_setup_returns [of "\<lambda>_. (Fin 0, None)"] by auto
qed

end
