(* ===== verification/Features.thy ===== *)
theory Features
  imports Suite_Ready
begin

text \<open>
  The features of \<open>tests/*.go\<close>: for each its setup, its assessment and its cleanup, as steps on the
  board. The pods a test function captured when it started are an argument; so is what a setup
  leaves in the function's own variables. Sleeping and logging are left out.
\<close>

section \<open>Steps the features share\<close>

definition pod_at :: "pod_ref list \<Rightarrow> nat \<Rightarrow> ('w, pod_ref) step" where
  "pod_at pods i = on_board (\<lambda>b. if i < length pods then Inr (pods ! i, b) else Inl IndexOutOfRange)"

definition read_pod :: "pod_ref \<Rightarrow> (pod \<Rightarrow> 'a go) \<Rightarrow> ('w, 'a) step" where
  "read_pod r f = on_board (\<lambda>b. go_bind (f (k_pods (b_kube b) ! r)) (\<lambda>x. Inr (x, b)))"

definition first_container :: "pod \<Rightarrow> container go" where
  "first_container p = (case p_Containers p of [] \<Rightarrow> Inl IndexOutOfRange | c # _ \<Rightarrow> Inr c)"

definition all_pods :: "('w, pod_ref list) step" where
  "all_pods = on_board (\<lambda>b. let (pods, m) = AllPods (b_model b) in Inr (pods, b\<lparr>b_model := m\<rparr>))"

text \<open>A literal \<open>&entities.Pod{...}\<close>, and the model's pod operations.\<close>

definition alloc_pod :: "pod \<Rightarrow> ('w, pod_ref) step" where
  "alloc_pod p = on_board (\<lambda>b. Inr (length (k_pods (b_kube b)),
                     b\<lparr>b_kube := (b_kube b)\<lparr>k_pods := k_pods (b_kube b) @ [p]\<rparr>\<rparr>))"

definition add_pod :: "pod_ref \<Rightarrow> string \<Rightarrow> ('w, unit) step" where
  "add_pod r namespace = on_board (\<lambda>b. go_bind (AddPod r namespace (b_model b)) (\<lambda>m. Inr ((), b\<lparr>b_model := m\<rparr>)))"

definition remove_pod :: "string \<Rightarrow> string \<Rightarrow> ('w, err) step" where
  "remove_pod name namespace =
     on_board (\<lambda>b. go_bind (RemovePod (k_pods (b_kube b)) name namespace (b_model b)) (\<lambda>(e, m). Inr (e, b\<lparr>b_model := m\<rparr>)))"

text \<open>A service of a pod: its specification may create the pod's labels and draws a number.\<close>

definition new_service ::
  "(pod \<Rightarrow> svc_id \<Rightarrow> 'w \<Rightarrow> ((v1_service \<times> pod) \<times> svc_id \<times> 'w) go) \<Rightarrow> pod_ref \<Rightarrow> ('w, service) step" where
  "new_service spec r = on_board (\<lambda>b.
     go_bind (spec (k_pods (b_kube b) ! r) (b_sid b) (k_world (b_kube b))) (\<lambda>((svc, p), sid, w).
       Inr (Kube_NewService svc,
            b\<lparr>b_sid := sid, b_kube := (b_kube b)\<lparr>k_pods := (k_pods (b_kube b))[r := p], k_world := w\<rparr>\<rparr>)))"

definition make_services :: "nat \<Rightarrow> ('w, unit) step" where
  "make_services n = put_board (\<lambda>b. b\<lparr>b_services := replicate n None\<rparr>)"

definition append_service :: "service \<Rightarrow> ('w, unit) step" where
  "append_service svc = put_board (\<lambda>b. b\<lparr>b_services := b_services b @ [Some svc]\<rparr>)"

text \<open>\<open>CreateServiceFromTemplate\<close> with the process-wide counter.\<close>

definition from_template ::
  "('w, 'z) client_scheme \<Rightarrow> service_template \<Rightarrow> ('w, string \<times> service option \<times> string \<times> err) step" where
  "from_template E t b =
     (case CreateServiceFromTemplate E t (b_sid b) (k_world (b_kube b)) of
        None \<Rightarrow> (Hangs, b)
      | Some (r, sid, w) \<Rightarrow>
          (let b1 = b\<lparr>b_sid := sid, b_kube := (b_kube b)\<lparr>k_world := w\<rparr>\<rparr>
           in case r of Inl p \<Rightarrow> (Panics p, b1) | Inr x \<Rightarrow> (Returns x, b1)))"

text \<open>\<open>services = []*kubernetes.Service{service.(*kubernetes.Service)}\<close>.\<close>

definition only_service :: "service option \<Rightarrow> ('w, unit) step" where
  "only_service service =
     run_bind (assert_not_nil service) (\<lambda>svc. put_board (\<lambda>b. b\<lparr>b_services := [Some svc]\<rparr>))"

section \<open>Expecting and judging\<close>

definition new_reachability :: "pod_ref list \<Rightarrow> bool \<Rightarrow> ('w, reachability) step" where
  "new_reachability pods d = on_board (\<lambda>b. Inr (NewReachability (k_pods (b_kube b)) pods d, b))"

definition expect_peer :: "peer \<Rightarrow> peer \<Rightarrow> bool \<Rightarrow> reachability \<Rightarrow> ('w, reachability) step" where
  "expect_peer from to conn r =
     on_board (\<lambda>b. go_bind (ExpectPeer (k_pods (b_kube b)) from to conn r) (\<lambda>r1. Inr (r1, b)))"

text \<open>The reachability is shared through its pointer: what the probes observed stays in it.\<close>

definition validate ::
  "('w, 'z) client_scheme \<Rightarrow> (string \<Rightarrow> float64 \<times> err) \<Rightarrow> test_case \<Rightarrow> bool \<Rightarrow> bool \<Rightarrow> bool \<Rightarrow>
   ('w, nat \<times> reachability option) step" where
  "validate E PF tc ignoreLoopback reachTargetPod measureBandWidth = on_board (\<lambda>b.
     go_bind (ValidateAndMeasureBandwidthOrFail E PF (b_model b) tc ignoreLoopback reachTargetPod
                measureBandWidth (b_kube b)) (\<lambda>(wrong, tc1, m, k).
       Inr ((wrong, tc_Reachability tc1), b\<lparr>b_model := m, b_kube := k\<rparr>)))"

definition must_no_wrong :: "nat \<Rightarrow> ('w, unit) step" where
  "must_no_wrong wrong = error_if (MustNoWrong (int wrong) \<noteq> None)"

definition judge ::
  "('w, 'z) client_scheme \<Rightarrow> (string \<Rightarrow> float64 \<times> err) \<Rightarrow> int \<Rightarrow> protocol \<Rightarrow> string \<Rightarrow> reachability \<Rightarrow>
   bool \<Rightarrow> bool \<Rightarrow> ('w, reachability option) step" where
  "judge E PF toPort proto serviceType r ignoreLoopback reachTargetPod =
     run_bind (validate E PF \<lparr>tc_ToPort = toPort, tc_Protocol = proto, tc_Reachability = Some r,
                              tc_ServiceType = serviceType\<rparr> ignoreLoopback reachTargetPod False) (\<lambda>(wrong, r1).
     run_bind (must_no_wrong wrong) (\<lambda>_. run_return r1))"

text \<open>Every pair is expected to be connected.\<close>

definition judge_all ::
  "('w, 'z) client_scheme \<Rightarrow> (string \<Rightarrow> float64 \<times> err) \<Rightarrow> pod_ref list \<Rightarrow> int \<Rightarrow> string \<Rightarrow> protocol \<Rightarrow> ('w, unit) step" where
  "judge_all E PF pods toPort serviceType proto =
     run_bind (new_reachability pods True) (\<lambda>r.
     run_bind (judge E PF toPort proto serviceType r False False) (\<lambda>_. run_return ()))"

definition reset_board :: "('w, 'z) client_scheme \<Rightarrow> ('w, unit) step" where
  "reset_board E =
     run_bind (on_board (\<lambda>b. let (e, m, k) = ResetTestBoard E (b_services b) (b_model b) (b_kube b)
                             in Inr (e, b\<lparr>b_model := m, b_kube := k\<rparr>)))
       (\<lambda>e. fatal_if (e \<noteq> None))"

section \<open>basic_service_test.go\<close>

text \<open>ClusterIP: a service for each pod, its address from the watch.\<close>

definition cluster_ip_pod :: "('w, 'z) client_scheme \<Rightarrow> pod_ref \<Rightarrow> ('w, unit) step" where
  "cluster_ip_pod E r =
     run_bind (new_service (ClusterIPService E) r) (\<lambda>svc.
     run_bind (on_world (s_Create E svc)) (\<lambda>(_, e).
     run_bind (error_if (e \<noteq> None)) (\<lambda>_.
     run_bind (on_watch (WaitForEndpoint E svc)) (\<lambda>(result, e).
     run_bind (error_if (e \<noteq> None \<or> \<not> result)) (\<lambda>_.
     run_bind (on_watch (WaitForClusterIP E svc)) (\<lambda>(clusterIP, e).
     run_bind (error_if (e \<noteq> None \<or> clusterIP = '''')) (\<lambda>_.
     run_bind (set_pod r (SetClusterIP clusterIP)) (\<lambda>_. append_service svc))))))))"

definition cluster_ip_setup :: "('w, 'z) client_scheme \<Rightarrow> pod_ref list \<Rightarrow> ('w, unit) step" where
  "cluster_ip_setup E pods =
     run_bind (make_services (length pods)) (\<lambda>_. run_each (cluster_ip_pod E) pods)"

definition cluster_ip_assess ::
  "('w, 'z) client_scheme \<Rightarrow> (string \<Rightarrow> float64 \<times> err) \<Rightarrow> pod_ref list \<Rightarrow> ('w, unit) step" where
  "cluster_ip_assess E PF pods =
     run_bind (judge_all E PF pods 80 ClusterIP ProtocolTCP) (\<lambda>_. judge_all E PF pods 80 ClusterIP ProtocolUDP)"

text \<open>NodePort: the port the service got on the nodes.\<close>

definition node_port_pod :: "('w, 'z) client_scheme \<Rightarrow> pod_ref \<Rightarrow> ('w, unit) step" where
  "node_port_pod E r =
     run_bind (new_service (NodePortService E) r) (\<lambda>svc.
     run_bind (on_world (s_Create E svc)) (\<lambda>(_, e).
     run_bind (error_if (e \<noteq> None)) (\<lambda>_.
     run_bind (on_watch (WaitForEndpoint E svc)) (\<lambda>(result, e).
     run_bind (error_if (e \<noteq> None \<or> \<not> result)) (\<lambda>_.
     run_bind (on_watch (WaitForNodePort E svc)) (\<lambda>(nodePort, e).
     run_bind (error_if (e \<noteq> None)) (\<lambda>_.
     run_bind (set_pod r (SetToPort nodePort)) (\<lambda>_. append_service svc))))))))"

definition node_port_setup :: "('w, 'z) client_scheme \<Rightarrow> pod_ref list \<Rightarrow> ('w, unit) step" where
  "node_port_setup E pods =
     run_bind (make_services (length pods)) (\<lambda>_. run_each (node_port_pod E) pods)"

definition node_port_assess ::
  "('w, 'z) client_scheme \<Rightarrow> (string \<Rightarrow> float64 \<times> err) \<Rightarrow> pod_ref list \<Rightarrow> ('w, unit) step" where
  "node_port_assess E PF pods =
     run_bind (judge_all E PF pods 0 NodePort ProtocolTCP) (\<lambda>_. judge_all E PF pods 0 NodePort ProtocolUDP)"

text \<open>LoadBalancer: one service for each protocol; both addresses are kept.\<close>

definition load_balancer_pod :: "('w, 'z) client_scheme \<Rightarrow> pod_ref \<Rightarrow> ('w, unit) step" where
  "load_balancer_pod E r =
     run_bind (new_service (\<lambda>p. LoadBalancerServiceByProtocol E p ProtocolTCP) r) (\<lambda>serviceTCP.
     run_bind (on_world (s_Create E serviceTCP)) (\<lambda>(_, e).
     run_bind (error_if (e \<noteq> None)) (\<lambda>_.
     run_bind (new_service (\<lambda>p. LoadBalancerServiceByProtocol E p ProtocolUDP) r) (\<lambda>serviceUDP.
     run_bind (on_world (s_Create E serviceUDP)) (\<lambda>(_, e).
     run_bind (error_if (e \<noteq> None)) (\<lambda>_.
     run_bind (on_watch (WaitForEndpoint E serviceTCP)) (\<lambda>(result, e).
     run_bind (error_if (e \<noteq> None \<or> \<not> result)) (\<lambda>_.
     run_bind (on_watch (WaitForEndpoint E serviceUDP)) (\<lambda>(result, e).
     run_bind (error_if (e \<noteq> None \<or> \<not> result)) (\<lambda>_.
     run_bind (on_watch (WaitForExternalIP E serviceTCP)) (\<lambda>(ipsForTCP, e).
     run_bind (error_if (e \<noteq> None)) (\<lambda>_.
     run_bind (on_watch (WaitForExternalIP E serviceUDP)) (\<lambda>(ipsForUDP, e).
     run_bind (error_if (e \<noteq> None)) (\<lambda>_.
       let ips = NewExternalIPs ipsForTCP ProtocolTCP @ NewExternalIPs ipsForUDP ProtocolUDP
       in run_bind (error_if (length ips = 0)) (\<lambda>_.
          run_bind (set_pod r (SetToPort 80)) (\<lambda>_.
          run_bind (set_pod r (SetExternalIPs ips)) (\<lambda>_.
          run_bind (append_service serviceTCP) (\<lambda>_. append_service serviceUDP))))))))))))))))))"

definition load_balancer_setup :: "('w, 'z) client_scheme \<Rightarrow> pod_ref list \<Rightarrow> ('w, unit) step" where
  "load_balancer_setup E pods =
     run_bind (make_services (length pods)) (\<lambda>_. run_each (load_balancer_pod E) pods)"

definition load_balancer_assess ::
  "('w, 'z) client_scheme \<Rightarrow> (string \<Rightarrow> float64 \<times> err) \<Rightarrow> pod_ref list \<Rightarrow> ('w, unit) step" where
  "load_balancer_assess E PF pods =
     run_bind (judge_all E PF pods 0 LoadBalancer ProtocolTCP) (\<lambda>_. judge_all E PF pods 0 LoadBalancer ProtocolUDP)"

text \<open>Endless: a service that selects no pod; no pod may reach it.\<close>

definition endless_template :: "string \<Rightarrow> service_template" where
  "endless_template namespace = \<lparr>t_Name = ''endless'', t_Namespace = namespace, t_Selector = Map.empty,
     t_ProtocolPorts = [\<lparr>ppp_Protocol = ProtocolTCP, ppp_Port = 80\<rparr>], t_SessionAffinity = False\<rparr>"

definition endless_setup :: "('w, 'z) client_scheme \<Rightarrow> string \<Rightarrow> pod_ref list \<Rightarrow> ('w, unit) step" where
  "endless_setup E namespace pods =
     run_bind (make_services (length pods)) (\<lambda>_.
     run_bind (from_template E (endless_template namespace)) (\<lambda>(_, service, clusterIP, e).
     run_bind (error_if (e \<noteq> None)) (\<lambda>_.
     run_bind (run_each (\<lambda>r. run_bind (set_pod r (SetClusterIP clusterIP)) (\<lambda>_. set_pod r (SetToPort 80))) pods) (\<lambda>_.
       only_service service))))"

definition endless_assess ::
  "('w, 'z) client_scheme \<Rightarrow> (string \<Rightarrow> float64 \<times> err) \<Rightarrow> string \<Rightarrow> ('w, unit) step" where
  "endless_assess E PF namespace =
     run_bind all_pods (\<lambda>pods.
     run_bind (new_reachability pods True) (\<lambda>r.
     run_bind (expect_peer \<lparr>peer_Namespace = namespace, peer_Pod = ''''\<rparr> \<lparr>peer_Namespace = namespace, peer_Pod = ''''\<rparr> False r) (\<lambda>r.
     run_bind (judge E PF 0 ProtocolTCP ClusterIP r False False) (\<lambda>_. run_return ()))))"

text \<open>Hairpin: the first pod through its own service.\<close>

definition hairpin_template :: "string \<Rightarrow> protocol \<Rightarrow> service_template" where
  "hairpin_template namespace proto = \<lparr>t_Name = ''hairpin'', t_Namespace = namespace, t_Selector = Map.empty,
     t_ProtocolPorts = [\<lparr>ppp_Protocol = proto, ppp_Port = 80\<rparr>], t_SessionAffinity = False\<rparr>"

definition hairpin_setup :: "('w, 'z) client_scheme \<Rightarrow> string \<Rightarrow> pod_ref list \<Rightarrow> ('w, unit) step" where
  "hairpin_setup E namespace pods =
     run_bind (make_services (length pods)) (\<lambda>_.
     run_bind (pod_at pods 0) (\<lambda>r.
     run_bind (read_pod r first_container) (\<lambda>c.
     run_bind (from_template E (hairpin_template namespace (c_Protocol c))) (\<lambda>(serviceName, service, _, e).
     run_bind (error_if (e \<noteq> None)) (\<lambda>_.
     run_bind (set_pod r (SetServiceName serviceName)) (\<lambda>_. only_service service))))))"

definition hairpin_assess ::
  "('w, 'z) client_scheme \<Rightarrow> (string \<Rightarrow> float64 \<times> err) \<Rightarrow> string \<Rightarrow> pod_ref list \<Rightarrow> ('w, unit) step" where
  "hairpin_assess E PF namespace pods =
     run_bind all_pods (\<lambda>all.
     run_bind (new_reachability all True) (\<lambda>r.
     run_bind (pod_at pods 0) (\<lambda>first.
     run_bind (read_pod first (\<lambda>p. Inr (p_Name p))) (\<lambda>name.
     run_bind (expect_peer \<lparr>peer_Namespace = namespace, peer_Pod = ''''\<rparr> \<lparr>peer_Namespace = namespace, peer_Pod = name\<rparr> True r) (\<lambda>r.
     run_bind (judge E PF 80 ProtocolTCP ClusterIP r False False) (\<lambda>_. run_return ()))))))"

end
