(* ===== verification/Features_Pods.thy ===== *)
theory Features_Pods
  imports Features
begin

text \<open>
  The features of \<open>tests/*.go\<close> that start pods of their own, toggle labels or use a model of their
  own: session affinity and performance, host network, bandwidth, labels and the UDP service whose
  server starts late, and the two services that leave the cluster.
\<close>

section \<open>basic_service_test.go: session affinity\<close>

definition bare_container :: "int32 \<Rightarrow> protocol \<Rightarrow> container" where
  "bare_container port proto = \<lparr>c_Name = '''', c_Image = NotSpecifiedImage, c_Command = [], c_Protocol = proto, c_Port = port\<rparr>"

definition affinity_labels :: labels where
  "affinity_labels = [''app'' \<mapsto> ''test-session-affinity'']"

definition affinity_pod :: "string \<Rightarrow> nat \<Rightarrow> pod" where
  "affinity_pod namespace i =
     (new_pod namespace (''paf-'' @ Itoa (int i)) [bare_container 80 ProtocolTCP, bare_container 81 ProtocolTCP])
       \<lparr>p_Labels := Some affinity_labels\<rparr>"

text \<open>A literal pod is started and added to the model; an error ends the test.\<close>

definition start_new_pod :: "('w, 'z) client_scheme \<Rightarrow> string \<Rightarrow> pod \<Rightarrow> ('w, pod_ref) step" where
  "start_new_pod E namespace p =
     run_bind (alloc_pod p) (\<lambda>r.
     run_bind (on_kube (InitializePod E r)) (\<lambda>e.
     run_bind (fatal_if (e \<noteq> None)) (\<lambda>_.
     run_bind (add_pod r namespace) (\<lambda>_. run_return r))))"

definition affinity_template :: "string \<Rightarrow> service_template" where
  "affinity_template namespace = \<lparr>t_Name = ''service-session-affinity'', t_Namespace = namespace,
     t_Selector = affinity_labels,
     t_ProtocolPorts = [\<lparr>ppp_Protocol = ProtocolTCP, ppp_Port = 80\<rparr>, \<lparr>ppp_Protocol = ProtocolTCP, ppp_Port = 81\<rparr>],
     t_SessionAffinity = True\<rparr>"

text \<open>The result: the two new pods, and the pods the rest of the feature goes through.\<close>

definition affinity_setup ::
  "('w, 'z) client_scheme \<Rightarrow> string \<Rightarrow> pod_ref list \<Rightarrow> ('w, pod_ref list \<times> pod_ref list) step" where
  "affinity_setup E namespace pods =
     run_bind (make_services (length pods)) (\<lambda>_.
     run_bind (start_new_pod E namespace (affinity_pod namespace 0)) (\<lambda>r0.
     run_bind (start_new_pod E namespace (affinity_pod namespace 1)) (\<lambda>r1.
     run_bind (from_template E (affinity_template namespace)) (\<lambda>(_, service, clusterIP, e).
     run_bind (error_if (e \<noteq> None)) (\<lambda>_.
     run_bind all_pods (\<lambda>pods.
     run_bind (run_each (\<lambda>r. set_pod r (SetClusterIP clusterIP)) pods) (\<lambda>_.
     run_bind (only_service service) (\<lambda>_. run_return ([r0, r1], pods)))))))))"

text \<open>A pod is taken out of the model, which is only logged when it fails, and deleted.\<close>

definition drop_pod :: "('w, 'z) client_scheme \<Rightarrow> string \<Rightarrow> pod_ref \<Rightarrow> ('w, unit) step" where
  "drop_pod E namespace r =
     run_bind (read_pod r (\<lambda>p. Inr (p_Name p, p_Namespace p))) (\<lambda>(name, podNamespace).
     run_bind (remove_pod name namespace) (\<lambda>_.
     run_bind (on_world (DeletePod E name podNamespace)) (\<lambda>e. fatal_if (e \<noteq> None))))"

definition affinity_teardown :: "('w, 'z) client_scheme \<Rightarrow> string \<Rightarrow> pod_ref list \<Rightarrow> ('w, unit) step" where
  "affinity_teardown E namespace podsWithAffinity =
     run_bind (run_each (drop_pod E namespace) podsWithAffinity) (\<lambda>_. reset_board E)"

text \<open>The pod each pod reaches first; the map is ranged over in an order the runtime chooses.\<close>

fun affinity_peers ::
  "('w, 'z) client_scheme \<Rightarrow> string \<Rightarrow> string \<Rightarrow> pod_ref list \<Rightarrow> (string, string) gomap \<Rightarrow> ('w, (string, string) gomap) step" where
  "affinity_peers E namespace clusterIP [] peers = run_return peers"
| "affinity_peers E namespace clusterIP (r # rs) peers =
     run_bind (read_pod r (\<lambda>p. go_bind (first_container p) (\<lambda>c. Inr (p_Name p, c_Name c)))) (\<lambda>(name, cont).
     run_bind (on_world (ProbeConnectivityWithNc E namespace name cont clusterIP ProtocolTCP 80))
       (\<lambda>(connected, endpoint, _, e).
     run_bind (error_if (e \<noteq> None)) (\<lambda>_.
     run_bind (error_if (\<not> connected)) (\<lambda>_.
       affinity_peers E namespace clusterIP rs (AList.update name endpoint peers)))))"

fun expect_peers ::
  "string \<Rightarrow> (string \<times> string) list \<Rightarrow> reachability \<Rightarrow> ('w, reachability) step" where
  "expect_peers namespace [] r = run_return r"
| "expect_peers namespace ((from, to) # peers) r =
     run_bind (expect_peer \<lparr>peer_Namespace = namespace, peer_Pod = from\<rparr> \<lparr>peer_Namespace = namespace, peer_Pod = to\<rparr> True r)
       (expect_peers namespace peers)"

definition expect_affinity ::
  "('w, 'z) client_scheme \<Rightarrow> string \<Rightarrow> pod_ref list \<Rightarrow> (string, string) gomap \<Rightarrow> ('w, reachability) step" where
  "expect_affinity E namespace pods peers =
     run_bind (new_reachability pods False) (\<lambda>r.
     run_bind (on_world (goOrder E (length peers))) (\<lambda>is. expect_peers namespace (in_order is peers) r))"

definition affinity_assess ::
  "('w, 'z) client_scheme \<Rightarrow> (string \<Rightarrow> float64 \<times> err) \<Rightarrow> string \<Rightarrow> pod_ref list \<Rightarrow> pod_ref list \<Rightarrow> ('w, unit) step" where
  "affinity_assess E PF namespace podsWithAffinity pods =
     run_bind (pod_at podsWithAffinity 0) (\<lambda>r0.
     run_bind (read_pod r0 (\<lambda>p. Inr (GetClusterIP p))) (\<lambda>clusterIP.
     run_bind (affinity_peers E namespace clusterIP pods []) (\<lambda>peers.
     run_bind (run_each (\<lambda>_. run_bind (expect_affinity E namespace pods peers) (\<lambda>r.
                             run_bind (judge E PF 80 ProtocolTCP ClusterIP r False True) (\<lambda>_. run_return ())))
                 [0 ..< (3 :: nat)]) (\<lambda>_.
     run_bind (expect_affinity E namespace pods peers) (\<lambda>r.
     run_bind (validate E PF \<lparr>tc_ToPort = 81, tc_Protocol = ProtocolTCP, tc_Reachability = Some r,
                              tc_ServiceType = ClusterIP\<rparr> False True False) (\<lambda>_. run_return ()))))))"

section \<open>basic_service_test.go: services that leave the cluster\<close>

definition node_port_local_setup :: "('w, 'z) client_scheme \<Rightarrow> pod_ref list \<Rightarrow> pod_ref \<Rightarrow> ('w, unit) step" where
  "node_port_local_setup E pods testingPod =
     run_bind (make_services (length pods)) (\<lambda>_.
     run_bind (new_service (NodePortLocalService E) testingPod) (\<lambda>svc.
     run_bind (on_world (s_Create E svc)) (\<lambda>(_, e).
     run_bind (error_if (e \<noteq> None)) (\<lambda>_.
     run_bind (on_watch (WaitForClusterIP E svc)) (\<lambda>(_, e).
     run_bind (error_if (e \<noteq> None)) (\<lambda>_.
     run_bind (on_watch (WaitForEndpoint E svc)) (\<lambda>(_, e).
     run_bind (error_if (e \<noteq> None)) (\<lambda>_.
     run_bind (on_watch (WaitForNodePort E svc)) (\<lambda>(nodePort, e).
     run_bind (error_if (e \<noteq> None)) (\<lambda>_.
     run_bind (run_each (\<lambda>r. set_pod r (SetToPort nodePort)) pods) (\<lambda>_. append_service svc)))))))))))"

definition judge_one ::
  "('w, 'z) client_scheme \<Rightarrow> (string \<Rightarrow> float64 \<times> err) \<Rightarrow> string \<Rightarrow> pod_ref list \<Rightarrow> pod_ref \<Rightarrow> protocol \<Rightarrow> ('w, unit) step" where
  "judge_one E PF namespace pods testingPod proto =
     run_bind (new_reachability pods False) (\<lambda>r.
     run_bind (read_pod testingPod (\<lambda>p. Inr (p_Name p))) (\<lambda>name.
     run_bind (expect_peer \<lparr>peer_Namespace = namespace, peer_Pod = ''''\<rparr> \<lparr>peer_Namespace = namespace, peer_Pod = name\<rparr> True r) (\<lambda>r.
     run_bind (judge E PF 0 proto NodePort r True False) (\<lambda>_. run_return ()))))"

definition node_port_local_assess ::
  "('w, 'z) client_scheme \<Rightarrow> (string \<Rightarrow> float64 \<times> err) \<Rightarrow> string \<Rightarrow> pod_ref list \<Rightarrow> pod_ref \<Rightarrow> ('w, unit) step" where
  "node_port_local_assess E PF namespace pods testingPod =
     run_bind (judge_one E PF namespace pods testingPod ProtocolTCP)
       (\<lambda>_. judge_one E PF namespace pods testingPod ProtocolUDP)"

text \<open>After an error that is only recorded the created service is nil, and its name is read.\<close>

definition external_pod :: "('w, 'z) client_scheme \<Rightarrow> pod_ref \<Rightarrow> ('w, unit) step" where
  "external_pod E r =
     run_bind (new_service (\<lambda>p s w. go_bind (ExternalNameService p ''example.com'' s) (\<lambda>(x, s1). Inr (x, s1, w))) r) (\<lambda>svc.
     run_bind (on_world (s_Create E svc)) (\<lambda>(k8sSvc, e).
     run_bind (error_if (e \<noteq> None)) (\<lambda>_.
     run_bind (on_board (\<lambda>b. go_bind (deref k8sSvc) (\<lambda>s. Inr (ksName s, b)))) (\<lambda>name.
     run_bind (set_pod r (SetServiceName name)) (\<lambda>_. append_service svc)))))"

definition external_setup :: "('w, 'z) client_scheme \<Rightarrow> pod_ref list \<Rightarrow> ('w, unit) step" where
  "external_setup E pods = run_bind (make_services (length pods)) (\<lambda>_. run_each (external_pod E) pods)"

definition external_assess :: "('w, 'z) client_scheme \<Rightarrow> (string \<Rightarrow> float64 \<times> err) \<Rightarrow> ('w, unit) step" where
  "external_assess E PF = run_bind all_pods (\<lambda>pods. judge_all E PF pods 80 ExternalName ProtocolTCP)"

section \<open>Measuring\<close>

text \<open>Pods that serve no iperf are not probed as targets.\<close>

definition skip_others :: "pod_ref list \<Rightarrow> ('w, unit) step" where
  "skip_others pods =
     run_each (\<lambda>r. run_bind (read_pod r (\<lambda>p. Inr (IsPerf p))) (\<lambda>perf.
                   if perf then run_return () else set_pod r (\<lambda>p. p\<lparr>p_SkipProbe := True\<rparr>))) pods"

definition measure ::
  "('w, 'z) client_scheme \<Rightarrow> (string \<Rightarrow> float64 \<times> err) \<Rightarrow> reachability \<Rightarrow> ('w, unit) step" where
  "measure E PF r =
     run_bind (validate E PF \<lparr>tc_ToPort = 80, tc_Protocol = ProtocolTCP, tc_Reachability = Some r,
                              tc_ServiceType = PodIP\<rparr> False False True) (\<lambda>(wrong, _). must_no_wrong wrong)"

text \<open>\<open>TestPerformance\<close>: its list of services stays nil, so its cleanup only resets the pods.\<close>

definition perf_pod :: "string \<Rightarrow> pod" where
  "perf_pod namespace =
     new_pod namespace (''per-'' @ Itoa 1)
       [(bare_container 80 ProtocolTCP)\<lparr>c_Command := iperf_ServeCommand (NewIPerfServer 80 ProtocolTCP)\<rparr>]"

definition perf_setup :: "('w, 'z) client_scheme \<Rightarrow> string \<Rightarrow> ('w, unit) step" where
  "perf_setup E namespace = run_bind (start_new_pod E namespace (perf_pod namespace)) (\<lambda>_. run_return ())"

definition perf_assess :: "('w, 'z) client_scheme \<Rightarrow> (string \<Rightarrow> float64 \<times> err) \<Rightarrow> ('w, unit) step" where
  "perf_assess E PF =
     run_bind all_pods (\<lambda>pods.
     run_bind (skip_others pods) (\<lambda>_.
     run_bind all_pods (\<lambda>pods.
     run_bind (new_reachability pods True) (measure E PF))))"

section \<open>bandwidth_test.go\<close>

definition iperf_pods :: "v1_node list \<Rightarrow> string list" where
  "iperf_pods nodes = map (\<lambda>i. ''pod-'' @ Itoa (int i) @ ''-iperf'') [1..<length nodes + 1]"

definition add_iperf_namespace :: "string \<Rightarrow> string list \<Rightarrow> ('w, namespace) step" where
  "add_iperf_namespace name podNames = on_board (\<lambda>b.
     let (ns, m, h) = AddIPerfNamespace name podNames [80] [ProtocolTCP] (b_model b) (k_pods (b_kube b))
     in Inr (ns, b\<lparr>b_model := m, b_kube := (b_kube b)\<lparr>k_pods := h\<rparr>\<rparr>))"

definition bandwidth_setup :: "('w, 'z) client_scheme \<Rightarrow> ('w, string) step" where
  "bandwidth_setup E =
     run_bind (on_world (GetIPerfNamespace E)) (\<lambda>iperfNamespaceName.
     run_bind (on_world (GetReadyNodes E)) (\<lambda>(nodes, e).
     run_bind (exit_if (e \<noteq> None)) (\<lambda>_.
     run_bind (add_iperf_namespace iperfNamespaceName (iperf_pods nodes)) (\<lambda>ns.
     run_bind (on_board (\<lambda>b. go_bind (StartPodsInNamespace E nodes ns (b_kube b)) (\<lambda>(e, k). Inr (e, b\<lparr>b_kube := k\<rparr>)))) (\<lambda>e.
     run_bind (exit_if (e \<noteq> None)) (\<lambda>_.
     run_bind all_pods (\<lambda>pods.
     run_bind (run_each (\<lambda>r. run_bind (on_kube (WaitAndSetIPs E r)) (\<lambda>e. exit_if (e \<noteq> None))) pods) (\<lambda>_.
     run_bind (suite_remove_pending E iperfNamespaceName) (\<lambda>e.
     run_bind (exit_if (e \<noteq> None)) (\<lambda>_. run_return iperfNamespaceName))))))))))"

definition bandwidth_assess :: "('w, 'z) client_scheme \<Rightarrow> (string \<Rightarrow> float64 \<times> err) \<Rightarrow> ('w, unit) step" where
  "bandwidth_assess E PF =
     run_bind all_pods (\<lambda>pods.
     run_bind (new_reachability pods True) (\<lambda>r.
     run_bind all_pods (\<lambda>pods.
     run_bind (skip_others pods) (\<lambda>_. measure E PF r))))"

text \<open>Only the namespace of the cluster is deleted; the model keeps its pods as they are.\<close>

definition bandwidth_teardown :: "('w, 'z) client_scheme \<Rightarrow> string \<Rightarrow> ('w, unit) step" where
  "bandwidth_teardown E iperfNamespaceName =
     run_bind (on_world (DeleteNamespaces E [iperfNamespaceName])) (\<lambda>e. exit_if (e \<noteq> None))"

section \<open>hostnetwork_test.go\<close>

definition host_network_pod :: "string \<Rightarrow> pod" where
  "host_network_pod namespace =
     (new_pod namespace ''pod-5'' [bare_container 80 ProtocolTCP])\<lparr>p_HostNetwork := True\<rparr>"

definition host_network_setup :: "('w, 'z) client_scheme \<Rightarrow> string \<Rightarrow> ('w, pod_ref) step" where
  "host_network_setup E namespace = start_new_pod E namespace (host_network_pod namespace)"

definition host_network_assess :: "('w, 'z) client_scheme \<Rightarrow> (string \<Rightarrow> float64 \<times> err) \<Rightarrow> ('w, unit) step" where
  "host_network_assess E PF =
     run_bind all_pods (\<lambda>pods.
     run_bind (new_reachability pods True) (\<lambda>r.
     run_bind (validate E PF \<lparr>tc_ToPort = 80, tc_Protocol = ProtocolTCP, tc_Reachability = Some r,
                              tc_ServiceType = PodIP\<rparr> False False False) (\<lambda>(wrong, _). error_if (wrong > 0))))"

definition host_network_teardown :: "('w, 'z) client_scheme \<Rightarrow> string \<Rightarrow> pod_ref \<Rightarrow> ('w, unit) step" where
  "host_network_teardown = drop_pod"

section \<open>label_test.go\<close>

definition labels_begin :: "string \<Rightarrow> pod_ref list \<Rightarrow> ('w, pod_ref \<times> reachability \<times> reachability) step" where
  "labels_begin namespace pods =
     run_bind (pod_at pods 0) (\<lambda>toPod.
     run_bind (new_reachability pods True) (\<lambda>up.
     run_bind (new_reachability pods True) (\<lambda>down.
     run_bind (read_pod toPod (\<lambda>p. Inr (p_Name p))) (\<lambda>name.
     run_bind (expect_peer \<lparr>peer_Namespace = namespace, peer_Pod = ''''\<rparr> \<lparr>peer_Namespace = namespace, peer_Pod = name\<rparr> False down)
       (\<lambda>down. run_return (toPod, up, down))))))"

definition label_pairs :: "(string \<times> string) list" where
  "label_pairs = [(''service.kubernetes.io/service-proxy-name'', ''foo-bar''), (''service.kubernetes.io/headless'', '''')]"

definition labels_setup :: "('w, 'z) client_scheme \<Rightarrow> pod_ref \<Rightarrow> ('w, service) step" where
  "labels_setup E toPod =
     run_bind (new_service (ClusterIPService E) toPod) (\<lambda>svc.
     run_bind (on_world (s_Create E svc)) (\<lambda>(_, e).
     run_bind (fatal_if (e \<noteq> None)) (\<lambda>_.
     run_bind (on_watch (WaitForEndpoint E svc)) (\<lambda>(result, e).
     run_bind (fatal_if (e \<noteq> None \<or> \<not> result)) (\<lambda>_.
     run_bind (on_watch (WaitForClusterIP E svc)) (\<lambda>(clusterIP, e).
     run_bind (fatal_if (e \<noteq> None \<or> clusterIP = '''')) (\<lambda>_. run_return svc)))))))"

text \<open>
  The service is up, gets the label and is down for the pod it stands for, loses the label and is up
  again. The two reachabilities are shared by both features.
\<close>

definition labels_assess ::
  "('w, 'z) client_scheme \<Rightarrow> (string \<Rightarrow> float64 \<times> err) \<Rightarrow> pod_ref \<Rightarrow> string \<Rightarrow> string \<Rightarrow>
   reachability \<times> reachability \<Rightarrow> service \<Rightarrow> ('w, (reachability \<times> reachability) \<times> service) step" where
  "labels_assess E PF toPod key value = (\<lambda>(up, down) svc.
     run_bind (set_pod toPod (SetClusterIP (s_GetClusterIP svc))) (\<lambda>_.
     run_bind (judge E PF 80 ProtocolTCP ClusterIP up False False) (\<lambda>r.
     run_bind (on_board (\<lambda>b. go_bind (deref r) (\<lambda>r. Inr (r, b)))) (\<lambda>up.
     run_bind (on_world (s_SetLabel E key value svc)) (\<lambda>(e, svc).
     run_bind (fatal_if (e \<noteq> None)) (\<lambda>_.
     run_bind (set_pod toPod (SetClusterIP (s_GetClusterIP svc))) (\<lambda>_.
     run_bind (judge E PF 80 ProtocolTCP ClusterIP down False False) (\<lambda>r.
     run_bind (on_board (\<lambda>b. go_bind (deref r) (\<lambda>r. Inr (r, b)))) (\<lambda>down.
     run_bind (on_world (s_RemoveLabel E key svc)) (\<lambda>(e, svc).
     run_bind (fatal_if (e \<noteq> None)) (\<lambda>_.
     run_bind (on_watch (WaitForClusterIP E svc)) (\<lambda>(clusterIP, e).
     run_bind (fatal_if (e \<noteq> None)) (\<lambda>_.
     run_bind (set_pod toPod (SetClusterIP clusterIP)) (\<lambda>_.
     run_bind (judge E PF 80 ProtocolTCP ClusterIP up False False) (\<lambda>r.
     run_bind (on_board (\<lambda>b. go_bind (deref r) (\<lambda>r. Inr (r, b)))) (\<lambda>up. run_return ((up, down), svc)))))))))))))))))"

definition labels_teardown :: "('w, 'z) client_scheme \<Rightarrow> service \<Rightarrow> ('w, unit) step" where
  "labels_teardown E svc = run_bind (on_world (s_Delete E svc)) (\<lambda>e. fatal_if (e \<noteq> None))"

section \<open>conntrack_test.go\<close>

definition udp_client_command :: "string \<Rightarrow> string" where
  "udp_client_command clusterIP =
     ''date; for i in $(seq 1 3000); do echo \"$(date) Try: ${i}\"; echo hostname | nc -u -w2 '' @ clusterIP @ '' '' @
     Itoa 80 @ ''; echo; done''"

definition udp_server_pod :: "string \<Rightarrow> string \<Rightarrow> string \<Rightarrow> pod" where
  "udp_server_pod namespace podName nodeName =
     (new_pod namespace podName [bare_container 80 ProtocolUDP])
       \<lparr>p_NodeName := nodeName,
        p_InitContainers := Some [\<lparr>c_Name = '''', c_Image = NotSpecifiedImage,
          c_Command = [''/bin/sh'', ''-c'', ''echo Pausing start. && sleep 10''], c_Protocol = '''', c_Port = 0\<rparr>]\<rparr>"

definition udp_client_pod :: "string \<Rightarrow> string \<Rightarrow> string \<Rightarrow> string \<Rightarrow> pod" where
  "udp_client_pod namespace podName clusterIP nodeName =
     (new_pod namespace podName [bare_container 80 ProtocolUDP,
        \<lparr>c_Name = '''', c_Image = ''busybox'', c_Command = [''/bin/sh'', ''-c'', udp_client_command clusterIP],
         c_Protocol = '''', c_Port = 0\<rparr>])
       \<lparr>p_NodeName := nodeName, p_SkipProbe := True\<rparr>"

text \<open>\<open>podUDPStaleServer\<close> and \<open>podUDPStaleClient\<close> after the literal.\<close>

definition udp_start :: "('w, 'z) client_scheme \<Rightarrow> pod \<Rightarrow> ('w, pod_ref) step" where
  "udp_start E p =
     run_bind (alloc_pod p) (\<lambda>r.
     run_bind (on_kube (spec_of E r)) (\<lambda>spec.
     run_bind (on_world (CreatePod E spec)) (\<lambda>(_, e).
     run_bind (fatal_if (e \<noteq> None)) (\<lambda>_.
     run_bind (on_kube (WaitAndSetIPs E r)) (\<lambda>e.
     run_bind (fatal_if (e \<noteq> None)) (\<lambda>_. run_return r))))))"

definition udp_setup :: "('w, 'z) client_scheme \<Rightarrow> pod_ref list \<Rightarrow> ('w, string \<times> model) step" where
  "udp_setup E pods =
     run_bind (on_world (GetNamespace E)) (\<lambda>udpNamespaceName.
     run_bind (on_world (CreateNamespace E (ns_Spec \<lparr>ns_Name = udpNamespaceName, ns_Pods = []\<rparr>))) (\<lambda>(_, e).
     run_bind (fatal_if (e \<noteq> None)) (\<lambda>_.
     run_bind (pod_at pods 0) (\<lambda>p0.
     run_bind (read_pod p0 (\<lambda>p. Inr (p_Name p, p_NodeName p))) (\<lambda>(name0, node0).
     run_bind (udp_start E (udp_server_pod udpNamespaceName name0 node0)) (\<lambda>firstPod.
     run_bind (new_service (ClusterIPService E) firstPod) (\<lambda>svc.
     run_bind (on_world (s_Create E svc)) (\<lambda>(_, e).
     run_bind (fatal_if (e \<noteq> None)) (\<lambda>_.
     run_bind (on_watch (WaitForEndpoint E svc)) (\<lambda>(result, e).
     run_bind (fatal_if (e \<noteq> None \<or> \<not> result)) (\<lambda>_.
     run_bind (on_watch (WaitForClusterIP E svc)) (\<lambda>(clusterIP, e).
     run_bind (fatal_if (e \<noteq> None \<or> clusterIP = '''')) (\<lambda>_.
     run_bind (set_pod firstPod (SetClusterIP clusterIP)) (\<lambda>_.
     run_bind (append_service svc) (\<lambda>_.
     run_bind (pod_at pods 1) (\<lambda>p1.
     run_bind (read_pod p1 (\<lambda>p. Inr (p_Name p, p_NodeName p))) (\<lambda>(name1, node1).
     run_bind (udp_start E (udp_client_pod udpNamespaceName name1 clusterIP node1)) (\<lambda>secondPod.
     run_bind get_board (\<lambda>b.
       run_return (udpNamespaceName,
         NewModelWithNamespace (k_pods (b_kube b)) [\<lparr>ns_Name = udpNamespaceName, ns_Pods = [firstPod, secondPod]\<rparr>]
           suite_dnsDomain))))))))))))))))))))"

text \<open>The assessment goes through the model of this feature instead of the suite's.\<close>

definition with_model :: "model \<Rightarrow> ('w, 'a) step \<Rightarrow> ('w, 'a \<times> model) step" where
  "with_model m f b =
     (let (r, b1) = run_bind f (\<lambda>x. on_board (\<lambda>b1. Inr ((x, b_model b1), b1))) (b\<lparr>b_model := m\<rparr>)
      in (r, b1\<lparr>b_model := b_model b\<rparr>))"

definition udp_assess :: "('w, 'z) client_scheme \<Rightarrow> (string \<Rightarrow> float64 \<times> err) \<Rightarrow> model \<Rightarrow> ('w, unit \<times> model) step" where
  "udp_assess E PF udpModel =
     with_model udpModel
       (run_bind all_pods (\<lambda>pods.
        run_bind (new_reachability pods True) (\<lambda>r.
        run_bind (validate E PF \<lparr>tc_ToPort = 80, tc_Protocol = ProtocolUDP, tc_Reachability = Some r,
                                 tc_ServiceType = ClusterIP\<rparr> False False False) (\<lambda>(wrong, _). error_if (wrong > 0)))))"

definition udp_teardown :: "('w, 'z) client_scheme \<Rightarrow> string \<Rightarrow> ('w, unit) step" where
  "udp_teardown E udpNamespaceName =
     run_bind (on_world (DeleteNamespaces E [udpNamespaceName])) (\<lambda>e. fatal_if (e \<noteq> None))"

end
