(* ===== verification/Feature_Laws.thy ===== *)
theory Feature_Laws
  imports Features_Pods
begin

text \<open>
  What the features of \<open>tests/\<close> establish: the services a setup leaves, the verdict of an assessment,
  and what stays behind.
\<close>

section \<open>Services for every pod\<close>

text \<open>
  The calls that gave a service its address, one after the other on the cluster: it was created, it got
  an endpoint, and the wait delivered the address, all without an error.
\<close>

definition delivers_cluster_ip :: "('w, 'z) client_scheme \<Rightarrow> service \<Rightarrow> string \<Rightarrow> bool" where
  "delivers_cluster_ip E svc ip \<longleftrightarrow>
     (\<exists>obj w w1 w2 w3. s_Create E svc w = ((obj, None), w1) \<and> WaitForEndpoint E svc w1 = Some (Inr (True, None), w2) \<and>
        WaitForClusterIP E svc w2 = Some (Inr (ip, None), w3))"

text \<open>
  The service is one of the pod, in its namespace and selecting it by its label, and the address the
  pod carries is the one the watch delivered for that service.
\<close>

definition served :: "('w, 'z) client_scheme \<Rightarrow> pod \<Rightarrow> service \<Rightarrow> bool" where
  "served E p svc \<longleftrightarrow>
     ksType (s_service svc) = ''ClusterIP'' \<and> ksNamespace (s_service svc) = p_Namespace p \<and>
     ksSelector (s_service svc) ''pod'' = Some (p_Name p) \<and> p_clusterIP p \<noteq> '''' \<and>
     delivers_cluster_ip E svc (p_clusterIP p)"

text \<open>What a pod is addressed by apart from its labels and its cluster IP stays.\<close>

definition kept_pod :: "pod \<Rightarrow> pod \<Rightarrow> bool" where
  "kept_pod p q \<longleftrightarrow> q\<lparr>p_Labels := None, p_clusterIP := ''''\<rparr> = p\<lparr>p_Labels := None, p_clusterIP := ''''\<rparr>"

lemma kept_pod_sel:
  assumes "kept_pod p q"
  shows "p_Namespace q = p_Namespace p" "p_Name q = p_Name p" "p_Containers q = p_Containers p"
    "PodString q = PodString p" "p_SkipProbe q = p_SkipProbe p"
  using assms
  by (cases p; cases q; simp add: kept_pod_def PodString_def)+

lemma kept_pod_refl [simp]: "kept_pod p p"
  by (simp add: kept_pod_def)

lemma kept_pod_trans: "kept_pod p q \<Longrightarrow> kept_pod q q' \<Longrightarrow> kept_pod p q'"
  by (simp add: kept_pod_def)

lemma kept_pod_updates: "kept_pod p (p\<lparr>p_Labels := ls\<rparr>)" "kept_pod p (SetClusterIP ip p)"
  by (simp_all add: kept_pod_def SetClusterIP_def)

lemma ClusterIPService_pod:
  assumes "ClusterIPService E p s w = Inr ((svc, q), s1, w1)"
  shows "kept_pod p q" and "p_clusterIP q = p_clusterIP p" and "ksType svc = ''ClusterIP''"
    and "ksNamespace svc = p_Namespace p" and "ksSelector svc ''pod'' = Some (p_Name p)"
    and "ksName svc = ServiceName p @ ''-'' @ Itoa (svc_count s + 1)" and "svc_count s1 = svc_count s + 1"
  using assms
  by (auto simp: ClusterIPService_def service_with_ports_def NewService_def SvcID_after_increase LabelSelector_def
      zero_service_def kept_pod_updates go_bind_eq_Inr_iff Let_def split: prod.splits option.splits)

lemma max_nat_0: "max m n = (0 :: nat) \<longleftrightarrow> m = 0 \<and> n = 0"
  by auto

lemma cluster_ip_pod_returns:
  assumes "cluster_ip_pod E r b = (Returns (), b1)" and r: "r < length (k_pods (b_kube b))"
  shows "\<exists>svc q. k_pods (b_kube b1) = (k_pods (b_kube b))[r := q] \<and> kept_pod (k_pods (b_kube b) ! r) q \<and>
           b_services b1 = b_services b @ [Some svc] \<and> b_model b1 = b_model b \<and>
           svc_count (b_sid b1) = svc_count (b_sid b) + 1 \<and>
           ksName (s_service svc) = ServiceName (k_pods (b_kube b) ! r) @ ''-'' @ Itoa (svc_count (b_sid b1)) \<and>
           b_errors b \<le> b_errors b1 \<and> (b_errors b1 = b_errors b \<longrightarrow> served E q svc)"
proof -
  let ?h = "k_pods (b_kube b)"
  obtain s p1 sid w1 obj e1 w2 res e2 w3 ip e3 w4 n where
    s: "ClusterIPService E (?h ! r) (b_sid b) (k_world (b_kube b)) = Inr ((s, p1), sid, w1)" and
    create: "s_Create E (Kube_NewService s) w1 = ((obj, e1), w2)" and
    endpoint: "WaitForEndpoint E (Kube_NewService s) w2 = Some (Inr (res, e2), w3)" and
    ip: "WaitForClusterIP E (Kube_NewService s) w3 = Some (Inr (ip, e3), w4)" and
    b1: "k_pods (b_kube b1) = ?h[r := SetClusterIP ip p1]"
      "b_services b1 = b_services b @ [Some (Kube_NewService s)]" "b_model b1 = b_model b" "b_sid b1 = sid"
      "b_errors b1 = b_errors b + n" "n = 0 \<longrightarrow> e1 = None \<and> res \<and> e2 = None \<and> ip \<noteq> '''' \<and> e3 = None"
    using assms(1)
    unfolding cluster_ip_pod_def returns_iff new_service_def go_bind_eq_Inr_iff append_service_def update_pod_def split_paired_Ex
    apply (clarsimp simp: returns_iff go_bind_eq_Inr_iff)
    apply (rule that)
         apply assumption+
    using r by (simp_all add: update_pod_def) (simp add: max_nat_0)
  note pod = ClusterIPService_pod [OF s]
  have kept: "kept_pod (?h ! r) (SetClusterIP ip p1)" using pod(1) kept_pod_updates(2) kept_pod_trans by blast
  have "served E (SetClusterIP ip p1) (Kube_NewService s)" if "n = 0"
  proof -
    have "delivers_cluster_ip E (Kube_NewService s) ip"
      using that b1(6) create endpoint ip unfolding delivers_cluster_ip_def by (metis (full_types))
    then show ?thesis
      using that b1(6) pod kept_pod_sel [OF kept] by (auto simp: served_def Kube_NewService_def SetClusterIP_def)
  qed
  with b1 kept pod show ?thesis
    by (intro exI [of _ "Kube_NewService s"] exI [of _ "SetClusterIP ip p1"]) (simp add: Kube_NewService_def)
qed

text \<open>
  Between two pods: the services so far stand behind the nil entries the slice was made with, each
  has drawn the next number, and unless an error was recorded each serves its pod.
\<close>

definition serving ::
  "('w, 'z) client_scheme \<Rightarrow> 'w board \<Rightarrow> nat \<Rightarrow> pod_ref list \<Rightarrow> 'w board \<Rightarrow> service list \<Rightarrow> bool" where
  "serving E b0 n did b svcs \<longleftrightarrow>
     b_services b = replicate n None @ map Some svcs \<and> length svcs = length did \<and>
     b_model b = b_model b0 \<and> length (k_pods (b_kube b)) = length (k_pods (b_kube b0)) \<and>
     (\<forall>r. kept_pod (k_pods (b_kube b0) ! r) (k_pods (b_kube b) ! r)) \<and>
     svc_count (b_sid b) = svc_count (b_sid b0) + int (length svcs) \<and>
     (\<forall>i < length svcs. \<exists>stem. ksName (s_service (svcs ! i)) = stem @ ''-'' @ Itoa (svc_count (b_sid b0) + int i + 1)) \<and>
     b_errors b0 \<le> b_errors b \<and>
     (b_errors b = b_errors b0 \<longrightarrow> (\<forall>i < length did. served E (k_pods (b_kube b) ! (did ! i)) (svcs ! i)))"

lemma served_kept: "kept_pod p q \<Longrightarrow> p_clusterIP q = p_clusterIP p \<Longrightarrow> served E p svc \<Longrightarrow> served E q svc"
  using kept_pod_sel by (simp add: served_def)

lemma serving_step:
  assumes "serving E b0 n did b svcs" and "cluster_ip_pod E r b = (Returns (), b1)"
    and r: "r < length (k_pods (b_kube b0))" "r \<notin> set did"
  shows "\<exists>svc. serving E b0 n (did @ [r]) b1 (svcs @ [svc])"
proof -
  note inv = assms(1) [unfolded serving_def]
  let ?h = "k_pods (b_kube b)"
  have "r < length ?h" using inv r by simp
  from cluster_ip_pod_returns [OF assms(2) this] obtain svc q where
    b1: "k_pods (b_kube b1) = ?h[r := q]" "b_services b1 = b_services b @ [Some svc]" "b_model b1 = b_model b"
      "svc_count (b_sid b1) = svc_count (b_sid b) + 1" "b_errors b \<le> b_errors b1" and
    q: "kept_pod (?h ! r) q" "b_errors b1 = b_errors b \<longrightarrow> served E q svc" and
    name: "ksName (s_service svc) = ServiceName (?h ! r) @ ''-'' @ Itoa (svc_count (b_sid b1))" by blast
  have "kept_pod (k_pods (b_kube b0) ! x) (?h[r := q] ! x)" for x
    using inv q(1) kept_pod_trans \<open>r < length ?h\<close> by (cases "x = r") (auto simp: nth_list_update)
  moreover have "served E (?h[r := q] ! ((did @ [r]) ! i)) ((svcs @ [svc]) ! i)"
    if "i < length (did @ [r])" "b_errors b1 = b_errors b0" for i
  proof (cases "i < length did")
    case True
    then have "did ! i \<noteq> r" using r(2) nth_mem by metis
    then show ?thesis using True inv that b1(5) by (simp add: nth_append)
  next
    case False
    then have "i = length did" using that by simp
    then show ?thesis using inv that b1(5) q(2) \<open>r < length ?h\<close> by (simp add: nth_append)
  qed
  moreover have "\<exists>stem. ksName (s_service ((svcs @ [svc]) ! i)) = stem @ ''-'' @ Itoa (svc_count (b_sid b0) + int i + 1)"
    if "i < length (svcs @ [svc])" for i
  proof (cases "i < length svcs")
    case False
    then have "i = length svcs" using that by simp
    then show ?thesis using name b1(4) inv by (intro exI [of _ "ServiceName (?h ! r)"]) (simp add: nth_append)
  qed (use inv in \<open>simp add: nth_append\<close>)
  ultimately show ?thesis
    using inv b1 unfolding serving_def by (intro exI [of _ svc]) (simp; linarith)
qed

lemma serving_distinct:
  assumes "serving E b0 n did b svcs" and "0 \<le> svc_count (b_sid b0)"
  shows "distinct (map (ksName \<circ> s_service) svcs)"
proof -
  have "i = j" if i: "i < length svcs" and j: "j < length svcs"
    and eq: "ksName (s_service (svcs ! i)) = ksName (s_service (svcs ! j))" for i j
  proof -
    obtain a c where "a @ ''-'' @ Itoa (svc_count (b_sid b0) + int i + 1) = c @ ''-'' @ Itoa (svc_count (b_sid b0) + int j + 1)"
      using assms(1) i j eq unfolding serving_def by metis
    then have "a @ ''-'' @ dec_nat (nat (svc_count (b_sid b0) + int i + 1)) =
        c @ ''-'' @ dec_nat (nat (svc_count (b_sid b0) + int j + 1))"
      using assms(2) by (simp add: Itoa_def)
    then have "nat (svc_count (b_sid b0) + int i + 1) = nat (svc_count (b_sid b0) + int j + 1)"
      using dash_number_inject by blast
    with assms(2) show ?thesis by simp
  qed
  then show ?thesis by (auto simp: distinct_conv_nth)
qed

lemma cluster_ip_setup_serving:
  assumes "cluster_ip_setup E pods b = (Returns (), b1)" and "distinct pods"
    and "\<forall>r \<in> set pods. r < length (k_pods (b_kube b))"
  shows "\<exists>svcs. serving E b (length pods) pods b1 svcs"
proof -
  let ?b0 = "b\<lparr>b_services := replicate (length pods) None\<rparr>"
  have "run_each (cluster_ip_pod E) pods ?b0 = (Returns (), b1)"
    using assms(1) by (simp add: cluster_ip_setup_def returns_iff make_services_def)
  then show ?thesis
  proof (rule run_each_Returns [where I = "\<lambda>did b1. \<exists>svcs. serving E b (length pods) did b1 svcs"])
    show "\<exists>svcs. serving E b (length pods) [] ?b0 svcs" by (auto simp: serving_def)
  next
    fix did x todo b2 b3
    assume pods: "pods = did @ x # todo" and "\<exists>svcs. serving E b (length pods) did b2 svcs"
      and x: "cluster_ip_pod E x b2 = (Returns (), b3)"
    then obtain svcs where "serving E b (length pods) did b2 svcs" by blast
    moreover have "x < length (k_pods (b_kube b))" "x \<notin> set did" using assms(2,3) by (simp_all add: pods)
    ultimately show "\<exists>svcs. serving E b (length pods) (did @ [x]) b3 svcs" using serving_step [OF _ x] by blast
  qed
qed

section \<open>The verdict of an assessment\<close>

text \<open>Some pod cannot reach some pod, possibly itself.\<close>

definition unreachable ::
  "(commandImpl \<Rightarrow> string \<times> err) \<Rightarrow> pod_store \<Rightarrow> model \<Rightarrow> pod_ref list \<Rightarrow> int \<Rightarrow> string \<Rightarrow> protocol \<Rightarrow> bool" where
  "unreachable ans h m pods toPort serviceType proto \<longleftrightarrow>
     (\<exists>f \<in> set pods. \<exists>t \<in> set pods. \<not> answer ans h (make_job h m
        \<lparr>tc_ToPort = toPort, tc_Protocol = proto, tc_Reachability = None, tc_ServiceType = serviceType\<rparr> False False f t))"

lemma must_no_wrong_errors: "must_no_wrong wrong b = (Returns (), b\<lparr>b_errors := b_errors b + of_bool (0 < wrong)\<rparr>)"
  by (simp add: must_no_wrong_def MustNoWrong_def ends_Returns)

text \<open>A reachability over the pods, and what it expects of each ordered pair of them.\<close>

definition expects :: "pod_store \<Rightarrow> pod_ref list \<Rightarrow> reachability \<Rightarrow> (pod_ref \<Rightarrow> pod_ref \<Rightarrow> bool) \<Rightarrow> bool" where
  "expects h pods r X \<longleftrightarrow>
     reach_over (pod_names h pods) r \<and> r_Pods r = pods \<and>
     (\<forall>f \<in> set pods. \<forall>t \<in> set pods. tt_Get (Expected r) (PodString (h ! f)) (PodString (h ! t)) = X f t)"

lemma expects_new: "expects h pods (NewReachability h pods d) (\<lambda>_ _. d)"
proof -
  have "PodString (h ! x) \<in> set (pod_names h pods)" if "x \<in> set pods" for x using that by (simp add: pod_names_def)
  then show ?thesis
    by (simp add: expects_def NewReachability_over NewReachability_expected) (simp add: NewReachability_def Let_def)
qed

text \<open>The verdict: an error when some pair is not what is expected.\<close>

lemma judge_steady:
  assumes "order_law E" "steady E ans" and pods: "AllPods (b_model b) = (pods, m1)"
    and ready: "pods_ready (k_pods (b_kube b)) pods" and r: "expects (k_pods (b_kube b)) pods r X"
  shows "\<exists>w r1. judge E PF toPort proto serviceType r ign reach b =
           (Returns r1, b\<lparr>b_model := m1, b_kube := (b_kube b)\<lparr>k_world := w\<rparr>,
              b_errors := b_errors b + of_bool (\<exists>f \<in> set pods. \<exists>t \<in> set pods. \<not> (ign \<and> f = t) \<and>
                X f t \<noteq> answer ans (k_pods (b_kube b)) (make_job (k_pods (b_kube b)) (b_model b)
                  \<lparr>tc_ToPort = toPort, tc_Protocol = proto, tc_Reachability = None, tc_ServiceType = serviceType\<rparr> reach False f t))\<rparr>)"
proof -
  let ?h = "k_pods (b_kube b)"
  let ?tc = "\<lambda>r. \<lparr>tc_ToPort = toPort, tc_Protocol = proto, tc_Reachability = r, tc_ServiceType = serviceType\<rparr>"
  let ?ans = "\<lambda>x f t. answer ans ?h (make_job ?h (b_model b) (?tc x) reach False f t)"
  let ?bad = "bad_pairs ign False ?h pods r (\<lambda>f t. (?ans (Some r) f t, None))"
  have board: "ready_board ?h pods r"
    using ready r by (simp add: ready_board_def pods_ready_def expects_def)
  obtain tc1 w where v: "ValidateOrFail E PF (b_model b) (?tc (Some r)) ign reach (b_kube b) =
      Inr (card ?bad, tc1, m1, (b_kube b)\<lparr>k_world := w\<rparr>)"
    using Validate_steady [OF assms(1,2) pods board, of "?tc (Some r)" PF ign reach] by auto
  have job: "make_job ?h (b_model b) (?tc (Some r)) = make_job ?h (b_model b) (?tc None)"
    by (simp add: make_job_def fun_eq_iff)
  have bad: "?bad = {(f, t). f \<in> set pods \<and> t \<in> set pods \<and> \<not> (ign \<and> f = t) \<and> X f t \<noteq> ?ans None f t}"
    unfolding job using r by (auto simp: bad_pairs_def expects_def)
  have "finite ?bad" unfolding bad by (rule finite_subset [of _ "set pods \<times> set pods"]) auto
  then have "0 < card ?bad \<longleftrightarrow> (\<exists>f \<in> set pods. \<exists>t \<in> set pods. \<not> (ign \<and> f = t) \<and> X f t \<noteq> ?ans None f t)"
    unfolding card_gt_0_iff by (auto simp: bad)
  with v show ?thesis
    by (intro exI [of _ w] exI [of _ "tc_Reachability tc1"])
      (simp add: judge_def validate_def run_bind_def on_board_def ValidateOrFail_def must_no_wrong_errors run_return_def)
qed

lemma judge_all_steady:
  assumes "order_law E" "steady E ans" and pods: "AllPods (b_model b) = (pods, m1)"
    and ready: "pods_ready (k_pods (b_kube b)) pods"
  shows "\<exists>w. judge_all E PF pods toPort serviceType proto b =
           (Returns (), b\<lparr>b_model := m1, b_kube := (b_kube b)\<lparr>k_world := w\<rparr>,
              b_errors := b_errors b +
                of_bool (unreachable ans (k_pods (b_kube b)) (b_model b) pods toPort serviceType proto)\<rparr>)"
proof -
  let ?h = "k_pods (b_kube b)"
  from judge_steady [OF assms expects_new [of ?h pods True], where PF = PF and toPort = toPort and proto = proto and
      serviceType = serviceType and ign = False and reach = False]
  obtain w r1 where "judge E PF toPort proto serviceType (NewReachability ?h pods True) False False b =
      (Returns r1, b\<lparr>b_model := m1, b_kube := (b_kube b)\<lparr>k_world := w\<rparr>,
         b_errors := b_errors b + of_bool (unreachable ans ?h (b_model b) pods toPort serviceType proto)\<rparr>)"
    by (auto simp: unreachable_def)
  then show ?thesis
    by (intro exI [of _ w]) (simp add: judge_all_def new_reachability_def on_board_def run_bind_def run_return_def)
qed

section \<open>Cleaning up\<close>

lemma fold_reset:
  "fold (\<lambda>p h. h[p := p_Reset (h ! p)]) pods h ! r =
     (if r \<in> set pods \<and> r < length h then p_Reset (h ! r) else h ! r)"
proof (induction pods arbitrary: h)
  case (Cons p pods)
  have idem: "p_Reset (p_Reset q) = p_Reset q" for q by (simp add: p_Reset_def)
  show ?case
    by (cases "p < length h") (auto simp: Cons nth_list_update idem list_update_beyond)
qed simp

lemma reset_board_returns:
  assumes "reset_board E b = (Returns (), b1)" and "AllPods (b_model b) = (pods, m1)"
  shows "\<forall>e \<in> set (deletions E (b_services b) (k_world (b_kube b))). e = None"
    and "b_model b1 = m1" and "b_errors b1 = b_errors b"
    and "k_pods (b_kube b1) ! r =
           (if r \<in> set pods \<and> r < length (k_pods (b_kube b)) then p_Reset (k_pods (b_kube b) ! r)
            else k_pods (b_kube b) ! r)"
proof -
  obtain e w where d: "Services_Delete E (b_services b) (k_world (b_kube b)) = (e, w)" by fastforce
  with assms have "e = None" and b1: "b_model b1 = m1" "b_errors b1 = b_errors b"
      "k_pods (b_kube b1) = fold (\<lambda>p h. h[p := p_Reset (h ! p)]) pods (k_pods (b_kube b))"
    by (auto simp: reset_board_def returns_iff ResetTestBoard_def ResetAllPods_def Let_def split: if_splits prod.splits)
  then show "\<forall>e \<in> set (deletions E (b_services b) (k_world (b_kube b))). e = None"
    using d Services_Delete_nil_iff by (metis fst_conv)
  from b1 show "b_model b1 = m1" "b_errors b1 = b_errors b" by simp_all
  show "k_pods (b_kube b1) ! r =
      (if r \<in> set pods \<and> r < length (k_pods (b_kube b)) then p_Reset (k_pods (b_kube b) ! r) else k_pods (b_kube b) ! r)"
    unfolding b1(3) fold_reset ..
qed

section \<open>The ClusterIP feature\<close>

lemma AllPods_cached_again: "AllPods m = (pods, m1) \<Longrightarrow> AllPods m1 = (pods, m1) \<and> m_dnsDomain m1 = m_dnsDomain m"
  by (auto simp: AllPods_def Let_def split: option.splits)

lemma unreachable_dns:
  "m_dnsDomain m1 = m_dnsDomain m \<Longrightarrow> unreachable ans h m1 pods toPort st proto = unreachable ans h m pods toPort st proto"
  by (simp add: unreachable_def make_job_def)

lemma judge_both_steady:
  assumes E: "order_law E" "steady E ans" and pods: "AllPods (b_model b) = (pods, m1)"
    and ready: "pods_ready (k_pods (b_kube b)) pods"
  shows "\<exists>w. run_bind (judge_all E PF pods toPort st ProtocolTCP) (\<lambda>_. judge_all E PF pods toPort st ProtocolUDP) b =
           (Returns (), b\<lparr>b_model := m1, b_kube := (b_kube b)\<lparr>k_world := w\<rparr>,
              b_errors := b_errors b +
                of_bool (unreachable ans (k_pods (b_kube b)) (b_model b) pods toPort st ProtocolTCP) +
                of_bool (unreachable ans (k_pods (b_kube b)) (b_model b) pods toPort st ProtocolUDP)\<rparr>)"
proof -
  note m1 = AllPods_cached_again [OF pods]
  from judge_all_steady [OF E pods ready, of PF toPort st ProtocolTCP] obtain w where
    1: "judge_all E PF pods toPort st ProtocolTCP b =
      (Returns (), b\<lparr>b_model := m1, b_kube := (b_kube b)\<lparr>k_world := w\<rparr>,
         b_errors := b_errors b +
           of_bool (unreachable ans (k_pods (b_kube b)) (b_model b) pods toPort st ProtocolTCP)\<rparr>)" (is "_ = (_, ?b)")
    by blast
  have "AllPods (b_model ?b) = (pods, m1)" "pods_ready (k_pods (b_kube ?b)) pods" using m1 ready by simp_all
  from judge_all_steady [OF E this, of PF toPort st ProtocolUDP] obtain w2 where
    "judge_all E PF pods toPort st ProtocolUDP ?b =
      (Returns (), ?b\<lparr>b_model := m1, b_kube := (b_kube ?b)\<lparr>k_world := w2\<rparr>,
         b_errors := b_errors ?b +
           of_bool (unreachable ans (k_pods (b_kube ?b)) (b_model ?b) pods toPort st ProtocolUDP)\<rparr>)" by blast
  then show ?thesis
    using unreachable_dns [of m1 "b_model b" ans] m1
    by (intro exI [of _ w2]) (simp add: run_bind_def 1)
qed

lemmas cluster_ip_assess_steady = judge_both_steady [where toPort = 80 and st = ClusterIP, folded cluster_ip_assess_def]

lemma pods_ready_kept:
  assumes "\<forall>r. kept_pod (h ! r) (h1 ! r)" and "pods_ready h pods"
  shows "pods_ready h1 pods"
proof -
  have "p_Containers (h1 ! r) = p_Containers (h ! r)" "PodString (h1 ! r) = PodString (h ! r)" for r
    using assms(1) kept_pod_sel by blast+
  then show ?thesis using assms(2) by (simp add: pods_ready_def pod_names_def has_named_container_def)
qed

text \<open>
  C15. When the setup of the ClusterIP feature returns, the list of services is the nil entries it was
  made with and one service for each pod, no two of the same name; and when it recorded no error,
  each service selects its pod in its namespace, and the pod carries the nonempty address that the
  watch delivered for that very service. Nothing else of the pods changes but their labels.
\<close>

theorem cluster_ip_setup_serves:
  assumes "cluster_ip_setup E pods b = (Returns (), b1)" and "distinct pods"
    and "\<forall>r \<in> set pods. r < length (k_pods (b_kube b))" and "0 \<le> svc_count (b_sid b)"
  shows "\<exists>svcs. b_services b1 = replicate (length pods) None @ map Some svcs \<and> length svcs = length pods \<and>
           distinct (map (ksName \<circ> s_service) svcs) \<and> b_errors b \<le> b_errors b1 \<and>
           (b_errors b1 = b_errors b \<longrightarrow> (\<forall>i < length pods. served E (k_pods (b_kube b1) ! (pods ! i)) (svcs ! i))) \<and>
           (\<forall>r. kept_pod (k_pods (b_kube b) ! r) (k_pods (b_kube b1) ! r))"
proof -
  obtain svcs where s: "serving E b (length pods) pods b1 svcs"
    using cluster_ip_setup_serving [OF assms(1-3)] by blast
  from serving_distinct [OF s assms(4)] s show ?thesis
    by (intro exI [of _ svcs]) (simp add: serving_def)
qed

text \<open>Clients that run commands as \<open>live_client\<close> does keep its laws.\<close>

lemma live_like_laws:
  assumes "execStream E = execStream live_client" "spdyExecutor E = spdyExecutor live_client" "goOrder E = goOrder live_client"
  shows "order_law E" "steady E (\<lambda>_. ('''', None))"
proof -
  have "Execute E = Execute live_client"
    unfolding fun_eq_iff Execute_def ExecWithOptions_def execute_def assms by simp
  then show "steady E (\<lambda>_. ('''', None))" using live_laws(3) by (simp add: steady_def)
  show "order_law E" using live_laws(2) by (simp add: order_law_def assms)
qed

definition serving_client :: "nat client" where
  "serving_client = live_client\<lparr>watchNext := \<lambda>ch w.
     (WatchEvent (if ch = 0 then WService (demo_service\<lparr>ksName := ''s-x-a-1''\<rparr>)
                  else WEndpoints \<lparr>keName = ''s-1'', keSubsets = [\<lparr>suAddresses = [''10.0.0.1''], suNotReady = []\<rparr>]\<rparr>), w)\<rparr>"

definition serving_model :: model where
  "serving_model = \<lparr>m_pods = Some [0], m_ports = None, m_protocols = None,
     m_Namespaces = [\<lparr>ns_Name = ''x'', ns_Pods = [0]\<rparr>], m_dnsDomain = ''cluster.local''\<rparr>"

definition serving_board :: "nat board" where
  "serving_board = \<lparr>b_model = serving_model, b_kube = demo_board [] 0, b_sid = None, b_services = [], b_errors = 0\<rparr>"

lemma Itoa_one: "Itoa 1 = ''1''"
  by (simp add: Itoa_def dec_nat.simps digit_char_def)

lemma serving_watches:
  "watch_loop serving_client endpoint_handle f (Suc 0) () w = Some (Inr (True, None), w)"
  "watch_loop serving_client (clusterip_handle ''s-x-a-1'') g 0 () w = Some (Inr (''10.96.0.1'', None), w)"
  by (subst watch_loop.simps, simp add: serving_client_def endpoint_handle_def subset_ready_def clusterip_handle_def
        demo_service_def zero_service_def)+

lemma serving_calls:
  "servicesWatch serving_client ns w = ((Some 0, None), w)" "endpointsWatch serving_client ns w = ((Some 1, None), w)"
  "servicesCreate serving_client ns s w = ((s, None), w)" "goOrder serving_client n w = (rev [0..<n], w)"
  by (simp_all add: serving_client_def live_client_def demo_client_def)

lemmas serving_eval = serving_board_def demo_board_def demo_store_def demo_board_pod_def new_pod_def
  ClusterIPService_def service_with_ports_def NewService_def SvcID_after_increase svc_count_def LabelSelector_def
  ServiceName_def s_Create_def Kube_NewService_def serving_calls portFromContainer_def Let_def WaitForEndpoint_def
  WaitForClusterIP_def Itoa_one zero_service_def

lemma serving_setup: "\<exists>b1. cluster_ip_setup serving_client [0] serving_board = (Returns (), b1) \<and> b_errors b1 = 0"
  by (simp add: cluster_ip_setup_def cluster_ip_pod_def make_services_def append_service_def run_bind_def new_service_def
      step_defs serving_eval serving_watches)

theorem cluster_ip_setup_serves_witness:
  "\<exists>b1 svc. cluster_ip_setup serving_client [0] serving_board = (Returns (), b1) \<and>
     b_services b1 = [None, Some svc] \<and> served serving_client (k_pods (b_kube b1) ! 0) svc"
proof -
  obtain b1 where b1: "cluster_ip_setup serving_client [0] serving_board = (Returns (), b1)" "b_errors b1 = 0"
    using serving_setup by blast
  have "distinct [0 :: nat]" "\<forall>r \<in> set [0]. r < length (k_pods (b_kube serving_board))" "0 \<le> svc_count (b_sid serving_board)"
    by (simp_all add: serving_board_def demo_board_def demo_store_def svc_count_def)
  from cluster_ip_setup_serves [OF b1(1) this] obtain svcs where
    "b_services b1 = replicate (length [0 :: nat]) None @ map Some svcs" "length svcs = length [0 :: nat]"
    "\<forall>i < length [0 :: nat]. served serving_client (k_pods (b_kube b1) ! ([0] ! i)) (svcs ! i)"
    using b1(2) by (auto simp: serving_board_def)
  with b1(1) show ?thesis by (cases svcs) auto
qed

text \<open>
  C8. After a setup of the ClusterIP feature that recorded no error, on a steady cluster whose pods are
  ready, the assessment never panics and never ends the test: it records one error for TCP exactly when
  some ordered pair of pods is not connected there, and one for UDP in the same way; and each of its probes of a pod goes to the
  address the watch delivered for that pod's own service.
\<close>

theorem cluster_ip_feature_verdict:
  assumes E: "order_law E" "steady E ans"
    and run: "cluster_ip_setup E pods b = (Returns (), b1)" "b_errors b1 = b_errors b"
    and pods: "AllPods (b_model b) = (pods, m1)" "pods_ready (k_pods (b_kube b)) pods"
      "\<forall>r \<in> set pods. r < length (k_pods (b_kube b))"
  shows "(\<exists>b2. cluster_ip_assess E PF pods b1 = (Returns (), b2) \<and>
            b_errors b2 = b_errors b +
              of_bool (unreachable ans (k_pods (b_kube b1)) (b_model b) pods 80 ClusterIP ProtocolTCP) +
              of_bool (unreachable ans (k_pods (b_kube b1)) (b_model b) pods 80 ClusterIP ProtocolUDP)) \<and>
         (\<forall>r \<in> set pods. \<exists>svc w w1 ip. Some svc \<in> set (b_services b1) \<and> ip \<noteq> '''' \<and>
            ksSelector (s_service svc) ''pod'' = Some (p_Name (k_pods (b_kube b1) ! r)) \<and>
            WaitForClusterIP E svc w = Some (Inr (ip, None), w1) \<and>
            (\<forall>job. pj_ServiceType job = ClusterIP \<longrightarrow> probe_address job (k_pods (b_kube b1) ! r) = ip))"
proof -
  have d: "distinct pods" using pods(2) by (auto simp: pods_ready_def pod_names_def distinct_map)
  from cluster_ip_setup_serving [OF run(1) d pods(3)] obtain svcs where
    s: "serving E b (length pods) pods b1 svcs" by blast
  then have b1: "b_model b1 = b_model b" "\<forall>r. kept_pod (k_pods (b_kube b) ! r) (k_pods (b_kube b1) ! r)"
    "b_services b1 = replicate (length pods) None @ map Some svcs" "length svcs = length pods"
    "\<forall>i < length pods. served E (k_pods (b_kube b1) ! (pods ! i)) (svcs ! i)"
    using run(2) by (simp_all add: serving_def)
  have "AllPods (b_model b1) = (pods, m1)" "pods_ready (k_pods (b_kube b1)) pods"
    using pods(1,2) b1(1) pods_ready_kept [OF b1(2)] by simp_all
  from cluster_ip_assess_steady [OF E this, of PF] have
    "\<exists>b2. cluster_ip_assess E PF pods b1 = (Returns (), b2) \<and>
            b_errors b2 = b_errors b +
              of_bool (unreachable ans (k_pods (b_kube b1)) (b_model b) pods 80 ClusterIP ProtocolTCP) +
              of_bool (unreachable ans (k_pods (b_kube b1)) (b_model b) pods 80 ClusterIP ProtocolUDP)"
    unfolding b1(1) run(2) by auto
  moreover have "\<exists>svc w w1 ip. Some svc \<in> set (b_services b1) \<and> ip \<noteq> '''' \<and>
            ksSelector (s_service svc) ''pod'' = Some (p_Name (k_pods (b_kube b1) ! r)) \<and>
            WaitForClusterIP E svc w = Some (Inr (ip, None), w1) \<and>
            (\<forall>job. pj_ServiceType job = ClusterIP \<longrightarrow> probe_address job (k_pods (b_kube b1) ! r) = ip)"
    if r: "r \<in> set pods" for r
  proof -
    obtain i where i: "i < length pods" "r = pods ! i" using r by (metis in_set_conv_nth)
    have "Some (svcs ! i) \<in> set (b_services b1)" using i b1(4) by (simp add: b1(3))
    moreover have s: "served E (k_pods (b_kube b1) ! r) (svcs ! i)" using i b1(5) by simp
    moreover obtain w w1 where "WaitForClusterIP E (svcs ! i) w = Some (Inr (p_clusterIP (k_pods (b_kube b1) ! r), None), w1)"
      using s unfolding served_def delivers_cluster_ip_def by blast
    moreover have "probe_address job p = p_clusterIP p" if "pj_ServiceType job = ClusterIP" for job p
      using that by (simp add: probe_address_def pj_GetServiceType_def GetClusterIP_def)
    ultimately show ?thesis
      by (intro exI [of _ "svcs ! i"] exI [of _ w] exI [of _ w1] exI [of _ "p_clusterIP (k_pods (b_kube b1) ! r)"])
        (simp add: served_def)
  qed
  ultimately show ?thesis by blast
qed

theorem cluster_ip_feature_verdict_witness:
  "\<exists>b1 b2. cluster_ip_setup serving_client [0] serving_board = (Returns (), b1) \<and>
     cluster_ip_assess serving_client (\<lambda>_. (Fin 0, None)) [0] b1 = (Returns (), b2) \<and> b_errors b2 = 0"
proof -
  obtain b1 where b1: "cluster_ip_setup serving_client [0] serving_board = (Returns (), b1)" "b_errors b1 = 0"
    using serving_setup by blast
  have laws: "order_law serving_client" "steady serving_client (\<lambda>_. ('''', None))"
    by (rule live_like_laws; simp add: serving_client_def)+
  have "b_errors b1 = b_errors serving_board" using b1(2) by (simp add: serving_board_def)
  moreover have "AllPods (b_model serving_board) = ([0], serving_model)"
    by (simp add: serving_board_def serving_model_def AllPods_def)
  moreover have "pods_ready (k_pods (b_kube serving_board)) [0]" "\<forall>r \<in> set [0]. r < length (k_pods (b_kube serving_board))"
    by (simp_all add: serving_board_def demo_board_def demo_store_def demo_board_pod_def new_pod_def pods_ready_def
        has_named_container_def pod_names_def)
  moreover note cluster_ip_feature_verdict [OF laws b1(1), of serving_model "\<lambda>_. (Fin 0, None)"]
  moreover have "\<not> unreachable (\<lambda>_. ('''', None)) h m [0] 80 ClusterIP proto" for h m proto
    by (simp add: unreachable_def answer_def make_job_def Let_def)
  ultimately show ?thesis using b1(1) by (auto simp: serving_board_def)
qed

text \<open>
  C18. A cleanup that returns has deleted every service of the list, the nil entries skipped, and has reset
  exactly the pods of the model. A pod that was reset is probed again and has nothing left of any
  service: its cluster IP, its service name and its addresses outside the cluster are empty, so probes
  of these kinds go to the empty address, and its port is 0. What a NodePort probe goes to
  is the address of the pod's host, which is not of a service and stays.
\<close>

theorem reset_board_cleans:
  assumes "reset_board E b = (Returns (), b1)" and "AllPods (b_model b) = (pods, m1)"
  shows "(\<forall>e \<in> set (deletions E (b_services b) (k_world (b_kube b))). e = None) \<and> b_errors b1 = b_errors b \<and>
         (\<forall>r. k_pods (b_kube b1) ! r =
                (if r \<in> set pods \<and> r < length (k_pods (b_kube b)) then p_Reset (k_pods (b_kube b) ! r)
                 else k_pods (b_kube b) ! r)) \<and>
         (\<forall>r \<in> set pods. r < length (k_pods (b_kube b)) \<longrightarrow> \<not> p_SkipProbe (k_pods (b_kube b1) ! r) \<and>
            p_ToPort (k_pods (b_kube b1) ! r) = 0 \<and>
            (\<forall>job. pj_ServiceType job \<in> {ClusterIP, ExternalName, LoadBalancer} \<longrightarrow>
               probe_address job (k_pods (b_kube b1) ! r) = '''') \<and>
            (\<forall>job. pj_ServiceType job = NodePort \<longrightarrow>
               probe_address job (k_pods (b_kube b1) ! r) = p_HostIP (k_pods (b_kube b) ! r)))"
  using reset_board_returns [OF assms]
  by (auto simp: p_Reset_def probe_address_def pj_GetServiceType_def pod_accessors GetExternalIPsByProtocol_def)

theorem reset_board_cleans_witness:
  "\<exists>b1. reset_board demo_client (serving_board\<lparr>b_services := [None, Some demo_held]\<rparr>) = (Returns (), b1) \<and>
     \<not> p_SkipProbe (k_pods (b_kube b1) ! 0) \<and> b_errors b1 = 0"
proof -
  let ?b = "serving_board\<lparr>b_services := [None, Some demo_held]\<rparr>"
  have pods: "AllPods (b_model ?b) = ([0], serving_model)" by (simp add: serving_board_def serving_model_def AllPods_def)
  have d: "s_Delete demo_client demo_held w = (None, w)" for w
    by (simp add: s_Delete_def demo_client_def)
  obtain m h where "ResetAllPods (b_model ?b) (k_pods (b_kube ?b)) = (m, h)" by fastforce
  then obtain b1 where b1: "reset_board demo_client ?b = (Returns (), b1)"
    by (simp add: reset_board_def run_bind_def on_board_def ResetTestBoard_def fatal_if_def d)
  have "0 < length (k_pods (b_kube ?b))" by (simp add: serving_board_def demo_board_def demo_store_def)
  moreover note reset_board_cleans [OF b1 pods]
  ultimately have "\<not> p_SkipProbe (k_pods (b_kube b1) ! 0)" "b_errors b1 = b_errors ?b" by (meson list.set_intros(1))+
  with b1 show ?thesis by (auto simp: serving_board_def)
qed

end
