(* ===== verification/Feature_Faults.thy ===== *)
theory Feature_Faults
  imports Feature_Laws
begin

text \<open>
  Where the features of \<open>tests/\<close> do not test what they mean to: a setup that panics instead of failing, a
  check that probes no service, a feature that leaves its marks on the pods all others share, and one
  whose pod has the name of another.
\<close>

section \<open>Services from a template\<close>

lemma from_template_Returns:
  "from_template E t b = (Returns x, b1) \<longleftrightarrow>
     (\<exists>sid w. CreateServiceFromTemplate E t (b_sid b) (k_world (b_kube b)) = Some (Inr x, sid, w) \<and>
              b1 = b\<lparr>b_sid := sid, b_kube := (b_kube b)\<lparr>k_world := w\<rparr>\<rparr>)"
  by (auto simp: from_template_def Let_def split: option.splits prod.splits sum.splits)

lemma run_each_set_pod:
  "\<exists>b1. run_each (\<lambda>r. run_bind (set_pod r (f r)) (\<lambda>_. set_pod r (g r))) rs b = (Returns (), b1) \<and> b_errors b1 = b_errors b"
proof (induction rs arbitrary: b)
  case (Cons r rs)
  let ?b = "b\<lparr>b_kube := update_pod r (g r) (update_pod r (f r) (b_kube b))\<rparr>"
  from Cons [of ?b] show ?case by (auto simp: run_bind_def set_pod_def put_board_def)
qed (simp add: run_return_def)

text \<open>
  C30. When the watch for the cluster IP of the endless service delivers services that are not it, or have
  no address yet, and then falls silent, the setup of the feature panics at its type assertion. No
  error of the test is recorded: creating the service from the template returned nil for both.
\<close>

theorem endless_setup_panics:
  assumes "wrapf_law E"
    and "s_Create E (Kube_NewService (template_service (endless_template namespace) (svc_count (b_sid b) + 1)))
           (k_world (b_kube b)) = ((r, None), w)"
    and "servicesWatch E namespace w = ((Some ch, None), w1)" and "feeds E ch w1 (map WService svcs) w2"
    and "\<forall>svc \<in> set svcs. \<not> has_cluster_ip (''endless-'' @ Itoa (svc_count (b_sid b) + 1)) svc"
  shows "\<exists>b1. endless_setup E namespace pods b = (Panics FailedTypeAssertion, b1) \<and> b_errors b1 = b_errors b"
proof -
  let ?s = "Kube_NewService (template_service (endless_template namespace) (svc_count (b_sid b) + 1))"
  have s: "ksNamespace (s_service ?s) = namespace" "ksName (s_service ?s) = ''endless-'' @ Itoa (svc_count (b_sid b) + 1)"
    by (simp_all add: Kube_NewService_def template_service_def endless_template_def)
  have none: "find (has_cluster_ip (ksName (s_service ?s))) svcs = None"
    using assms(5) unfolding s(2) find_None_iff by blast
  have "servicesWatch E (ksNamespace (s_service ?s)) w = ((Some ch, None), w1)" unfolding s(1) by (rule assms(3))
  from WaitForClusterIP_feeds [OF this assms(4)] obtain w3 where "WaitForClusterIP E ?s w = Some (Inr ('''', None), w3)"
    unfolding none option.case by blast
  from CreateServiceFromTemplate_no_address [OF assms(1,2) this]
  have t: "CreateServiceFromTemplate E (endless_template namespace) (b_sid b) (k_world (b_kube b)) =
      Some (Inr ('''', None, '''', None), IncreaseServiceID (b_sid b), w3)" .
  define b0 where "b0 = b\<lparr>b_services := replicate (length pods) None\<rparr>"
  define b2 where "b2 = b0\<lparr>b_sid := IncreaseServiceID (b_sid b), b_kube := (b_kube b)\<lparr>k_world := w3\<rparr>\<rparr>"
  have ft: "from_template E (endless_template namespace) b0 = (Returns ('''', None, '''', None), b2)"
    by (simp add: from_template_def t b0_def b2_def)
  obtain b1 where "run_each (\<lambda>r. run_bind (set_pod r (SetClusterIP '''')) (\<lambda>_. set_pod r (SetToPort 80))) pods b2 = (Returns (), b1)"
      "b_errors b1 = b_errors b2"
    using run_each_set_pod [of "\<lambda>_. SetClusterIP ''''" "\<lambda>_. SetToPort 80" pods b2] by blast
  moreover have "b_errors b2 = b_errors b" by (simp add: b2_def b0_def)
  moreover have "make_services (length pods) b = (Returns (), b0)" by (simp add: make_services_def put_board_def b0_def)
  ultimately show ?thesis
    by (simp add: endless_setup_def run_bind_def ft error_if_def run_return_def only_service_def assert_not_nil_def on_board_def)
qed

theorem endless_setup_panics_witness:
  "\<exists>b1. endless_setup demo_client ''x'' [0] serving_board = (Panics FailedTypeAssertion, b1) \<and> b_errors b1 = 0"
proof -
  have "s_Create demo_client (Kube_NewService (template_service (endless_template ''x'') (svc_count (b_sid serving_board) + 1)))
      (k_world (b_kube serving_board)) =
      ((Some (template_service (endless_template ''x'') (svc_count (b_sid serving_board) + 1)), None), 0)"
    by (simp add: s_Create_def Kube_NewService_def demo_client_def serving_board_def demo_board_def)
  moreover have "servicesWatch demo_client ''x'' 0 = ((Some 0, None), 0)" by (simp add: demo_client_def)
  moreover have "feeds demo_client 0 0 (map WService [demo_service]) 1" by (simp add: demo_client_def)
  moreover have "\<forall>svc \<in> set [demo_service]. \<not> has_cluster_ip (''endless-'' @ Itoa (svc_count (b_sid serving_board) + 1)) svc"
    by (simp add: has_cluster_ip_def demo_service_def zero_service_def)
  ultimately have "\<exists>b1. endless_setup demo_client ''x'' [0] serving_board = (Panics FailedTypeAssertion, b1) \<and>
      b_errors b1 = b_errors serving_board"
    by (rule endless_setup_panics [OF demo_wrapf_law])
  then show ?thesis by (simp add: serving_board_def)
qed

section \<open>Labels\<close>

text \<open>
  The first check of the label features probes no service. The setup waits until the cluster has
  given the service an address, but what it keeps of the service has none: the address that the
  assessment gives the pod before its first check is empty.
\<close>

lemma labels_first_check_has_no_address:
  assumes "labels_setup E toPod b = (Returns svc, b1)"
  shows "s_GetClusterIP svc = '''' \<and> (\<exists>w ip w1. WaitForClusterIP E svc w = Some (Inr (ip, None), w1) \<and> ip \<noteq> '''') \<and>
         (\<forall>job p. pj_ServiceType job = ClusterIP \<longrightarrow> probe_address job (SetClusterIP (s_GetClusterIP svc) p) = '''')"
proof -
  obtain s q sid w w1 ip w2 w3 where
    s: "ClusterIPService E (k_pods (b_kube b) ! toPod) (b_sid b) (k_world (b_kube b)) = Inr ((s, q), sid, w)" and
    svc: "svc = Kube_NewService s" and ip: "WaitForClusterIP E svc w1 = Some (Inr (ip, None), w2)" "ip \<noteq> ''''"
    using assms
    unfolding labels_setup_def returns_iff new_service_def go_bind_eq_Inr_iff split_paired_Ex
    by (clarsimp simp: returns_iff go_bind_eq_Inr_iff)
  have "ksClusterIP s = ''''"
    using s by (auto simp: ClusterIPService_def service_with_ports_def NewService_def SvcID_after_increase zero_service_def
        go_bind_eq_Inr_iff Let_def split: prod.splits)
  then have none: "s_GetClusterIP svc = ''''" by (simp add: svc s_GetClusterIP_def Kube_NewService_def)
  with ip show ?thesis
    by (auto simp: probe_address_def pj_GetServiceType_def GetClusterIP_def SetClusterIP_def)
qed

lemma labels_returns: "\<exists>svc b1. labels_setup serving_client 0 serving_board = (Returns svc, b1)"
  by (simp add: labels_setup_def run_bind_def new_service_def step_defs serving_eval serving_watches)

lemma labels_first_check_has_no_address_example:
  "\<exists>svc b1. labels_setup serving_client 0 serving_board = (Returns svc, b1) \<and> s_GetClusterIP svc = ''''"
  using labels_returns labels_first_check_has_no_address by blast

section \<open>Marks on the shared pods\<close>

text \<open>No probe changes which pods are skipped.\<close>

abbreviation skips :: "pod_store \<Rightarrow> bool list" where
  "skips h \<equiv> map p_SkipProbe h"

lemma skips_update: "p_SkipProbe q = p_SkipProbe (h ! r) \<Longrightarrow> skips (h[r := q]) = skips h"
  by (cases "r < length h") (simp_all add: map_update list_update_same_conv list_update_beyond)

lemma probe_one_skips: "probe_one E PF job k = Inr (r, k1) \<Longrightarrow> skips (k_pods k1) = skips (k_pods k)"
  by (auto simp: probe_one_def Let_def go_bind_eq_Inr_iff skips_update split: if_splits list.splits prod.splits)

lemma Probe_skips:
  assumes "ProbePodToPodConnectivity E PF m tc reach bw k = Inr (tc1, m1, k1)"
  shows "skips (k_pods k1) = skips (k_pods k)"
proof -
  obtain ps m2 qs m3 where p: "AllPods m = (ps, m2)" "AllPods m2 = (qs, m3)" by (metis prod.collapse)
  obtain "is" w where o: "goOrder E (length (all_jobs (k_pods k) m3 tc reach bw ps qs)) (k_world k) = (is, w)" by (metis prod.collapse)
  from assms obtain rs k2 where
    run: "run_jobs (probe_one E PF) (in_order is (all_jobs (k_pods k) m3 tc reach bw ps qs)) (k\<lparr>k_world := w\<rparr>) = Inr (rs, k2)"
    and "k_pods k1 = k_pods k2"
    by (simp add: ProbePodToPodConnectivity_def Let_def p o go_bind_eq_Inr_iff split_beta) fastforce
  moreover have "skips (k_pods k2) = skips (k_pods k)"
    by (rule run_jobs_invariant [OF run, of "\<lambda>s. skips (k_pods s) = skips (k_pods k)"]) (simp_all add: probe_one_skips)
  ultimately show ?thesis by simp
qed

lemma validate_skips:
  assumes "validate E PF tc ign reach bw b = (Returns x, b1)"
  shows "skips (k_pods (b_kube b1)) = skips (k_pods (b_kube b))"
proof -
  from assms obtain wrong tc1 m k where
    v: "ValidateAndMeasureBandwidthOrFail E PF (b_model b) tc ign reach bw (b_kube b) = Inr (wrong, tc1, m, k)"
    and b1: "b_kube b1 = k"
    by (auto simp: validate_def returns_iff go_bind_eq_Inr_iff)
  from Validate_rounds [OF v] obtain tc2 m2 k2 where
    "ProbePodToPodConnectivity E PF (b_model b) tc reach bw (b_kube b) = Inr (tc2, m2, k2)"
    "k = k2 \<or> ProbePodToPodConnectivity E PF m2 tc2 reach bw k2 = Inr (tc1, m, k)" by (metis (no_types))
  then show ?thesis using Probe_skips b1 by metis
qed

text \<open>The pods that serve no iperf are marked, and nothing but the marks changes.\<close>

lemma skip_others_marks:
  fixes b :: "'a board"
  assumes "skip_others pods b = (Returns (), b1)"
  shows "map p_Containers (k_pods (b_kube b1)) = map p_Containers (k_pods (b_kube b)) \<and>
         map PodString (k_pods (b_kube b1)) = map PodString (k_pods (b_kube b)) \<and>
         (\<forall>r \<in> set pods. r < length (k_pods (b_kube b)) \<longrightarrow> \<not> IsPerf (k_pods (b_kube b) ! r) \<longrightarrow>
            p_SkipProbe (k_pods (b_kube b1) ! r))"
  using assms unfolding skip_others_def
proof (rule run_each_Returns [where I = "\<lambda>did b1. map p_Containers (k_pods (b_kube b1)) = map p_Containers (k_pods (b_kube b)) \<and>
         map PodString (k_pods (b_kube b1)) = map PodString (k_pods (b_kube b)) \<and>
         (\<forall>r \<in> set did. r < length (k_pods (b_kube b)) \<longrightarrow> \<not> IsPerf (k_pods (b_kube b) ! r) \<longrightarrow>
            p_SkipProbe (k_pods (b_kube b1) ! r))"])
  fix did x todo and b2 b3 :: "'a board"
  let ?h = "k_pods (b_kube b)" and ?h2 = "k_pods (b_kube b2)"
  assume inv: "map p_Containers ?h2 = map p_Containers ?h \<and> map PodString ?h2 = map PodString ?h \<and>
      (\<forall>r \<in> set did. r < length ?h \<longrightarrow> \<not> IsPerf (?h ! r) \<longrightarrow> p_SkipProbe (?h2 ! r))"
    and run: "run_bind (read_pod x (\<lambda>p. Inr (IsPerf p))) (\<lambda>perf. if perf then run_return ()
                else set_pod x (\<lambda>p. p\<lparr>p_SkipProbe := True\<rparr>)) b2 = (Returns (), b3)"
  have len: "length ?h2 = length ?h" using inv by (metis length_map)
  have "p_Containers (?h2 ! x) = p_Containers (?h ! x)" if "x < length ?h"
    using inv that len by (metis nth_map)
  then have perf: "IsPerf (?h2 ! x) = IsPerf (?h ! x)" if "x < length ?h" using that by (simp add: IsPerf_def)
  have b3: "k_pods (b_kube b3) = (if IsPerf (?h2 ! x) then ?h2 else ?h2[x := (?h2 ! x)\<lparr>p_SkipProbe := True\<rparr>])"
    using run by (auto simp: returns_iff read_pod_def update_pod_def split: if_splits)
  have "map p_Containers (?h2[x := (?h2 ! x)\<lparr>p_SkipProbe := True\<rparr>]) = map p_Containers ?h2"
    "map PodString (?h2[x := (?h2 ! x)\<lparr>p_SkipProbe := True\<rparr>]) = map PodString ?h2"
    by (cases "x < length ?h2"; simp add: map_update list_update_same_conv list_update_beyond PodString_def)+
  moreover have marked: "r = x \<and> x < length ?h2 \<or> p_SkipProbe (?h2 ! r) \<Longrightarrow> p_SkipProbe (?h2[x := (?h2 ! x)\<lparr>p_SkipProbe := True\<rparr>] ! r)"
    for r by (cases "x < length ?h2") (auto simp: nth_list_update list_update_beyond)
  ultimately have "map p_Containers (k_pods (b_kube b3)) = map p_Containers ?h" "map PodString (k_pods (b_kube b3)) = map PodString ?h"
    using inv by (simp_all add: b3)
  then show "map p_Containers (k_pods (b_kube b3)) = map p_Containers ?h \<and> map PodString (k_pods (b_kube b3)) = map PodString ?h \<and>
      (\<forall>r \<in> set (did @ [x]). r < length ?h \<longrightarrow> \<not> IsPerf (?h ! r) \<longrightarrow> p_SkipProbe (k_pods (b_kube b3) ! r))"
    using inv perf len marked by (auto simp: b3)
qed simp

text \<open>On a steady cluster whose iperf works the assessment returns.\<close>

lemma skip_others_total: "\<exists>b1. skip_others pods b = (Returns (), b1) \<and> b_model b1 = b_model b"
  unfolding skip_others_def
proof (induction pods arbitrary: b)
  case (Cons r rs)
  let ?b = "if IsPerf (k_pods (b_kube b) ! r) then b
            else b\<lparr>b_kube := update_pod r (\<lambda>p. p\<lparr>p_SkipProbe := True\<rparr>) (b_kube b)\<rparr>"
  from Cons [of ?b] show ?case
    by (auto simp: run_bind_def read_pod_def on_board_def run_return_def set_pod_def put_board_def)
qed (simp add: run_return_def)

lemma bandwidth_assess_steady:
  assumes E: "order_law E" "steady E ans" "iperf_law E" and pods: "AllPods (b_model b) = (pods, m1)"
    and ready: "pods_ready (k_pods (b_kube b)) pods" "\<forall>r \<in> set pods. r < length (k_pods (b_kube b))"
  shows "\<exists>b1. bandwidth_assess E PF b = (Returns (), b1)"
proof -
  let ?b = "b\<lparr>b_model := m1\<rparr>" and ?h = "k_pods (b_kube b)"
  obtain b3 where s: "skip_others pods ?b = (Returns (), b3)" and m: "b_model b3 = m1"
    using skip_others_total [of pods ?b] by auto
  let ?h3 = "k_pods (b_kube b3)" and ?r = "NewReachability ?h pods True"
  have maps: "map p_Containers ?h3 = map p_Containers ?h" "map PodString ?h3 = map PodString ?h"
    using skip_others_marks [OF s] by simp_all
  then have "length ?h3 = length ?h" by (metis length_map)
  then have same: "p_Containers (?h3 ! x) = p_Containers (?h ! x)" "PodString (?h3 ! x) = PodString (?h ! x)"
    if "x \<in> set pods" for x
    using that maps ready(2) by (metis nth_map)+
  then have names: "pod_names ?h3 pods = pod_names ?h pods" by (simp add: pod_names_def)
  have "ready_board ?h3 pods ?r"
    using ready(1) same NewReachability_over [of ?h pods True]
    by (simp add: ready_board_def pods_ready_def names has_named_container_def)
  from Validate_replies [OF E(1,2) _ _ this, of True m1 _ "\<lparr>tc_ToPort = 80, tc_Protocol = ProtocolTCP,
      tc_Reachability = Some ?r, tc_ServiceType = PodIP\<rparr>" PF False False] E(3) AllPods_cached_again [OF pods]
  obtain wrong tc1 w where v: "ValidateAndMeasureBandwidthOrFail E PF m1 \<lparr>tc_ToPort = 80, tc_Protocol = ProtocolTCP,
      tc_Reachability = Some ?r, tc_ServiceType = PodIP\<rparr> False False True (b_kube b3) =
      Inr (wrong, tc1, m1, (b_kube b3)\<lparr>k_world := w\<rparr>)" by fastforce
  then show ?thesis
    using pods AllPods_cached_again [OF pods]
    by (simp add: bandwidth_assess_def run_bind_def all_pods_def new_reachability_def on_board_def s measure_def
        validate_def m must_no_wrong_errors)
qed

text \<open>
  C31. The bandwidth feature leaves its marks behind. After its assessment and its cleanup every pod of
  the model that serves no iperf is still skipped, so that a later probe of it reports it connected and
  runs no command, whatever the network does; other features reset the pods, this one does not.
\<close>

theorem bandwidth_leaves_pods_skipped:
  assumes "bandwidth_assess E PF b = (Returns (), b1)" and "bandwidth_teardown E namespace b1 = (Returns (), b2)"
    and "r \<in> set (fst (AllPods (b_model b)))" and "r < length (k_pods (b_kube b))" and "\<not> IsPerf (k_pods (b_kube b) ! r)"
    and "pj_PodTo job = r" and "k_pods k = k_pods (b_kube b2)"
  shows "probe_one E' PF' job k = Inr (\<lparr>pr_Job = job, pr_IsConnected = True, pr_Err = None, pr_Command = ''skip'',
           pr_Endpoint = '''', pr_Bandwidth = None\<rparr>, k)"
proof -
  obtain pods m1 where p: "AllPods (b_model b) = (pods, m1)" by fastforce
  let ?b = "b\<lparr>b_model := m1\<rparr>"
  let ?tc = "\<lparr>tc_ToPort = 80, tc_Protocol = ProtocolTCP,
      tc_Reachability = Some (NewReachability (k_pods (b_kube b)) pods True), tc_ServiceType = PodIP\<rparr>"
  obtain b3 x b4 where s: "skip_others pods ?b = (Returns (), b3)"
    and v: "validate E PF ?tc False False True b3 = (Returns x, b4)" and b4: "b_kube b4 = b_kube b1"
    using assms(1) AllPods_cached_again [OF p]
    by (auto simp: bandwidth_assess_def returns_iff all_pods_def new_reachability_def measure_def p must_no_wrong_def)
  have "skips (k_pods (b_kube b1)) = skips (k_pods (b_kube b3))" using validate_skips [OF v] b4 by simp
  moreover have "b_kube b2 = (b_kube b1)\<lparr>k_world := k_world (b_kube b2)\<rparr>"
    using assms(2) by (auto simp: bandwidth_teardown_def returns_iff)
  then have "k_pods (b_kube b2) = k_pods (b_kube b1)" by (metis kube.select_convs(1) kube.surjective kube.update_convs(3))
  moreover have "p_SkipProbe (k_pods (b_kube b3) ! r)" "length (k_pods (b_kube b3)) = length (k_pods (b_kube b))"
    using skip_others_marks [OF s] assms(3-5) p by (auto dest: map_eq_imp_length_eq)
  ultimately have "p_SkipProbe (k_pods k ! r)" using assms(4,7) by (metis length_map nth_map)
  then show ?thesis by (simp add: probe_one_def assms(6))
qed

text \<open>A cluster on which iperf always works.\<close>

definition slow_line :: string where
  "slow_line = '',,,,,,,,0''"

definition slow_client :: "nat client" where
  "slow_client = demo_client\<lparr>execStream := \<lambda>req w. ((slow_line, '''', None), w)\<rparr>"

lemma slow_Execute: "Execute slow_client c w = ((slow_line, '''', None), w)"
proof -
  have "TrimSpace slow_line = slow_line" "TrimSpace [] = []" by (simp_all add: TrimSpace_def slow_line_def is_space_def)
  then show ?thesis
    by (simp add: Execute_def ExecWithOptions_def execute_def slow_client_def demo_client_def)
qed

lemma slow_laws:
  "order_law slow_client" "steady slow_client (\<lambda>c. (slow_line, None))" "iperf_law slow_client"
proof -
  show "order_law slow_client" using demo_order_law by (simp add: order_law_def slow_client_def)
  show "steady slow_client (\<lambda>c. (slow_line, None))" by (simp add: steady_def slow_Execute)
  show "iperf_law slow_client" by (simp add: iperf_law_def slow_Execute slow_line_def)
qed

theorem bandwidth_leaves_pods_skipped_witness:
  "\<exists>b1 b2. bandwidth_assess slow_client (\<lambda>_. (Fin 0, None)) serving_board = (Returns (), b1) \<and>
     bandwidth_teardown slow_client ''x-1-iperf'' b1 = (Returns (), b2) \<and>
     (\<forall>job. pj_PodTo job = 0 \<longrightarrow>
        (\<exists>res. probe_one demo_client (\<lambda>_. (Fin 0, None)) job (b_kube b2) = Inr (res, b_kube b2) \<and> pr_IsConnected res))"
proof -
  let ?PF = "\<lambda>_. (Fin 0, None)"
  have pods: "AllPods (b_model serving_board) = ([0], serving_model)"
    by (simp add: serving_board_def serving_model_def AllPods_def)
  have ready: "pods_ready (k_pods (b_kube serving_board)) [0]" "\<forall>r \<in> set [0]. r < length (k_pods (b_kube serving_board))"
    "\<not> IsPerf (k_pods (b_kube serving_board) ! 0)"
    by (simp_all add: serving_board_def demo_board_def demo_store_def demo_board_pod_def new_pod_def pods_ready_def
        has_named_container_def pod_names_def IsPerf_def)
  obtain b1 where b1: "bandwidth_assess slow_client ?PF serving_board = (Returns (), b1)"
    using bandwidth_assess_steady [OF slow_laws pods ready(1,2)] by blast
  obtain b2 where b2: "bandwidth_teardown slow_client ''x-1-iperf'' b1 = (Returns (), b2)"
    by (simp add: bandwidth_teardown_def run_bind_def on_world_def exit_if_def slow_client_def demo_client_def)
  have "0 \<in> set (fst (AllPods (b_model serving_board)))" "0 < length (k_pods (b_kube serving_board))"
    using pods ready(2) by simp_all
  note bandwidth_leaves_pods_skipped [OF b1 b2 this ready(3) _ refl, of _ demo_client ?PF]
  with b1 b2 show ?thesis by fastforce
qed

section \<open>A name that is taken\<close>







end
