(* ===== verification/Service_Features.thy ===== *)
theory Service_Features
  imports Feature_Laws
begin

text \<open>
  The features that give every pod services of its own: ClusterIP, NodePort and LoadBalancer. Their
  setups go through the pods with a body that creates the services of one pod and writes their
  addresses to it; the assessments and the cleanup are the same for all. The locale \<open>pod_services\<close>
  states what such a body does and proves what the setup, the assessment and the cleanup do then.
\<close>

section \<open>What the features leave alone\<close>

text \<open>
  Two pods that agree once reset, but for their labels: the features write only what a reset erases.
  A pod that is probed goes on being probed.
\<close>

definition addressed :: "pod \<Rightarrow> pod \<Rightarrow> bool" where
  "addressed p q \<longleftrightarrow>
     (p_Reset q)\<lparr>p_Labels := None\<rparr> = (p_Reset p)\<lparr>p_Labels := None\<rparr> \<and> (p_SkipProbe q \<longrightarrow> p_SkipProbe p)"

lemma addressed_refl [simp]: "addressed p p"
  by (simp add: addressed_def)

lemma addressed_trans: "addressed p q \<Longrightarrow> addressed q q' \<Longrightarrow> addressed p q'"
  by (auto simp: addressed_def)

lemma addressed_sel:
  assumes "addressed p q"
  shows "p_Namespace q = p_Namespace p" "p_Name q = p_Name p" "p_Containers q = p_Containers p"
    "PodString q = PodString p" "p_HostIP q = p_HostIP p" "p_SkipProbe q \<Longrightarrow> p_SkipProbe p"
  using assms by (cases p; cases q; simp add: addressed_def p_Reset_def PodString_def)+

lemma addressed_updates:
  "addressed p (p\<lparr>p_Labels := ls\<rparr>)" "addressed p (SetClusterIP ip p)" "addressed p (SetToPort port p)"
  "addressed p (SetExternalIPs ips p)" "addressed p (SetServiceName name p)" "addressed p (p_Reset p)"
  by (simp_all add: addressed_def p_Reset_def pod_accessors)

lemma kept_pod_addressed: "kept_pod p q \<Longrightarrow> addressed p q"
  by (cases p; cases q; simp add: addressed_def kept_pod_def p_Reset_def)

lemma pods_ready_addressed:
  assumes "\<forall>r. addressed (h ! r) (h1 ! r)" and "pods_ready h pods"
  shows "pods_ready h1 pods"
proof -
  have "p_Containers (h1 ! r) = p_Containers (h ! r)" "PodString (h1 ! r) = PodString (h ! r)" for r
    using assms(1) addressed_sel by blast+
  then show ?thesis using assms(2) by (simp add: pods_ready_def pod_names_def has_named_container_def)
qed

section \<open>The interface\<close>

text \<open>
  The body of a setup's loop: when it returns for a pod, it has written to that pod alone, appended
  the services it made, and either recorded an error or served the pod with them.
\<close>

locale pod_services =
  fixes body :: "pod_ref \<Rightarrow> ('w, unit) step"
    and serves :: "pod \<Rightarrow> service list \<Rightarrow> bool"
  assumes body_returns:
    "body r b = (Returns (), b1) \<Longrightarrow> r < length (k_pods (b_kube b)) \<Longrightarrow>
       \<exists>svcs q. k_pods (b_kube b1) = (k_pods (b_kube b))[r := q] \<and> addressed (k_pods (b_kube b) ! r) q \<and>
         b_services b1 = b_services b @ map Some svcs \<and> b_model b1 = b_model b \<and>
         b_errors b \<le> b_errors b1 \<and> (b_errors b1 = b_errors b \<longrightarrow> serves q svcs)"
begin

text \<open>Between two pods of the setup's loop.\<close>

lemma body_step:
  assumes inv: "b_services b = replicate n None @ map Some (concat svcss)" "length svcss = length did"
      "b_model b = b_model b0" "length (k_pods (b_kube b)) = length (k_pods (b_kube b0))"
      "\<forall>r. addressed (k_pods (b_kube b0) ! r) (k_pods (b_kube b) ! r)" "b_errors b0 \<le> b_errors b"
      "b_errors b = b_errors b0 \<longrightarrow> (\<forall>i < length did. serves (k_pods (b_kube b) ! (did ! i)) (svcss ! i))"
    and run: "body r b = (Returns (), b1)" and r: "r < length (k_pods (b_kube b0))" "r \<notin> set did"
  shows "\<exists>svcs. b_services b1 = replicate n None @ map Some (concat (svcss @ [svcs])) \<and> b_model b1 = b_model b0 \<and>
      length (k_pods (b_kube b1)) = length (k_pods (b_kube b0)) \<and>
      (\<forall>r. addressed (k_pods (b_kube b0) ! r) (k_pods (b_kube b1) ! r)) \<and> b_errors b0 \<le> b_errors b1 \<and>
      (b_errors b1 = b_errors b0 \<longrightarrow>
         (\<forall>i < length (did @ [r]). serves (k_pods (b_kube b1) ! ((did @ [r]) ! i)) ((svcss @ [svcs]) ! i)))"
proof -
  let ?h = "k_pods (b_kube b)"
  have "r < length ?h" using inv(4) r by simp
  from body_returns [OF run this] obtain svcs q where
    b1: "k_pods (b_kube b1) = ?h[r := q]" "b_services b1 = b_services b @ map Some svcs" "b_model b1 = b_model b"
      "b_errors b \<le> b_errors b1" and
    q: "addressed (?h ! r) q" "b_errors b1 = b_errors b \<longrightarrow> serves q svcs" by blast
  have "addressed (k_pods (b_kube b0) ! x) (?h[r := q] ! x)" for x
    using inv(5) q(1) addressed_trans \<open>r < length ?h\<close> by (cases "x = r") (auto simp: nth_list_update)
  moreover have "serves (?h[r := q] ! ((did @ [r]) ! i)) ((svcss @ [svcs]) ! i)"
    if i: "i < length (did @ [r])" and "b_errors b1 = b_errors b0" for i
  proof (cases "i < length did")
    case True
    then have "did ! i \<noteq> r" using r(2) nth_mem by metis
    then show ?thesis using True inv(2,6,7) that(2) b1(4) by (simp add: nth_append)
  next
    case False
    then have "i = length did" using i by simp
    then show ?thesis using inv(2,6) that(2) b1(4) q(2) \<open>r < length ?h\<close> by (simp add: nth_append)
  qed
  ultimately show ?thesis
    using inv(1,3,4,6) b1 by (intro exI [of _ svcs]) simp
qed

text \<open>The setup: the nil entries the slice was made with, and the services of each pod.\<close>

lemma setup_serves:
  assumes "run_bind (make_services n) (\<lambda>_. run_each body pods) b = (Returns (), b1)" and "distinct pods"
    and "\<forall>r \<in> set pods. r < length (k_pods (b_kube b))"
  shows "\<exists>svcss. b_services b1 = replicate n None @ map Some (concat svcss) \<and> length svcss = length pods \<and>
           b_model b1 = b_model b \<and> length (k_pods (b_kube b1)) = length (k_pods (b_kube b)) \<and>
           (\<forall>r. addressed (k_pods (b_kube b) ! r) (k_pods (b_kube b1) ! r)) \<and> b_errors b \<le> b_errors b1 \<and>
           (b_errors b1 = b_errors b \<longrightarrow> (\<forall>i < length pods. serves (k_pods (b_kube b1) ! (pods ! i)) (svcss ! i)))"
proof -
  let ?I = "\<lambda>did b1. \<exists>svcss. b_services b1 = replicate n None @ map Some (concat svcss) \<and> length svcss = length did \<and>
           b_model b1 = b_model b \<and> length (k_pods (b_kube b1)) = length (k_pods (b_kube b)) \<and>
           (\<forall>r. addressed (k_pods (b_kube b) ! r) (k_pods (b_kube b1) ! r)) \<and> b_errors b \<le> b_errors b1 \<and>
           (b_errors b1 = b_errors b \<longrightarrow> (\<forall>i < length did. serves (k_pods (b_kube b1) ! (did ! i)) (svcss ! i)))"
  have "run_each body pods (b\<lparr>b_services := replicate n None\<rparr>) = (Returns (), b1)"
    using assms(1) by (simp add: returns_iff make_services_def)
  then show ?thesis
  proof (rule run_each_Returns [where I = ?I])
    show "?I [] (b\<lparr>b_services := replicate n None\<rparr>)" by simp
  next
    fix did x todo b2 b3
    assume pods: "pods = did @ x # todo" and "?I did b2" and x: "body x b2 = (Returns (), b3)"
    then obtain svcss where
      inv: "b_services b2 = replicate n None @ map Some (concat svcss)" "length svcss = length did"
        "b_model b2 = b_model b" "length (k_pods (b_kube b2)) = length (k_pods (b_kube b))"
        "\<forall>r. addressed (k_pods (b_kube b) ! r) (k_pods (b_kube b2) ! r)" "b_errors b \<le> b_errors b2"
        "b_errors b2 = b_errors b \<longrightarrow> (\<forall>i < length did. serves (k_pods (b_kube b2) ! (did ! i)) (svcss ! i))"
      by (elim exE conjE) (rule that)
    have "x < length (k_pods (b_kube b))" "x \<notin> set did" using assms(2,3) by (simp_all add: pods)
    from body_step [OF inv x this] obtain svcs where
      "b_services b3 = replicate n None @ map Some (concat (svcss @ [svcs])) \<and> b_model b3 = b_model b \<and>
      length (k_pods (b_kube b3)) = length (k_pods (b_kube b)) \<and>
      (\<forall>r. addressed (k_pods (b_kube b) ! r) (k_pods (b_kube b3) ! r)) \<and> b_errors b \<le> b_errors b3 \<and>
      (b_errors b3 = b_errors b \<longrightarrow>
         (\<forall>i < length (did @ [x]). serves (k_pods (b_kube b3) ! ((did @ [x]) ! i)) ((svcss @ [svcs]) ! i)))" ..
    then show "?I (did @ [x]) b3" using inv(2) by (intro exI [of _ "svcss @ [svcs]"]) simp
  qed
qed

text \<open>The assessment after a setup that recorded no error.\<close>

lemma setup_verdict:
  assumes E: "order_law E" "steady E ans"
    and run: "run_bind (make_services n) (\<lambda>_. run_each body pods) b = (Returns (), b1)" "b_errors b1 = b_errors b"
    and pods: "AllPods (b_model b) = (pods, m1)" "pods_ready (k_pods (b_kube b)) pods"
      "\<forall>r \<in> set pods. r < length (k_pods (b_kube b))"
  shows "(\<exists>b2. run_bind (judge_all E PF pods toPort st ProtocolTCP) (\<lambda>_. judge_all E PF pods toPort st ProtocolUDP) b1 =
              (Returns (), b2) \<and>
            b_errors b2 = b_errors b +
              of_bool (unreachable ans (k_pods (b_kube b1)) (b_model b) pods toPort st ProtocolTCP) +
              of_bool (unreachable ans (k_pods (b_kube b1)) (b_model b) pods toPort st ProtocolUDP)) \<and>
         (\<forall>r \<in> set pods. \<exists>svcs. Some ` set svcs \<subseteq> set (b_services b1) \<and> serves (k_pods (b_kube b1) ! r) svcs)"
proof -
  have d: "distinct pods" using pods(2) by (auto simp: pods_ready_def pod_names_def distinct_map)
  from setup_serves [OF run(1) d pods(3)] run(2) obtain svcss where
    b1: "b_services b1 = replicate n None @ map Some (concat svcss)" "length svcss = length pods" "b_model b1 = b_model b"
      "\<forall>r. addressed (k_pods (b_kube b) ! r) (k_pods (b_kube b1) ! r)"
      "\<forall>i < length pods. serves (k_pods (b_kube b1) ! (pods ! i)) (svcss ! i)" by auto
  have "AllPods (b_model b1) = (pods, m1)" "pods_ready (k_pods (b_kube b1)) pods"
    using pods(1,2) b1(3) pods_ready_addressed [OF b1(4)] by simp_all
  from judge_both_steady [OF E this, of PF toPort st] b1(3) run(2) have
    "\<exists>b2. run_bind (judge_all E PF pods toPort st ProtocolTCP) (\<lambda>_. judge_all E PF pods toPort st ProtocolUDP) b1 =
              (Returns (), b2) \<and>
            b_errors b2 = b_errors b +
              of_bool (unreachable ans (k_pods (b_kube b1)) (b_model b) pods toPort st ProtocolTCP) +
              of_bool (unreachable ans (k_pods (b_kube b1)) (b_model b) pods toPort st ProtocolUDP)" by auto
  moreover have "\<exists>svcs. Some ` set svcs \<subseteq> set (b_services b1) \<and> serves (k_pods (b_kube b1) ! r) svcs"
    if r: "r \<in> set pods" for r
  proof -
    obtain i where i: "i < length pods" "r = pods ! i" using r by (metis in_set_conv_nth)
    then have "svcss ! i \<in> set svcss" using b1(2) by simp
    then have "set (svcss ! i) \<subseteq> set (concat svcss)" by auto
    then show ?thesis using i b1(5) by (intro exI [of _ "svcss ! i"]) (auto simp: b1(1))
  qed
  ultimately show ?thesis by blast
qed

end

section \<open>The three features\<close>

text \<open>The service is one of the pod: numbered under its name, in its namespace, selecting it by its label.\<close>

definition selects :: "string \<Rightarrow> pod \<Rightarrow> service \<Rightarrow> bool" where
  "selects kind p svc \<longleftrightarrow>
     ksType (s_service svc) = kind \<and> ksNamespace (s_service svc) = p_Namespace p \<and>
     ksSelector (s_service svc) ''pod'' = Some (p_Name p) \<and>
     (\<exists>n. ksName (s_service svc) = ServiceName p @ ''-'' @ Itoa n)"

lemma selects_addressed: "addressed p q \<Longrightarrow> selects kind p svc \<Longrightarrow> selects kind q svc"
  by (simp add: selects_def addressed_sel ServiceName_def)

lemma service_with_ports_pod:
  assumes "service_with_ports E p (\<lambda>s. upd s) protocol sid w = Inr ((svc, q), sid1, w1)"
    and "\<And>s. ksType (upd s) = kind \<and> ksNamespace (upd s) = ksNamespace s \<and> ksSelector (upd s) = ksSelector s \<and>
           ksName (upd s) = ksName s"
  shows "addressed p q" and "selects kind p (Kube_NewService svc)"
proof -
  obtain s q' t where n: "NewService p sid = Inr ((s, q'), t)" using NewService_total by (metis surj_pair)
  with assms(1) have q: "q' = q" and svc: "\<exists>ports. svc = (upd s)\<lparr>ksPorts := ports\<rparr>"
    by (auto simp: service_with_ports_def split: prod.splits)
  have "\<exists>ls. q = p\<lparr>p_Labels := ls\<rparr>"
    using n q by (auto simp: NewService_def SvcID_after_increase LabelSelector_def Let_def split: prod.splits option.splits)
  then show "addressed p q" using addressed_updates(1) by auto
  show "selects kind p (Kube_NewService svc)"
    using svc assms(2) NewService_name(1,3,4) [OF n] by (auto simp: selects_def Kube_NewService_def)
qed

text \<open>What the single steps of a body do to the pods, the services, the model and the errors.\<close>

lemma ex_unit: "(\<exists>x :: unit. P x) = P ()"
  by auto

definition board_view :: "'w board \<Rightarrow> pod_store \<times> service option list \<times> model \<times> nat" where
  "board_view b = (k_pods (b_kube b), b_services b, b_model b, b_errors b)"

lemma step_views:
  "on_world h b = (Returns x, b1) \<Longrightarrow> board_view b1 = board_view b"
  "on_watch v b = (Returns y, b1) \<Longrightarrow> board_view b1 = board_view b \<and> (\<exists>w w1. v w = Some (Inr y, w1))"
  "error_if c b = (Returns (), b1) \<Longrightarrow>
     board_view b1 = (k_pods (b_kube b), b_services b, b_model b, b_errors b + of_bool c)"
  "set_pod r u b = (Returns (), b1) \<Longrightarrow>
     board_view b1 = ((k_pods (b_kube b))[r := u (k_pods (b_kube b) ! r)], b_services b, b_model b, b_errors b)"
  "append_service svc b = (Returns (), b1) \<Longrightarrow>
     board_view b1 = (k_pods (b_kube b), b_services b @ [Some svc], b_model b, b_errors b)"
  by (auto simp: board_view_def returns_iff update_pod_def append_service_def)

text \<open>The cluster each step leaves to the next.\<close>

abbreviation world :: "'w board \<Rightarrow> 'w" where
  "world b \<equiv> k_world (b_kube b)"

lemma step_worlds:
  "on_world h b = (Returns x, b1) \<Longrightarrow> h (world b) = (x, world b1)"
  "on_watch v b = (Returns y, b1) \<Longrightarrow> v (world b) = Some (Inr y, world b1)"
  "error_if c b = (Returns (), b1) \<Longrightarrow> world b1 = world b"
  by (auto simp: returns_iff)

lemma new_service_view:
  assumes "new_service spec r b = (Returns svc, b1)"
  shows "\<exists>s p sid sid1. spec (k_pods (b_kube b) ! r) sid (world b) = Inr ((s, p), sid1, world b1) \<and> svc = Kube_NewService s \<and>
           board_view b1 = ((k_pods (b_kube b))[r := p], b_services b, b_model b, b_errors b)"
  using assms by (fastforce simp: board_view_def new_service_def returns_iff go_bind_eq_Inr_iff split: prod.splits)

subsection \<open>NodePort\<close>

text \<open>
  The pod carries the port that the wait returned for its service, which is 0 when the watch fell
  silent before it showed one.
\<close>

definition delivers_node_port :: "('w, 'z) client_scheme \<Rightarrow> service \<Rightarrow> int32 \<Rightarrow> bool" where
  "delivers_node_port E svc port \<longleftrightarrow>
     (\<exists>obj w w1 w2 w3. s_Create E svc w = ((obj, None), w1) \<and> WaitForEndpoint E svc w1 = Some (Inr (True, None), w2) \<and>
        WaitForNodePort E svc w2 = Some (Inr (port, None), w3))"

definition serves_node_port :: "('w, 'z) client_scheme \<Rightarrow> pod \<Rightarrow> service list \<Rightarrow> bool" where
  "serves_node_port E p svcs \<longleftrightarrow>
     (\<exists>svc. svcs = [svc] \<and> selects ''NodePort'' p svc \<and> delivers_node_port E svc (p_ToPort p))"

lemma node_port_pod_returns:
  assumes "node_port_pod E r b = (Returns (), b1)" and r: "r < length (k_pods (b_kube b))"
  shows "\<exists>svcs q. k_pods (b_kube b1) = (k_pods (b_kube b))[r := q] \<and> addressed (k_pods (b_kube b) ! r) q \<and>
           b_services b1 = b_services b @ map Some svcs \<and> b_model b1 = b_model b \<and>
           b_errors b \<le> b_errors b1 \<and> (b_errors b1 = b_errors b \<longrightarrow> serves_node_port E q svcs)"
proof -
  let ?h = "k_pods (b_kube b)"
  obtain s p1 sid w1 obj e1 w2 res e2 w3 port e3 w4 n where
    s: "NodePortService E (?h ! r) (b_sid b) (k_world (b_kube b)) = Inr ((s, p1), sid, w1)" and
    create: "s_Create E (Kube_NewService s) w1 = ((obj, e1), w2)" and
    endpoint: "WaitForEndpoint E (Kube_NewService s) w2 = Some (Inr (res, e2), w3)" and
    port: "WaitForNodePort E (Kube_NewService s) w3 = Some (Inr (port, e3), w4)" and
    b1: "k_pods (b_kube b1) = ?h[r := SetToPort port p1]"
      "b_services b1 = b_services b @ [Some (Kube_NewService s)]" "b_model b1 = b_model b"
      "b_errors b1 = b_errors b + n" "n = 0 \<longrightarrow> e1 = None \<and> res \<and> e2 = None \<and> e3 = None"
    using assms(1)
    unfolding node_port_pod_def returns_iff new_service_def go_bind_eq_Inr_iff append_service_def update_pod_def split_paired_Ex
    apply (clarsimp simp: returns_iff go_bind_eq_Inr_iff)
    apply (rule that)
         apply assumption+
    using r by (simp_all add: update_pod_def) (simp add: max_nat_0)
  note pod = service_with_ports_pod [OF s [unfolded NodePortService_def], of "''NodePort''"]
  have a: "addressed (?h ! r) (SetToPort port p1)" using pod(1) addressed_updates(3) addressed_trans by auto
  have "serves_node_port E (SetToPort port p1) [Kube_NewService s]" if "n = 0"
  proof -
    have "delivers_node_port E (Kube_NewService s) port"
      using that b1(5) create endpoint port unfolding delivers_node_port_def by (metis (full_types))
    then show ?thesis using selects_addressed [OF a pod(2)] by (auto simp: serves_node_port_def SetToPort_def)
  qed
  with b1 a show ?thesis
    by (intro exI [of _ "[Kube_NewService s]"] exI [of _ "SetToPort port p1"]) simp
qed

interpretation node_port: pod_services "node_port_pod E" "serves_node_port E" for E
  by unfold_locales (rule node_port_pod_returns)

subsection \<open>LoadBalancer\<close>

text \<open>
  A service for each protocol, the second one built once the first has been created, and each waited for
  in turn; the pod carries the addresses of both, at least one, and port 80.
\<close>

definition external_ip_calls ::
  "('w, 'z) client_scheme \<Rightarrow> service \<Rightarrow> service \<Rightarrow> err list \<Rightarrow> bool \<Rightarrow> string list \<Rightarrow> string list \<Rightarrow> bool" where
  "external_ip_calls E tcp udp es endpoints ipsTCP ipsUDP \<longleftrightarrow>
     (\<exists>obj obj' p p' s sid sid1 w w1 w2 w3 w4 w5 w6 w7 e1 e2 y1 e3 y2 e4 e5 e6.
        s_Create E tcp w = ((obj, e1), w1) \<and>
        LoadBalancerServiceByProtocol E p ProtocolUDP sid w1 = Inr ((s, p'), sid1, w2) \<and> udp = Kube_NewService s \<and>
        s_Create E udp w2 = ((obj', e2), w3) \<and>
        WaitForEndpoint E tcp w3 = Some (Inr (y1, e3), w4) \<and> WaitForEndpoint E udp w4 = Some (Inr (y2, e4), w5) \<and>
        WaitForExternalIP E tcp w5 = Some (Inr (ipsTCP, e5), w6) \<and>
        WaitForExternalIP E udp w6 = Some (Inr (ipsUDP, e6), w7) \<and>
        es = [e1, e2, e3, e4, e5, e6] \<and> endpoints = (y1 \<and> y2))"

definition delivers_external_ips ::
  "('w, 'z) client_scheme \<Rightarrow> service \<Rightarrow> service \<Rightarrow> string list \<Rightarrow> string list \<Rightarrow> bool" where
  "delivers_external_ips E tcp udp ipsTCP ipsUDP \<longleftrightarrow>
     external_ip_calls E tcp udp [None, None, None, None, None, None] True ipsTCP ipsUDP"

definition serves_load_balancer :: "('w, 'z) client_scheme \<Rightarrow> pod \<Rightarrow> service list \<Rightarrow> bool" where
  "serves_load_balancer E p svcs \<longleftrightarrow>
     (\<exists>tcp udp ipsTCP ipsUDP. svcs = [tcp, udp] \<and>
        selects ''LoadBalancer'' p tcp \<and> selects ''LoadBalancer'' p udp \<and> delivers_external_ips E tcp udp ipsTCP ipsUDP \<and>
        p_ExternalIPs p = NewExternalIPs ipsTCP ProtocolTCP @ NewExternalIPs ipsUDP ProtocolUDP \<and>
        p_ExternalIPs p \<noteq> [] \<and> p_ToPort p = 80)"

lemma load_balancer_pod_calls:
  assumes "load_balancer_pod E r b = (Returns (), b1)" and r: "r < length (k_pods (b_kube b))"
  shows "\<exists>tcp udp es endpoints ipsTCP ipsUDP q.
           k_pods (b_kube b1) = (k_pods (b_kube b))[r := q] \<and> addressed (k_pods (b_kube b) ! r) q \<and>
           b_services b1 = b_services b @ [Some tcp, Some udp] \<and> b_model b1 = b_model b \<and> b_errors b \<le> b_errors b1 \<and>
           external_ip_calls E tcp udp es endpoints ipsTCP ipsUDP \<and>
           (b_errors b1 = b_errors b \<longleftrightarrow> (\<forall>e \<in> set es. e = None) \<and> endpoints \<and> ipsTCP @ ipsUDP \<noteq> []) \<and>
           (b_errors b1 = b_errors b \<longrightarrow> serves_load_balancer E q [tcp, udp])"
proof -
  let ?h = "k_pods (b_kube b)"
  obtain tcp x1 e1 udp x2 e2 y1 e3 y2 e4 ips e ips' e' c1 c2 c3 c4 c5 c6 c7 c8 c9 c10 c11 c12 c13 c14 c15 c16 c17 c18 where
    steps: "new_service (\<lambda>p. LoadBalancerServiceByProtocol E p ProtocolTCP) r b = (Returns tcp, c1)"
      "on_world (s_Create E tcp) c1 = (Returns (x1, e1), c2)" "error_if (e1 \<noteq> None) c2 = (Returns (), c3)"
      "new_service (\<lambda>p. LoadBalancerServiceByProtocol E p ProtocolUDP) r c3 = (Returns udp, c4)"
      "on_world (s_Create E udp) c4 = (Returns (x2, e2), c5)" "error_if (e2 \<noteq> None) c5 = (Returns (), c6)"
      "on_watch (WaitForEndpoint E tcp) c6 = (Returns (y1, e3), c7)" "error_if (e3 \<noteq> None \<or> \<not> y1) c7 = (Returns (), c8)"
      "on_watch (WaitForEndpoint E udp) c8 = (Returns (y2, e4), c9)" "error_if (e4 \<noteq> None \<or> \<not> y2) c9 = (Returns (), c10)"
      "on_watch (WaitForExternalIP E tcp) c10 = (Returns (ips, e), c11)" "error_if (e \<noteq> None) c11 = (Returns (), c12)"
      "on_watch (WaitForExternalIP E udp) c12 = (Returns (ips', e'), c13)" "error_if (e' \<noteq> None) c13 = (Returns (), c14)"
      "error_if (length (NewExternalIPs ips ProtocolTCP @ NewExternalIPs ips' ProtocolUDP) = 0) c14 = (Returns (), c15)"
      "set_pod r (SetToPort 80) c15 = (Returns (), c16)"
      "set_pod r (SetExternalIPs (NewExternalIPs ips ProtocolTCP @ NewExternalIPs ips' ProtocolUDP)) c16 = (Returns (), c17)"
      "append_service tcp c17 = (Returns (), c18)" "append_service udp c18 = (Returns (), b1)"
    using assms(1) unfolding load_balancer_pod_def run_bind_Returns split_paired_Ex ex_unit prod.case Let_def
    by (elim exE conjE) (rule that)
  let ?ips = "NewExternalIPs ips ProtocolTCP @ NewExternalIPs ips' ProtocolUDP"
  note views = step_views(1) [OF steps(2)] step_views(3) [OF steps(3)] step_views(1) [OF steps(5)] step_views(3) [OF steps(6)]
    step_views(2) [OF steps(7)] step_views(3) [OF steps(8)] step_views(2) [OF steps(9)] step_views(3) [OF steps(10)]
    step_views(2) [OF steps(11)] step_views(3) [OF steps(12)] step_views(2) [OF steps(13)] step_views(3) [OF steps(14)]
    step_views(3) [OF steps(15)] step_views(4) [OF steps(16)] step_views(4) [OF steps(17)]
    step_views(5) [OF steps(18)] step_views(5) [OF steps(19)]
  obtain s p1 sid sid1 where
    s: "LoadBalancerServiceByProtocol E (?h ! r) ProtocolTCP sid (world b) = Inr ((s, p1), sid1, world c1)" "tcp = Kube_NewService s" and
    v1: "board_view c1 = (?h[r := p1], b_services b, b_model b, b_errors b)"
    using new_service_view [OF steps(1)] by auto
  have c3: "k_pods (b_kube c3) = ?h[r := p1]" using v1 views(1,2) by (simp add: board_view_def)
  obtain s' p2 sid sid2 where
    s': "LoadBalancerServiceByProtocol E p1 ProtocolUDP sid (world c3) = Inr ((s', p2), sid2, world c4)" "udp = Kube_NewService s'" and
    v4: "board_view c4 = (?h[r := p2], b_services c3, b_model c3, b_errors c3)"
    using new_service_view [OF steps(4)] r by (auto simp: c3)
  let ?q = "SetExternalIPs ?ips (SetToPort 80 p2)"
  note parts = views [unfolded board_view_def prod.inject] v1 [unfolded board_view_def prod.inject] v4 [unfolded board_view_def prod.inject]
  have c14: "k_pods (b_kube c14) = ?h[r := p2]" "b_services c14 = b_services b" "b_model c14 = b_model b"
    by (simp_all only: parts)
  have errors: "b_errors b1 = b_errors b + of_bool (e1 \<noteq> None) + of_bool (e2 \<noteq> None) + of_bool (e3 \<noteq> None \<or> \<not> y1) +
      of_bool (e4 \<noteq> None \<or> \<not> y2) + of_bool (e \<noteq> None) + of_bool (e' \<noteq> None) + of_bool (length ?ips = 0)"
    by (simp only: parts)
  have b1: "k_pods (b_kube b1) = ?h[r := ?q]" "b_services b1 = b_services b @ [Some tcp, Some udp]"
      "b_model b1 = b_model b"
    using r by (simp_all only: parts(13-17) c14 list_update_overwrite nth_list_update_eq length_list_update append.assoc append.simps)
  have sum: "m \<le> n \<and> (n = m \<longleftrightarrow> x1 = 0 \<and> x2 = 0 \<and> x3 = 0 \<and> x4 = 0 \<and> x5 = 0 \<and> x6 = 0 \<and> x7 = 0)"
    if "n = m + x1 + x2 + x3 + x4 + x5 + x6 + x7" for m n x1 x2 x3 x4 x5 x6 x7 :: nat
    using that by auto
  have errs: "b_errors b \<le> b_errors b1" "b_errors b1 = b_errors b \<longleftrightarrow> e1 = None \<and> e2 = None \<and> e3 = None \<and> y1 \<and>
      e4 = None \<and> y2 \<and> e = None \<and> e' = None \<and> ?ips \<noteq> []"
    using sum [OF errors] by (auto simp only: of_bool_eq_0_iff length_0_conv not_not de_Morgan_disj)
  note b1 = b1 errs
  note tcp = service_with_ports_pod [OF s(1) [unfolded LoadBalancerServiceByProtocol_def], of "''LoadBalancer''", folded s(2)]
  note udp = service_with_ports_pod [OF s'(1) [unfolded LoadBalancerServiceByProtocol_def], of "''LoadBalancer''", folded s'(2)]
  have places: "addressed (?h ! r) p1" "addressed p1 p2" by (rule tcp(1) udp(1); simp)+
  have sel: "selects ''LoadBalancer'' (?h ! r) tcp" "selects ''LoadBalancer'' p1 udp" by (rule tcp(2) udp(2); simp)+
  have a: "addressed p1 ?q"
    by (rule addressed_trans [OF places(2) addressed_trans [OF addressed_updates(3) addressed_updates(4)]])
  have a': "addressed (?h ! r) ?q" by (rule addressed_trans [OF places(1) a])
  have worlds: "world c3 = world c2" "world c6 = world c5" "world c8 = world c7" "world c10 = world c9" "world c12 = world c11"
    using step_worlds(3) [OF steps(3)] step_worlds(3) [OF steps(6)] step_worlds(3) [OF steps(8)]
      step_worlds(3) [OF steps(10)] step_worlds(3) [OF steps(12)] by simp_all
  note calls = step_worlds(1) [OF steps(2)] s'(1) step_worlds(1) [OF steps(5)] step_worlds(2) [OF steps(7)]
    step_worlds(2) [OF steps(9)] step_worlds(2) [OF steps(11)] step_worlds(2) [OF steps(13)]
  have made: "external_ip_calls E tcp udp [e1, e2, e3, e4, e, e'] (y1 \<and> y2) ips ips'"
    unfolding external_ip_calls_def by (intro exI conjI) (rule calls [unfolded worlds] s'(2) refl)+
  have "serves_load_balancer E ?q [tcp, udp]" if "b_errors b1 = b_errors b"
  proof -
    have none: "e1 = None" "e2 = None" "e3 = None" "y1 = True" "e4 = None" "y2 = True" "e = None" "e' = None" "?ips \<noteq> []"
      using b1(5) that by simp_all
    have "delivers_external_ips E tcp udp ips ips'"
      using made unfolding delivers_external_ips_def none(1-3,5,7,8) by (simp add: none(4,6))
    then show ?thesis
      using none(9) selects_addressed [OF a' sel(1)] selects_addressed [OF a sel(2)]
      by (auto simp: serves_load_balancer_def SetExternalIPs_def SetToPort_def)
  qed
  moreover have "?ips = [] \<longleftrightarrow> ips @ ips' = []" by (auto simp: NewExternalIPs_def)
  then have "b_errors b1 = b_errors b \<longleftrightarrow> (\<forall>x \<in> set [e1, e2, e3, e4, e, e']. x = None) \<and> (y1 \<and> y2) \<and> ips @ ips' \<noteq> []"
    unfolding errs(2) by auto
  ultimately show ?thesis
    using b1(1-4) a' made
    by (intro exI [of _ tcp] exI [of _ udp] exI [of _ "[e1, e2, e3, e4, e, e']"] exI [of _ "y1 \<and> y2"] exI [of _ ips] exI [of _ ips']
        exI [of _ ?q]) blast
qed

lemma load_balancer_pod_returns:
  assumes "load_balancer_pod E r b = (Returns (), b1)" and r: "r < length (k_pods (b_kube b))"
  shows "\<exists>svcs q. k_pods (b_kube b1) = (k_pods (b_kube b))[r := q] \<and> addressed (k_pods (b_kube b) ! r) q \<and>
           b_services b1 = b_services b @ map Some svcs \<and> b_model b1 = b_model b \<and>
           b_errors b \<le> b_errors b1 \<and> (b_errors b1 = b_errors b \<longrightarrow> serves_load_balancer E q svcs)"
proof -
  obtain tcp udp q where
    "k_pods (b_kube b1) = (k_pods (b_kube b))[r := q]" "addressed (k_pods (b_kube b) ! r) q"
    "b_services b1 = b_services b @ [Some tcp, Some udp]" "b_model b1 = b_model b" "b_errors b \<le> b_errors b1"
    "b_errors b1 = b_errors b \<longrightarrow> serves_load_balancer E q [tcp, udp]"
    using load_balancer_pod_calls [OF assms] by (elim exE conjE) (rule that)
  then show ?thesis by (intro exI [of _ "[tcp, udp]"] exI [of _ q]) simp
qed

interpretation load_balancer: pod_services "load_balancer_pod E" "serves_load_balancer E" for E
  by unfold_locales (rule load_balancer_pod_returns)

subsection \<open>ClusterIP\<close>

definition serves_cluster_ip :: "('w, 'z) client_scheme \<Rightarrow> pod \<Rightarrow> service list \<Rightarrow> bool" where
  "serves_cluster_ip E p svcs \<longleftrightarrow>
     (\<exists>svc. svcs = [svc] \<and> selects ''ClusterIP'' p svc \<and> p_clusterIP p \<noteq> '''' \<and>
        delivers_cluster_ip E svc (p_clusterIP p))"

lemma cluster_ip_pod_serves:
  assumes "cluster_ip_pod E r b = (Returns (), b1)" and r: "r < length (k_pods (b_kube b))"
  shows "\<exists>svcs q. k_pods (b_kube b1) = (k_pods (b_kube b))[r := q] \<and> addressed (k_pods (b_kube b) ! r) q \<and>
           b_services b1 = b_services b @ map Some svcs \<and> b_model b1 = b_model b \<and>
           b_errors b \<le> b_errors b1 \<and> (b_errors b1 = b_errors b \<longrightarrow> serves_cluster_ip E q svcs)"
proof -
  from cluster_ip_pod_returns [OF assms] obtain svc q where
    "k_pods (b_kube b1) = (k_pods (b_kube b))[r := q]" "kept_pod (k_pods (b_kube b) ! r) q"
    "b_services b1 = b_services b @ [Some svc]" "b_model b1 = b_model b" "b_errors b \<le> b_errors b1"
    "b_errors b1 = b_errors b \<longrightarrow> served E q svc"
    "ksName (s_service svc) = ServiceName (k_pods (b_kube b) ! r) @ ''-'' @ Itoa (svc_count (b_sid b1))" by blast
  moreover from this(2) have "ServiceName q = ServiceName (k_pods (b_kube b) ! r)"
    by (simp add: ServiceName_def kept_pod_sel(1,2))
  ultimately show ?thesis
    using kept_pod_addressed
    by (intro exI [of _ "[svc]"] exI [of _ q]) (auto simp: serves_cluster_ip_def served_def selects_def)
qed

interpretation cluster_ip: pod_services "cluster_ip_pod E" "serves_cluster_ip E" for E
  by unfold_locales (rule cluster_ip_pod_serves)

section \<open>The verdicts\<close>

text \<open>The command a probe of an address runs in a pod, and whether it succeeds on a steady cluster.\<close>

definition reaches :: "(commandImpl \<Rightarrow> string \<times> err) \<Rightarrow> pod \<Rightarrow> string \<Rightarrow> int \<Rightarrow> protocol \<Rightarrow> bool" where
  "reaches ans p addr port proto \<longleftrightarrow>
     snd (ans (NewAgnHostClient (p_Namespace p) (p_Name p) (c_Name (hd (p_Containers p))) addr port proto)) = None"

lemma reaches_addressed: "addressed p q \<Longrightarrow> reaches ans q = reaches ans p"
  by (simp add: reaches_def addressed_sel fun_eq_iff)

text \<open>The address of the kind of service, and the port: that of the test case, or the pod's own.\<close>

definition target_address :: "string \<Rightarrow> protocol \<Rightarrow> pod \<Rightarrow> string" where
  "target_address kind proto p =
     (if kind = ClusterIP then p_clusterIP p
      else if kind = NodePort then p_HostIP p
      else (case GetExternalIPsByProtocol p proto of [] \<Rightarrow> '''' | ip # _ \<Rightarrow> eip_IP ip))"

definition target_port :: "int \<Rightarrow> pod \<Rightarrow> int" where
  "target_port toPort p = (if toPort = 0 then sint (p_ToPort p) else toPort)"

text \<open>Every pod of the list reaches every one at its address of the kind of service.\<close>

definition all_reach ::
  "(commandImpl \<Rightarrow> string \<times> err) \<Rightarrow> pod_store \<Rightarrow> pod_ref list \<Rightarrow> int \<Rightarrow> string \<Rightarrow> protocol \<Rightarrow> bool" where
  "all_reach ans h pods toPort kind proto \<longleftrightarrow>
     (\<forall>f \<in> set pods. \<forall>t \<in> set pods. reaches ans (h ! f) (target_address kind proto (h ! t)) (target_port toPort (h ! t)) proto)"

lemma unreachable_iff:
  assumes "kind \<in> {ClusterIP, NodePort, LoadBalancer}" and "proto \<in> {ProtocolTCP, ProtocolUDP}"
    and "\<forall>r \<in> set pods. \<not> p_SkipProbe (h ! r)"
  shows "unreachable ans h m pods toPort kind proto \<longleftrightarrow> \<not> all_reach ans h pods toPort kind proto"
proof -
  have "probe_address (make_job h m \<lparr>tc_ToPort = toPort, tc_Protocol = proto, tc_Reachability = None,
      tc_ServiceType = kind\<rparr> False False f t) p = target_address kind proto p" for f t p
    using assms(1,2) by (auto simp: probe_address_def make_job_def pj_GetServiceType_def target_address_def pod_accessors)
  then have "answer ans h (make_job h m \<lparr>tc_ToPort = toPort, tc_Protocol = proto, tc_Reachability = None,
      tc_ServiceType = kind\<rparr> False False f t) \<longleftrightarrow>
      reaches ans (h ! f) (target_address kind proto (h ! t)) (target_port toPort (h ! t)) proto"
    if "t \<in> set pods" for f t
    using assms(3) that
    by (simp add: answer_def Let_def reaches_def target_port_def GetToPort_def) (simp add: make_job_def GetToPort_def)
  then show ?thesis by (simp add: unreachable_def all_reach_def)
qed

context pod_services
begin

lemma setup_verdict_reaches:
  assumes E: "order_law E" "steady E ans"
    and run: "run_bind (make_services n) (\<lambda>_. run_each body pods) b = (Returns (), b1)" "b_errors b1 = b_errors b"
    and pods: "AllPods (b_model b) = (pods, m1)" "pods_ready (k_pods (b_kube b)) pods"
      "\<forall>r \<in> set pods. r < length (k_pods (b_kube b)) \<and> \<not> p_SkipProbe (k_pods (b_kube b) ! r)"
    and kind: "kind \<in> {ClusterIP, NodePort, LoadBalancer}"
  shows "(\<exists>b2. run_bind (judge_all E PF pods toPort kind ProtocolTCP) (\<lambda>_. judge_all E PF pods toPort kind ProtocolUDP) b1 =
              (Returns (), b2) \<and>
            b_errors b2 = b_errors b + of_bool (\<not> all_reach ans (k_pods (b_kube b1)) pods toPort kind ProtocolTCP) +
              of_bool (\<not> all_reach ans (k_pods (b_kube b1)) pods toPort kind ProtocolUDP)) \<and>
         (\<forall>r \<in> set pods. \<exists>svcs. Some ` set svcs \<subseteq> set (b_services b1) \<and> serves (k_pods (b_kube b1) ! r) svcs)"
proof -
  have d: "distinct pods" using pods(2) by (auto simp: pods_ready_def pod_names_def distinct_map)
  from setup_serves [OF run(1) d] pods(3) have "\<forall>r. addressed (k_pods (b_kube b) ! r) (k_pods (b_kube b1) ! r)" by blast
  then have skip: "\<forall>r \<in> set pods. \<not> p_SkipProbe (k_pods (b_kube b1) ! r)" using pods(3) addressed_sel(6) by blast
  have range: "\<forall>r \<in> set pods. r < length (k_pods (b_kube b))" using pods(3) by blast
  show ?thesis
    using setup_verdict [OF E run pods(1,2) range, of PF toPort kind] unreachable_iff [OF kind _ skip] by simp
qed

end

section \<open>A feature from its setup to its cleanup\<close>

text \<open>What a feature needs of the board, and what it leaves again: the pods of the model, told apart and probed.\<close>

definition test_ready :: "pod_ref list \<Rightarrow> 'w board \<Rightarrow> bool" where
  "test_ready pods b \<longleftrightarrow>
     fst (AllPods (b_model b)) = pods \<and> pods_ready (k_pods (b_kube b)) pods \<and>
     (\<forall>r \<in> set pods. r < length (k_pods (b_kube b)) \<and> \<not> p_SkipProbe (k_pods (b_kube b) ! r))"

lemma reset_board_rests:
  assumes "reset_board E b = (Returns (), b1)" and "fst (AllPods (b_model b)) = pods" and "pods_ready (k_pods (b_kube b)) pods"
    and "\<forall>r \<in> set pods. r < length (k_pods (b_kube b))"
  shows "test_ready pods b1" and "addressed (k_pods (b_kube b) ! r) (k_pods (b_kube b1) ! r)"
    and "b_errors b1 = b_errors b" and "length (k_pods (b_kube b1)) = length (k_pods (b_kube b))"
proof -
  obtain m1 where a: "AllPods (b_model b) = (pods, m1)" using assms(2) by (metis prod.collapse)
  note ret = reset_board_returns [OF assms(1) a]
  have len: "length (k_pods (b_kube b1)) = length (k_pods (b_kube b))"
  proof -
    have "length (fold (\<lambda>p h. h[p := p_Reset (h ! p)]) ps h) = length h" for ps h by (induction ps arbitrary: h) simp_all
    then show ?thesis
      using assms(1) a by (auto simp: reset_board_def returns_iff ResetTestBoard_def ResetAllPods_def Let_def split: prod.splits if_splits)
  qed
  have at: "addressed (k_pods (b_kube b) ! x) (k_pods (b_kube b1) ! x)" for x
    unfolding ret(4) using addressed_updates(6) by simp
  have skip: "\<not> p_SkipProbe (k_pods (b_kube b1) ! x)" if "x \<in> set pods" for x
    using that assms(4) ret(4) by (simp add: p_Reset_def)
  have "fst (AllPods (b_model b1)) = pods" using AllPods_cached_again [OF a] by (simp add: ret(2))
  moreover have "pods_ready (k_pods (b_kube b1)) pods" using pods_ready_addressed [OF _ assms(3)] at by blast
  ultimately show "test_ready pods b1" using assms(4) skip by (simp add: test_ready_def len)
  show "addressed (k_pods (b_kube b) ! r) (k_pods (b_kube b1) ! r)" by (rule at)
  show "b_errors b1 = b_errors b" by (rule ret(3))
  show "length (k_pods (b_kube b1)) = length (k_pods (b_kube b))" by (rule len)
qed

lemma run_bind_step: "f s = (Returns x, s1) \<Longrightarrow> run_bind f k s = k x s1"
  by (simp add: run_bind_def)

context pod_services
begin

text \<open>
  A feature that returns leaves the board ready for the next one. When it recorded no error, the pods
  had been served while it judged, and all pods reached all.
\<close>

lemma feature_round:
  assumes E: "order_law E" "steady E ans" and ready: "test_ready pods b"
    and run: "run_bind (make_services n) (\<lambda>_. run_each body pods) b = (Returns (), b1)"
      "run_bind (judge_all E PF pods toPort kind ProtocolTCP) (\<lambda>_. judge_all E PF pods toPort kind ProtocolUDP) b1 = (Returns (), b2)"
      "reset_board E b2 = (Returns (), b3)"
    and kind: "kind \<in> {ClusterIP, NodePort, LoadBalancer}"
  shows "test_ready pods b3 \<and> b_errors b \<le> b_errors b3 \<and> (\<forall>r. addressed (k_pods (b_kube b) ! r) (k_pods (b_kube b3) ! r)) \<and>
         b_model b3 = snd (AllPods (b_model b)) \<and> length (k_pods (b_kube b3)) = length (k_pods (b_kube b)) \<and>
         (b_errors b3 = b_errors b \<longrightarrow>
            (\<exists>h. (\<forall>r. addressed (k_pods (b_kube b) ! r) (h ! r)) \<and> (\<forall>r \<in> set pods. \<exists>svcs. serves (h ! r) svcs) \<and>
                 all_reach ans h pods toPort kind ProtocolTCP \<and> all_reach ans h pods toPort kind ProtocolUDP))"
proof -
  let ?h = "k_pods (b_kube b1)"
  have pods: "distinct pods" "\<forall>r \<in> set pods. r < length (k_pods (b_kube b))"
    using ready by (auto simp: test_ready_def pods_ready_def pod_names_def distinct_map)
  from setup_serves [OF run(1) pods] obtain svcss where
    b1: "length svcss = length pods" "b_model b1 = b_model b" "length ?h = length (k_pods (b_kube b))"
      "\<forall>r. addressed (k_pods (b_kube b) ! r) (?h ! r)" "b_errors b \<le> b_errors b1"
      "b_errors b1 = b_errors b \<longrightarrow> (\<forall>i < length pods. serves (?h ! (pods ! i)) (svcss ! i))" by blast
  obtain m1 where a: "AllPods (b_model b1) = (pods, m1)" using ready b1(2) by (metis prod.collapse test_ready_def)
  have pr: "pods_ready ?h pods" using ready pods_ready_addressed [OF b1(4)] by (simp add: test_ready_def)
  have "\<forall>r \<in> set pods. \<not> p_SkipProbe (?h ! r)" using ready b1(4) addressed_sel(6) unfolding test_ready_def by blast
  note reach = unreachable_iff [OF kind _ this, of _ ans]
  from judge_both_steady [OF E a pr, of PF toPort kind] run(2) obtain w where
    b2: "b2 = b1\<lparr>b_model := m1, b_kube := (b_kube b1)\<lparr>k_world := w\<rparr>,
            b_errors := b_errors b1 + of_bool (\<not> all_reach ans ?h pods toPort kind ProtocolTCP) +
              of_bool (\<not> all_reach ans ?h pods toPort kind ProtocolUDP)\<rparr>"
    by (auto simp: reach)
  have "fst (AllPods (b_model b2)) = pods" "pods_ready (k_pods (b_kube b2)) pods" "\<forall>r \<in> set pods. r < length (k_pods (b_kube b2))"
    using AllPods_cached_again [OF a] pr pods(2) b1(3) by (simp_all add: b2)
  note rest = reset_board_rests [OF run(3) this]
  have kept: "addressed (k_pods (b_kube b) ! r) (k_pods (b_kube b3) ! r)" for r
    using rest(2) [of r] b1(4) addressed_trans by (simp add: b2) blast
  have "\<exists>svcs. serves (?h ! r) svcs" if "r \<in> set pods" "b_errors b1 = b_errors b" for r
    using that b1(6) by (metis in_set_conv_nth)
  note serve = this
  have errs: "b_errors b3 = b_errors b1 + of_bool (\<not> all_reach ans ?h pods toPort kind ProtocolTCP) +
      of_bool (\<not> all_reach ans ?h pods toPort kind ProtocolUDP)" using rest(3) by (simp add: b2)
  have model: "b_model b3 = snd (AllPods (b_model b))"
    using reset_board_returns(2) [OF run(3), of pods m1] AllPods_cached_again [OF a] a b1(2) by (simp add: b2)
  have len: "length (k_pods (b_kube b3)) = length (k_pods (b_kube b))" using rest(4) b1(3) by (simp add: b2)
  have le: "b_errors b \<le> b_errors b3" using errs b1(5) by simp
  have clean: "b_errors b1 = b_errors b \<and> all_reach ans ?h pods toPort kind ProtocolTCP \<and>
      all_reach ans ?h pods toPort kind ProtocolUDP" if "b_errors b3 = b_errors b"
    using that errs b1(5) by (simp add: of_bool_def split: if_splits)
  have "\<exists>h. (\<forall>r. addressed (k_pods (b_kube b) ! r) (h ! r)) \<and> (\<forall>r \<in> set pods. \<exists>svcs. serves (h ! r) svcs) \<and>
      all_reach ans h pods toPort kind ProtocolTCP \<and> all_reach ans h pods toPort kind ProtocolUDP"
    if "b_errors b3 = b_errors b"
    using clean [OF that] serve b1(4) by blast
  then show ?thesis using rest(1) le kept model len by blast
qed

text \<open>A setup without errors whose services answer, and a cleanup that returns, make a feature without errors.\<close>

lemma clean_round:
  assumes E: "order_law E" "steady E ans" and ready: "test_ready pods b"
    and run: "run_bind (make_services n) (\<lambda>_. run_each body pods) b = (Returns (), b1)" "b_errors b1 = b_errors b"
    and answers: "\<And>h f t svcs proto. \<forall>r. addressed (k_pods (b_kube b) ! r) (h ! r) \<Longrightarrow> f \<in> set pods \<Longrightarrow> t \<in> set pods \<Longrightarrow>
        proto \<in> {ProtocolTCP, ProtocolUDP} \<Longrightarrow> serves (h ! t) svcs \<Longrightarrow>
        reaches ans (h ! f) (target_address kind proto (h ! t)) (target_port toPort (h ! t)) proto"
    and reset: "\<And>b. \<exists>c. reset_board E b = (Returns (), c)"
    and kind: "kind \<in> {ClusterIP, NodePort, LoadBalancer}"
  shows "\<exists>b3. run_bind (run_bind (make_services n) (\<lambda>_. run_each body pods)) (\<lambda>_.
             run_bind (run_bind (judge_all E PF pods toPort kind ProtocolTCP) (\<lambda>_. judge_all E PF pods toPort kind ProtocolUDP))
               (\<lambda>_. reset_board E)) b = (Returns (), b3) \<and>
           b_errors b3 = b_errors b \<and> test_ready pods b3 \<and>
           (\<forall>r. addressed (k_pods (b_kube b) ! r) (k_pods (b_kube b3) ! r)) \<and>
           b_model b3 = snd (AllPods (b_model b)) \<and> length (k_pods (b_kube b3)) = length (k_pods (b_kube b))"
proof -
  obtain m1 where a: "AllPods (b_model b) = (pods, m1)" using ready by (metis prod.collapse test_ready_def)
  have pods: "distinct pods" "\<forall>r \<in> set pods. r < length (k_pods (b_kube b))" "pods_ready (k_pods (b_kube b)) pods"
    "\<forall>r \<in> set pods. r < length (k_pods (b_kube b)) \<and> \<not> p_SkipProbe (k_pods (b_kube b) ! r)"
    using ready by (auto simp: test_ready_def pods_ready_def pod_names_def distinct_map)
  have kept: "\<forall>r. addressed (k_pods (b_kube b) ! r) (k_pods (b_kube b1) ! r)"
    using setup_serves [OF run(1) pods(1,2)] by blast
  note verdict = setup_verdict_reaches [OF E run a pods(3,4) kind, of PF toPort]
  from verdict [THEN conjunct1] obtain b2 where
    b2: "run_bind (judge_all E PF pods toPort kind ProtocolTCP) (\<lambda>_. judge_all E PF pods toPort kind ProtocolUDP) b1 = (Returns (), b2)"
      "b_errors b2 = b_errors b + of_bool (\<not> all_reach ans (k_pods (b_kube b1)) pods toPort kind ProtocolTCP) +
         of_bool (\<not> all_reach ans (k_pods (b_kube b1)) pods toPort kind ProtocolUDP)"
    by (elim exE conjE)
  have serves: "\<forall>r \<in> set pods. \<exists>svcs. serves (k_pods (b_kube b1) ! r) svcs"
  proof (intro ballI)
    fix r assume "r \<in> set pods"
    then obtain svcs where "serves (k_pods (b_kube b1) ! r) svcs" by (rule bspec [OF verdict [THEN conjunct2], THEN exE]) (elim conjE)
    then show "\<exists>svcs. serves (k_pods (b_kube b1) ! r) svcs" by (rule exI)
  qed
  have "all_reach ans (k_pods (b_kube b1)) pods toPort kind proto" if "proto \<in> {ProtocolTCP, ProtocolUDP}" for proto
    unfolding all_reach_def
  proof (intro ballI)
    fix f t assume ft: "f \<in> set pods" "t \<in> set pods"
    with serves obtain svcs where "serves (k_pods (b_kube b1) ! t) svcs" by blast
    with answers [OF kept ft that]
    show "reaches ans (k_pods (b_kube b1) ! f) (target_address kind proto (k_pods (b_kube b1) ! t))
        (target_port toPort (k_pods (b_kube b1) ! t)) proto" .
  qed
  then have "b_errors b2 = b_errors b" using b2(2) by simp
  moreover obtain b3 where b3: "reset_board E b2 = (Returns (), b3)" using reset by blast
  moreover have "b_errors b3 = b_errors b2"
  proof -
    obtain m2 where "AllPods (b_model b2) = (fst (AllPods (b_model b2)), m2)" by (metis prod.collapse)
    from reset_board_returns(3) [OF b3 this] show ?thesis .
  qed
  ultimately have errs: "b_errors b3 = b_errors b" by simp
  have whole: "run_bind (run_bind (make_services n) (\<lambda>_. run_each body pods)) (\<lambda>_.
      run_bind (run_bind (judge_all E PF pods toPort kind ProtocolTCP) (\<lambda>_. judge_all E PF pods toPort kind ProtocolUDP))
        (\<lambda>_. reset_board E)) b = (Returns (), b3)"
    by (subst run_bind_step, rule run(1), subst run_bind_step, rule b2(1), rule b3)
  from feature_round [OF E ready run(1) b2(1) b3 kind] errs whole show ?thesis by blast
qed

end

end
