(* ===== verification/Service_Verdicts.thy ===== *)
theory Service_Verdicts
  imports Service_Features
begin

text \<open>
  The verdicts of the NodePort and the LoadBalancer feature: what their assessments record after a
  setup without errors, and where their probes go.
\<close>

section \<open>NodePort\<close>

text \<open>
  C9. After a setup of the NodePort feature that recorded no error, on a steady cluster whose pods are
  ready, the assessment never panics and never ends the test: it records one error for each protocol on which some
  pod does not reach some pod at the address of that pod's host and the port of the pod. That port is
  what the wait for the pod's own service returned, one port for both protocols.
\<close>

theorem node_port_feature_verdict:
  assumes E: "order_law E" "steady E ans"
    and run: "node_port_setup E pods b = (Returns (), b1)" "b_errors b1 = b_errors b"
    and pods: "AllPods (b_model b) = (pods, m1)" "pods_ready (k_pods (b_kube b)) pods"
      "\<forall>r \<in> set pods. r < length (k_pods (b_kube b)) \<and> \<not> p_SkipProbe (k_pods (b_kube b) ! r)"
  shows "(\<exists>b2. node_port_assess E PF pods b1 = (Returns (), b2) \<and>
            b_errors b2 = b_errors b + of_bool (\<not> all_reach ans (k_pods (b_kube b1)) pods 0 NodePort ProtocolTCP) +
              of_bool (\<not> all_reach ans (k_pods (b_kube b1)) pods 0 NodePort ProtocolUDP)) \<and>
         (\<forall>r \<in> set pods. \<exists>svc port w w1. Some svc \<in> set (b_services b1) \<and>
            selects ''NodePort'' (k_pods (b_kube b1) ! r) svc \<and> WaitForNodePort E svc w = Some (Inr (port, None), w1) \<and>
            target_port 0 (k_pods (b_kube b1) ! r) = sint port \<and>
            (\<forall>proto. target_address NodePort proto (k_pods (b_kube b1) ! r) = p_HostIP (k_pods (b_kube b) ! r)))"
proof -
  note v = node_port.setup_verdict_reaches [OF E run [unfolded node_port_setup_def] pods, of NodePort PF 0, simplified,
      folded node_port_assess_def]
  have d: "distinct pods" using pods(2) by (auto simp: pods_ready_def pod_names_def distinct_map)
  have host: "p_HostIP (k_pods (b_kube b1) ! r) = p_HostIP (k_pods (b_kube b) ! r)" for r
    using node_port.setup_serves [OF run(1) [unfolded node_port_setup_def] d] pods(3) addressed_sel(5) by blast
  have "\<exists>svc port w w1. Some svc \<in> set (b_services b1) \<and>
            selects ''NodePort'' (k_pods (b_kube b1) ! r) svc \<and> WaitForNodePort E svc w = Some (Inr (port, None), w1) \<and>
            target_port 0 (k_pods (b_kube b1) ! r) = sint port \<and>
            (\<forall>proto. target_address NodePort proto (k_pods (b_kube b1) ! r) = p_HostIP (k_pods (b_kube b) ! r))"
    if r: "r \<in> set pods" for r
  proof -
    obtain svc w w1 where "Some svc \<in> set (b_services b1)" "selects ''NodePort'' (k_pods (b_kube b1) ! r) svc"
        "WaitForNodePort E svc w = Some (Inr (p_ToPort (k_pods (b_kube b1) ! r), None), w1)"
      using v r by (fastforce simp: serves_node_port_def delivers_node_port_def)
    then show ?thesis
      by (intro exI [of _ svc] exI [of _ "p_ToPort (k_pods (b_kube b1) ! r)"] exI [of _ w] exI [of _ w1])
        (simp add: target_port_def target_address_def host)
  qed
  with v show ?thesis by blast
qed

text \<open>A cluster on which the setup returns: as that of the ClusterIP feature, with a node port.\<close>

definition node_client :: "nat client" where
  "node_client = live_client\<lparr>watchNext := \<lambda>ch w.
     (WatchEvent (if ch = 0 then WService (demo_service\<lparr>ksName := ''s-x-a-1'',
                    ksPorts := [\<lparr>spName = '''', spProtocol = ProtocolTCP, spPort = 80, spNodePort = 30001\<rparr>]\<rparr>)
                  else WEndpoints \<lparr>keName = ''s-1'', keSubsets = [\<lparr>suAddresses = [''10.0.0.1''], suNotReady = []\<rparr>]\<rparr>), w)\<rparr>"

lemma live_all_reach: "all_reach (\<lambda>_. ('''', None)) h pods toPort kind proto"
  by (simp add: all_reach_def reaches_def)

lemma serving_board_facts:
  "AllPods (b_model serving_board) = ([0], serving_model)" "pods_ready (k_pods (b_kube serving_board)) [0]"
  "\<forall>r \<in> set [0]. r < length (k_pods (b_kube serving_board)) \<and> \<not> p_SkipProbe (k_pods (b_kube serving_board) ! r)"
  "b_errors serving_board = 0"
  by (simp_all add: serving_board_def serving_model_def AllPods_def demo_board_def demo_store_def demo_board_pod_def
      new_pod_def pods_ready_def has_named_container_def pod_names_def)

lemma node_watches:
  "watch_loop node_client endpoint_handle f (Suc 0) () w = Some (Inr (True, None), w)"
  "watch_loop node_client (nodeport_handle ''s-x-a-1'') g 0 0 w = Some (Inr (30001, None), w)"
  by (subst watch_loop.simps, simp add: node_client_def endpoint_handle_def subset_ready_def nodeport_handle_def
        demo_service_def zero_service_def)+

lemma node_client_calls:
  "servicesWatch node_client ns w = ((Some 0, None), w)" "endpointsWatch node_client ns w = ((Some 1, None), w)"
  "servicesCreate node_client ns s w = ((s, None), w)" "goOrder node_client n w = (rev [0..<n], w)"
  by (simp_all add: node_client_def live_client_def demo_client_def)

lemma node_laws: "order_law node_client" "steady node_client (\<lambda>_. ('''', None))"
  by (rule live_like_laws; simp add: node_client_def)+

lemma node_setup: "\<exists>b1. node_port_setup node_client [0] serving_board = (Returns (), b1) \<and> b_errors b1 = 0"
  by (simp add: node_port_setup_def node_port_pod_def make_services_def append_service_def run_bind_def new_service_def
      NodePortService_def WaitForNodePort_def step_defs serving_eval node_client_calls node_watches)

theorem node_port_feature_verdict_witness:
  "\<exists>b1 b2. node_port_setup node_client [0] serving_board = (Returns (), b1) \<and>
     node_port_assess node_client (\<lambda>_. (Fin 0, None)) [0] b1 = (Returns (), b2) \<and> b_errors b2 = 0"
proof -
  obtain b1 where b1: "node_port_setup node_client [0] serving_board = (Returns (), b1)" "b_errors b1 = 0"
    using node_setup by blast
  then have "b_errors b1 = b_errors serving_board" by (simp add: serving_board_facts)
  from node_port_feature_verdict [OF node_laws b1(1) this serving_board_facts(1-3)] b1
  show ?thesis using live_all_reach serving_board_facts(4) by fastforce
qed

section \<open>LoadBalancer\<close>

definition first_or_empty :: "string list \<Rightarrow> string" where
  "first_or_empty ips = (case ips of [] \<Rightarrow> '''' | ip # _ \<Rightarrow> ip)"

lemma serves_load_balancer_targets:
  assumes "p_ExternalIPs p = NewExternalIPs ipsTCP ProtocolTCP @ NewExternalIPs ipsUDP ProtocolUDP"
  shows "target_address LoadBalancer ProtocolTCP p = first_or_empty ipsTCP"
    and "target_address LoadBalancer ProtocolUDP p = first_or_empty ipsUDP"
  by (cases ipsTCP; cases ipsUDP; simp add: target_address_def GetExternalIPsByProtocol_def assms NewExternalIPs_def
      NewExternalIP_def first_or_empty_def filter_map comp_def)+

text \<open>
  C10. After a setup of the LoadBalancer feature that recorded no error, on a steady cluster whose pods
  are ready, the assessment never panics and never ends the test: it records one error for each protocol on which
  some pod does not reach some pod at port 80 of that pod's address for the protocol. That address is
  the first one the wait for the pod's service of the protocol returned; where it returned none it is
  the empty address, and at least one of the two waits has returned an address. For each pod the setup
  records no error exactly when the two creations, the two waits for an endpoint, both successful, and the two
  waits for addresses came without one and an address was returned for either protocol.
\<close>

theorem load_balancer_feature_verdict:
  assumes E: "order_law E" "steady E ans"
    and run: "load_balancer_setup E pods b = (Returns (), b1)" "b_errors b1 = b_errors b"
    and pods: "AllPods (b_model b) = (pods, m1)" "pods_ready (k_pods (b_kube b)) pods"
      "\<forall>r \<in> set pods. r < length (k_pods (b_kube b)) \<and> \<not> p_SkipProbe (k_pods (b_kube b) ! r)"
  shows "(\<exists>b2. load_balancer_assess E PF pods b1 = (Returns (), b2) \<and>
            b_errors b2 = b_errors b + of_bool (\<not> all_reach ans (k_pods (b_kube b1)) pods 0 LoadBalancer ProtocolTCP) +
              of_bool (\<not> all_reach ans (k_pods (b_kube b1)) pods 0 LoadBalancer ProtocolUDP)) \<and>
         (\<forall>r \<in> set pods. \<exists>tcp udp ipsTCP ipsUDP w w1 w2 w3. {Some tcp, Some udp} \<subseteq> set (b_services b1) \<and>
            selects ''LoadBalancer'' (k_pods (b_kube b1) ! r) tcp \<and> selects ''LoadBalancer'' (k_pods (b_kube b1) ! r) udp \<and>
            WaitForExternalIP E tcp w = Some (Inr (ipsTCP, None), w1) \<and>
            WaitForExternalIP E udp w2 = Some (Inr (ipsUDP, None), w3) \<and> ipsTCP @ ipsUDP \<noteq> [] \<and>
            target_port 0 (k_pods (b_kube b1) ! r) = 80 \<and>
            target_address LoadBalancer ProtocolTCP (k_pods (b_kube b1) ! r) = first_or_empty ipsTCP \<and>
            target_address LoadBalancer ProtocolUDP (k_pods (b_kube b1) ! r) = first_or_empty ipsUDP) \<and>
         (\<forall>r c c1. load_balancer_pod E r c = (Returns (), c1) \<longrightarrow> r < length (k_pods (b_kube c)) \<longrightarrow>
            (\<exists>tcp udp es endpoints ipsTCP ipsUDP. b_services c1 = b_services c @ [Some tcp, Some udp] \<and>
               external_ip_calls E tcp udp es endpoints ipsTCP ipsUDP \<and>
               (b_errors c1 = b_errors c \<longleftrightarrow> (\<forall>e \<in> set es. e = None) \<and> endpoints \<and> ipsTCP @ ipsUDP \<noteq> [])))"
proof -
  note v = load_balancer.setup_verdict_reaches [OF E run [unfolded load_balancer_setup_def] pods, of LoadBalancer PF 0,
      simplified, folded load_balancer_assess_def]
  show ?thesis
  proof (intro conjI ballI conjunct1 [OF v])
    fix r assume r: "r \<in> set pods"
    let ?p = "k_pods (b_kube b1) ! r"
    obtain svcs where made: "Some ` set svcs \<subseteq> set (b_services b1)" and
      serves: "serves_load_balancer E ?p svcs" using bspec [OF conjunct2 [OF v] r] by (elim exE conjE) (rule that)
    obtain tcp udp ipsTCP ipsUDP where svcs: "svcs = [tcp, udp]" and sel:
        "selects ''LoadBalancer'' ?p tcp" "selects ''LoadBalancer'' ?p udp" and ips: "delivers_external_ips E tcp udp ipsTCP ipsUDP"
      and s: "p_ExternalIPs ?p = NewExternalIPs ipsTCP ProtocolTCP @ NewExternalIPs ipsUDP ProtocolUDP"
        "p_ExternalIPs ?p \<noteq> []" "p_ToPort ?p = 80"
      using serves unfolding serves_load_balancer_def by (elim exE conjE) (rule that)
    obtain w w1 w2 w3 where waits: "WaitForExternalIP E tcp w = Some (Inr (ipsTCP, None), w1)"
        "WaitForExternalIP E udp w2 = Some (Inr (ipsUDP, None), w3)"
      using ips unfolding delivers_external_ips_def external_ip_calls_def by auto
    have made: "{Some tcp, Some udp} \<subseteq> set (b_services b1)" using made svcs by simp
    have some: "ipsTCP @ ipsUDP \<noteq> []" using s(1,2) by (auto simp: NewExternalIPs_def)
    have port: "target_port 0 ?p = 80" by (simp add: target_port_def s(3))
    note targets = serves_load_balancer_targets [OF s(1)]
    show "\<exists>tcp udp ipsTCP ipsUDP w w1 w2 w3. {Some tcp, Some udp} \<subseteq> set (b_services b1) \<and>
            selects ''LoadBalancer'' ?p tcp \<and> selects ''LoadBalancer'' ?p udp \<and>
            WaitForExternalIP E tcp w = Some (Inr (ipsTCP, None), w1) \<and>
            WaitForExternalIP E udp w2 = Some (Inr (ipsUDP, None), w3) \<and> ipsTCP @ ipsUDP \<noteq> [] \<and>
            target_port 0 ?p = 80 \<and>
            target_address LoadBalancer ProtocolTCP ?p = first_or_empty ipsTCP \<and>
            target_address LoadBalancer ProtocolUDP ?p = first_or_empty ipsUDP"
      by (intro exI conjI) (rule made sel waits some port targets)+
  next
    show "\<forall>r c c1. load_balancer_pod E r c = (Returns (), c1) \<longrightarrow> r < length (k_pods (b_kube c)) \<longrightarrow>
            (\<exists>tcp udp es endpoints ipsTCP ipsUDP. b_services c1 = b_services c @ [Some tcp, Some udp] \<and>
               external_ip_calls E tcp udp es endpoints ipsTCP ipsUDP \<and>
               (b_errors c1 = b_errors c \<longleftrightarrow> (\<forall>e \<in> set es. e = None) \<and> endpoints \<and> ipsTCP @ ipsUDP \<noteq> []))"
      using load_balancer_pod_calls [of E] by meson
  qed
qed

text \<open>Each watch shows the service with its address once, and falls silent.\<close>

definition balancer_client :: "nat client" where
  "balancer_client = live_client\<lparr>watchNext := \<lambda>ch w.
     if ch = 1 then
       (WatchEvent (WEndpoints \<lparr>keName = ''s-1'', keSubsets = [\<lparr>suAddresses = [''10.0.0.1''], suNotReady = []\<rparr>]\<rparr>), w)
     else if w = 1 \<or> w = 3 then (WatchTimeout, w + 1)
     else (WatchEvent (WService (demo_service\<lparr>ksName := (if w = 0 then ''s-x-a-1'' else ''s-x-a-2''),
                                            ksIngress := [''1.2.3.4'']\<rparr>)), w + 1)\<rparr>"

lemma balancer_calls:
  "servicesWatch balancer_client ns w = ((Some 0, None), w)" "endpointsWatch balancer_client ns w = ((Some 1, None), w)"
  "servicesCreate balancer_client ns s w = ((s, None), w)" "goOrder balancer_client n w = (rev [0..<n], w)"
  by (simp_all add: balancer_client_def live_client_def demo_client_def)

lemma balancer_laws: "order_law balancer_client" "steady balancer_client (\<lambda>_. ('''', None))"
  by (rule live_like_laws; simp add: balancer_client_def)+

lemma balancer_events:
  "watchNext balancer_client (Suc 0) w =
     (WatchEvent (WEndpoints \<lparr>keName = ''s-1'', keSubsets = [\<lparr>suAddresses = [''10.0.0.1''], suNotReady = []\<rparr>]\<rparr>), w)"
  "watchNext balancer_client 0 0 = (WatchEvent (WService (demo_service\<lparr>ksName := ''s-x-a-1'', ksIngress := [''1.2.3.4'']\<rparr>)), 1)"
  "watchNext balancer_client 0 1 = (WatchTimeout, 2)"
  "watchNext balancer_client 0 2 = (WatchEvent (WService (demo_service\<lparr>ksName := ''s-x-a-2'', ksIngress := [''1.2.3.4'']\<rparr>)), 3)"
  "watchNext balancer_client 0 3 = (WatchTimeout, 4)"
  by (simp_all add: balancer_client_def)

lemma balancer_watches:
  "watch_loop balancer_client endpoint_handle f (Suc 0) () w = Some (Inr (True, None), w)"
  "watch_loop balancer_client (externalip_handle ''s-x-a-1'') g 0 [] 0 = Some (Inr (g [''1.2.3.4'']), 2)"
  "watch_loop balancer_client (externalip_handle ''s-x-a-2'') g 0 [] 2 = Some (Inr (g [''1.2.3.4'']), 4)"
proof -
  have once: "watch_loop E (externalip_handle name) g ch [] w0 = Some (Inr (g (ksIngress svc)), w2)"
    if "watchNext E ch w0 = (WatchEvent (WService svc), w1)" "watchNext E ch w1 = (WatchTimeout, w2)" "ksName svc = name"
    for E :: "nat client" and name g ch w0 w1 w2 svc
    by (subst watch_loop.simps, subst watch_loop.simps) (simp add: that externalip_handle_def)
  show "watch_loop balancer_client endpoint_handle f (Suc 0) () w = Some (Inr (True, None), w)"
    by (subst watch_loop.simps) (simp add: balancer_events endpoint_handle_def subset_ready_def)
  show "watch_loop balancer_client (externalip_handle ''s-x-a-1'') g 0 [] 0 = Some (Inr (g [''1.2.3.4'']), 2)"
    using once [OF balancer_events(2,3)] by simp
  show "watch_loop balancer_client (externalip_handle ''s-x-a-2'') g 0 [] 2 = Some (Inr (g [''1.2.3.4'']), 4)"
    using once [OF balancer_events(4,5)] by simp
qed

lemma Itoa_two: "Itoa 2 = ''2''"
  by (simp add: Itoa_def dec_nat.simps digit_char_def)

lemma first_number: "(case IncreaseServiceID None of None \<Rightarrow> 0 | Some n \<Rightarrow> n) = 1"
  by (simp add: IncreaseServiceID_def)

lemma balancer_setup: "\<exists>b1. load_balancer_setup balancer_client [0] serving_board = (Returns (), b1) \<and> b_errors b1 = 0"
  by (simp add: load_balancer_setup_def load_balancer_pod_def make_services_def append_service_def run_bind_def new_service_def
      LoadBalancerServiceByProtocol_def WaitForExternalIP_def step_defs serving_eval balancer_calls balancer_watches Itoa_two
      NewExternalIPs_def first_number)

theorem load_balancer_feature_verdict_witness:
  "\<exists>b1 b2. load_balancer_setup balancer_client [0] serving_board = (Returns (), b1) \<and>
     load_balancer_assess balancer_client (\<lambda>_. (Fin 0, None)) [0] b1 = (Returns (), b2) \<and> b_errors b2 = 0"
proof -
  obtain b1 where b1: "load_balancer_setup balancer_client [0] serving_board = (Returns (), b1)" "b_errors b1 = 0"
    using balancer_setup by blast
  then have "b_errors b1 = b_errors serving_board" by (simp add: serving_board_facts)
  from load_balancer_feature_verdict [OF balancer_laws b1(1) this serving_board_facts(1-3)] b1
  show ?thesis using live_all_reach serving_board_facts(4) by fastforce
qed

end
