(* ===== verification/Test_Basic.thy ===== *)
theory Test_Basic
  imports Service_Verdicts
begin

text \<open>
  The test functions of \<open>tests/\<close> as wholes: the features each hands to \<open>testenv.Test\<close>, with the local
  variables their closures share, on the board all tests share. The e2e framework that runs the
  features is a parameter; \<open>framework_law\<close> states what its documentation says of a test that passes.
  What \<open>TestBasicService\<close> has seen when it records no error.
\<close>

section \<open>Features\<close>

text \<open>
  \<open>features.New(name).WithLabel(key, value).Setup(f).Assess(g).Teardown(h)\<close>: the three functions go on from the
  values \<open>'v\<close> of the local variables of the test and leave them to the next.
\<close>

record ('w, 'v) feature =
  f_Name :: string
  f_Labels :: "(string \<times> string) list"
  f_Setup :: "'v \<Rightarrow> ('w, 'v) step"
  f_Assess :: "'v \<Rightarrow> ('w, 'v) step"
  f_Teardown :: "'v \<Rightarrow> ('w, 'v) step"

type_synonym ('w, 'v) framework = "('w, 'v) feature list \<Rightarrow> 'v \<Rightarrow> ('w, unit) step"

text \<open>A function that assigns to none of the variables.\<close>

definition keeping :: "('w, unit) step \<Rightarrow> 'v \<Rightarrow> ('w, 'v) step" where
  "keeping f v = run_bind f (\<lambda>_. run_return v)"

definition deref_var :: "'a option \<Rightarrow> ('w, 'a) step" where
  "deref_var v = on_board (\<lambda>b. go_bind (deref v) (\<lambda>x. Inr (x, b)))"

text \<open>\<open>var services kubernetes.Services\<close>, a slice that is nil.\<close>

definition var_services :: "('w, unit) step" where
  "var_services = put_board (\<lambda>b. b\<lparr>b_services := []\<rparr>)"

subsection \<open>basic_service_test.go\<close>

text \<open>The variables of \<open>TestBasicService\<close>: the pods of the affinity feature and \<open>pods\<close>.\<close>

type_synonym basic_vars = "pod_ref list \<times> pod_ref list"

definition featureClusterIP ::
  "('w, 'z) client_scheme \<Rightarrow> (string \<Rightarrow> float64 \<times> err) \<Rightarrow> ('w, basic_vars) feature" where
  "featureClusterIP E PF =
     \<lparr>f_Name = ''ClusterIP'', f_Labels = [(''type'', ''cluster_ip'')],
      f_Setup = (\<lambda>v. keeping (cluster_ip_setup E (snd v)) v),
      f_Assess = (\<lambda>v. keeping (cluster_ip_assess E PF (snd v)) v), f_Teardown = keeping (reset_board E)\<rparr>"

definition featureNodePort ::
  "('w, 'z) client_scheme \<Rightarrow> (string \<Rightarrow> float64 \<times> err) \<Rightarrow> ('w, basic_vars) feature" where
  "featureNodePort E PF =
     \<lparr>f_Name = ''NodePort'', f_Labels = [(''type'', ''node_port'')],
      f_Setup = (\<lambda>v. keeping (node_port_setup E (snd v)) v),
      f_Assess = (\<lambda>v. keeping (node_port_assess E PF (snd v)) v), f_Teardown = keeping (reset_board E)\<rparr>"

definition featureLoadBalancer ::
  "('w, 'z) client_scheme \<Rightarrow> (string \<Rightarrow> float64 \<times> err) \<Rightarrow> ('w, basic_vars) feature" where
  "featureLoadBalancer E PF =
     \<lparr>f_Name = ''LoadBalancer'', f_Labels = [(''type'', ''load_balancer'')],
      f_Setup = (\<lambda>v. keeping (load_balancer_setup E (snd v)) v),
      f_Assess = (\<lambda>v. keeping (load_balancer_assess E PF (snd v)) v), f_Teardown = keeping (reset_board E)\<rparr>"

definition featureEndlessService ::
  "('w, 'z) client_scheme \<Rightarrow> (string \<Rightarrow> float64 \<times> err) \<Rightarrow> string \<Rightarrow> ('w, basic_vars) feature" where
  "featureEndlessService E PF namespace =
     \<lparr>f_Name = ''EndlessService'', f_Labels = [(''type'', ''cluster_ip_endless'')],
      f_Setup = (\<lambda>v. keeping (endless_setup E namespace (snd v)) v),
      f_Assess = keeping (endless_assess E PF namespace), f_Teardown = keeping (reset_board E)\<rparr>"

definition featureHairpin ::
  "('w, 'z) client_scheme \<Rightarrow> (string \<Rightarrow> float64 \<times> err) \<Rightarrow> string \<Rightarrow> ('w, basic_vars) feature" where
  "featureHairpin E PF namespace =
     \<lparr>f_Name = ''Hairpin'', f_Labels = [(''type'', ''cluster_ip_hairpin'')],
      f_Setup = (\<lambda>v. keeping (hairpin_setup E namespace (snd v)) v),
      f_Assess = (\<lambda>v. keeping (hairpin_assess E PF namespace (snd v)) v), f_Teardown = keeping (reset_board E)\<rparr>"

definition featureSessionAffinity ::
  "('w, 'z) client_scheme \<Rightarrow> (string \<Rightarrow> float64 \<times> err) \<Rightarrow> string \<Rightarrow> ('w, basic_vars) feature" where
  "featureSessionAffinity E PF namespace =
     \<lparr>f_Name = ''SessionAffinity'', f_Labels = [(''type'', ''cluster_ip_sessionAffinity'')],
      f_Setup = (\<lambda>v. affinity_setup E namespace (snd v)),
      f_Assess = (\<lambda>v. keeping (affinity_assess E PF namespace (fst v) (snd v)) v),
      f_Teardown = (\<lambda>v. keeping (affinity_teardown E namespace (fst v)) v)\<rparr>"

definition basic_features ::
  "('w, 'z) client_scheme \<Rightarrow> (string \<Rightarrow> float64 \<times> err) \<Rightarrow> string \<Rightarrow> ('w, basic_vars) feature list" where
  "basic_features E PF namespace =
     [featureClusterIP E PF, featureNodePort E PF, featureLoadBalancer E PF, featureEndlessService E PF namespace,
      featureHairpin E PF namespace, featureSessionAffinity E PF namespace]"

definition TestBasicService ::
  "('w, basic_vars) framework \<Rightarrow> ('w, 'z) client_scheme \<Rightarrow> (string \<Rightarrow> float64 \<times> err) \<Rightarrow> string \<Rightarrow> ('w, unit) step" where
  "TestBasicService testenv_Test E PF namespace =
     run_bind all_pods (\<lambda>pods.
     run_bind var_services (\<lambda>_. testenv_Test (basic_features E PF namespace) ([], pods)))"

definition featureNodePortLocal ::
  "('w, 'z) client_scheme \<Rightarrow> (string \<Rightarrow> float64 \<times> err) \<Rightarrow> string \<Rightarrow> pod_ref list \<Rightarrow> pod_ref \<Rightarrow> ('w, unit) feature" where
  "featureNodePortLocal E PF namespace pods testingPod =
     \<lparr>f_Name = ''NodePort Traffic Local'', f_Labels = [(''type'', ''node_port_traffic_local'')],
      f_Setup = keeping (node_port_local_setup E pods testingPod),
      f_Assess = keeping (node_port_local_assess E PF namespace pods testingPod), f_Teardown = keeping (reset_board E)\<rparr>"

definition featureExternal ::
  "('w, 'z) client_scheme \<Rightarrow> (string \<Rightarrow> float64 \<times> err) \<Rightarrow> pod_ref list \<Rightarrow> ('w, unit) feature" where
  "featureExternal E PF pods =
     \<lparr>f_Name = ''External Service'', f_Labels = [(''type'', ''external'')],
      f_Setup = keeping (external_setup E pods), f_Assess = keeping (external_assess E PF),
      f_Teardown = keeping (reset_board E)\<rparr>"

definition TestExternalService ::
  "('w, unit) framework \<Rightarrow> ('w, 'z) client_scheme \<Rightarrow> (string \<Rightarrow> float64 \<times> err) \<Rightarrow> string \<Rightarrow> ('w, unit) step" where
  "TestExternalService testenv_Test E PF namespace =
     run_bind all_pods (\<lambda>pods.
     run_bind var_services (\<lambda>_.
     run_bind (pod_at pods 0) (\<lambda>testingPod.
       testenv_Test [featureNodePortLocal E PF namespace pods testingPod, featureExternal E PF pods] ())))"

definition featurePerfTesting ::
  "('w, 'z) client_scheme \<Rightarrow> (string \<Rightarrow> float64 \<times> err) \<Rightarrow> string \<Rightarrow> ('w, unit) feature" where
  "featurePerfTesting E PF namespace =
     \<lparr>f_Name = ''PerfTesting'', f_Labels = [(''type'', ''perf_testing'')],
      f_Setup = keeping (perf_setup E namespace), f_Assess = keeping (perf_assess E PF),
      f_Teardown = keeping (reset_board E)\<rparr>"

definition TestPerformance ::
  "('w, unit) framework \<Rightarrow> ('w, 'z) client_scheme \<Rightarrow> (string \<Rightarrow> float64 \<times> err) \<Rightarrow> string \<Rightarrow> ('w, unit) step" where
  "TestPerformance testenv_Test E PF namespace =
     run_bind var_services (\<lambda>_. testenv_Test [featurePerfTesting E PF namespace] ())"

subsection \<open>The other tests\<close>

text \<open>\<open>TestBandwidth\<close> shares the name of its namespace.\<close>

definition featureBandwidth ::
  "('w, 'z) client_scheme \<Rightarrow> (string \<Rightarrow> float64 \<times> err) \<Rightarrow> ('w, string) feature" where
  "featureBandwidth E PF =
     \<lparr>f_Name = ''Bandwidth among nodes'', f_Labels = [(''type'', ''iperf'')],
      f_Setup = (\<lambda>_. bandwidth_setup E), f_Assess = keeping (bandwidth_assess E PF),
      f_Teardown = (\<lambda>v. keeping (bandwidth_teardown E v) v)\<rparr>"

definition TestBandwidth ::
  "('w, string) framework \<Rightarrow> ('w, 'z) client_scheme \<Rightarrow> (string \<Rightarrow> float64 \<times> err) \<Rightarrow> ('w, unit) step" where
  "TestBandwidth testenv_Test E PF = testenv_Test [featureBandwidth E PF] ''''"

text \<open>\<open>TestHostNetwork\<close> shares the pointer to its pod, which is nil before the setup.\<close>

definition featureHostNetwork ::
  "('w, 'z) client_scheme \<Rightarrow> (string \<Rightarrow> float64 \<times> err) \<Rightarrow> string \<Rightarrow> ('w, pod_ref option) feature" where
  "featureHostNetwork E PF namespace =
     \<lparr>f_Name = ''HostNetwork'', f_Labels = [(''type'', ''hostNetwork'')],
      f_Setup = (\<lambda>_. run_bind (host_network_setup E namespace) (\<lambda>r. run_return (Some r))),
      f_Assess = keeping (host_network_assess E PF),
      f_Teardown = (\<lambda>v. keeping (run_bind (deref_var v) (host_network_teardown E namespace)) v)\<rparr>"

definition TestHostNetwork ::
  "('w, pod_ref option) framework \<Rightarrow> ('w, 'z) client_scheme \<Rightarrow> (string \<Rightarrow> float64 \<times> err) \<Rightarrow> string \<Rightarrow> ('w, unit) step" where
  "TestHostNetwork testenv_Test E PF namespace = testenv_Test [featureHostNetwork E PF namespace] None"

text \<open>\<open>TestLabels\<close> shares its two reachabilities and the service that its features toggle, which is nil at first.\<close>

type_synonym label_vars = "(reachability \<times> reachability) \<times> service option"

definition label_feature ::
  "('w, 'z) client_scheme \<Rightarrow> (string \<Rightarrow> float64 \<times> err) \<Rightarrow> pod_ref \<Rightarrow> string \<Rightarrow> string \<times> string \<Rightarrow> ('w, label_vars) feature" where
  "label_feature E PF toPod name = (\<lambda>(key, value).
     \<lparr>f_Name = name, f_Labels = [(''type'', name)],
      f_Setup = (\<lambda>(rs, _). run_bind (labels_setup E toPod) (\<lambda>svc. run_return (rs, Some svc))),
      f_Assess = (\<lambda>(rs, svc). run_bind (deref_var svc) (\<lambda>svc.
        run_bind (labels_assess E PF toPod key value rs svc) (\<lambda>(rs, svc). run_return (rs, Some svc)))),
      f_Teardown = (\<lambda>(rs, svc). keeping (run_bind (deref_var svc) (labels_teardown E)) (rs, svc))\<rparr>)"

definition TestLabels ::
  "('w, label_vars) framework \<Rightarrow> ('w, 'z) client_scheme \<Rightarrow> (string \<Rightarrow> float64 \<times> err) \<Rightarrow> string \<Rightarrow> ('w, unit) step" where
  "TestLabels testenv_Test E PF namespace =
     run_bind all_pods (\<lambda>pods.
     run_bind (labels_begin namespace pods) (\<lambda>(toPod, up, down).
       testenv_Test (map2 (label_feature E PF toPod) [''ProxyNameLabel'', ''HeadlessLabel''] label_pairs) ((up, down), None)))"

text \<open>\<open>TestUDPInitContainer\<close> shares the name of its namespace and its own model.\<close>

definition featureUDPInitContainer ::
  "('w, 'z) client_scheme \<Rightarrow> (string \<Rightarrow> float64 \<times> err) \<Rightarrow> pod_ref list \<Rightarrow> ('w, string \<times> model) feature" where
  "featureUDPInitContainer E PF pods =
     \<lparr>f_Name = ''UDP stale endpoint'', f_Labels = [(''type'', ''udp_stale_endpoint'')],
      f_Setup = (\<lambda>_. udp_setup E pods),
      f_Assess = (\<lambda>(name, udpModel). run_bind (udp_assess E PF udpModel) (\<lambda>(_, udpModel). run_return (name, udpModel))),
      f_Teardown = (\<lambda>v. keeping (udp_teardown E (fst v)) v)\<rparr>"

definition TestUDPInitContainer ::
  "('w, string \<times> model) framework \<Rightarrow> ('w, 'z) client_scheme \<Rightarrow> (string \<Rightarrow> float64 \<times> err) \<Rightarrow> ('w, unit) step" where
  "TestUDPInitContainer testenv_Test E PF =
     run_bind var_services (\<lambda>_.
     run_bind all_pods (\<lambda>pods.
       testenv_Test [featureUDPInitContainer E PF pods]
         ('''', \<lparr>m_pods = None, m_ports = None, m_protocols = None, m_Namespaces = [], m_dnsDomain = ''''\<rparr>)))"

section \<open>Errors are only added\<close>

text \<open>A step that returns takes no error back, and one that \<open>t.Fatal\<close> ends has added one.\<close>

definition only_adds :: "('w, 'a) step \<Rightarrow> bool" where
  "only_adds f \<longleftrightarrow> (\<forall>b r b1. f b = (r, b1) \<longrightarrow>
     (case r of Returns x \<Rightarrow> b_errors b \<le> b_errors b1 | Fails \<Rightarrow> b_errors b < b_errors b1 | _ \<Rightarrow> True))"

lemma only_adds_returns: "only_adds f \<Longrightarrow> f b = (Returns x, b1) \<Longrightarrow> b_errors b \<le> b_errors b1"
  unfolding only_adds_def by fastforce

named_theorems adds_intros \<open>steps that take no error back\<close>

lemma only_adds_bind [adds_intros]:
  assumes "only_adds f" and "\<And>x. only_adds (g x)"
  shows "only_adds (run_bind f g)"
  unfolding only_adds_def
proof (intro allI impI)
  fix b r b1 assume run: "run_bind f g b = (r, b1)"
  obtain q b2 where q: "f b = (q, b2)" by (metis surj_pair)
  with assms(1) have f: "case q of Returns x \<Rightarrow> b_errors b \<le> b_errors b2 | Fails \<Rightarrow> b_errors b < b_errors b2 | _ \<Rightarrow> True"
    unfolding only_adds_def by blast
  show "case r of Returns x \<Rightarrow> b_errors b \<le> b_errors b1 | Fails \<Rightarrow> b_errors b < b_errors b1 | _ \<Rightarrow> True"
  proof (cases q)
    case (Returns x)
    with run q have "g x b2 = (r, b1)" by (simp add: run_bind_def)
    with assms(2) [of x] have "case r of Returns x \<Rightarrow> b_errors b2 \<le> b_errors b1 | Fails \<Rightarrow> b_errors b2 < b_errors b1 | _ \<Rightarrow> True"
      unfolding only_adds_def by blast
    with f Returns show ?thesis by (auto split: run.splits)
  qed (use run q f in \<open>auto simp: run_bind_def\<close>)
qed

lemma only_adds_prod [adds_intros]: "(\<And>x y. only_adds (f x y)) \<Longrightarrow> only_adds (case p of (x, y) \<Rightarrow> f x y)"
  by (cases p) simp

lemma only_adds_each [adds_intros]: "(\<And>x. only_adds (f x)) \<Longrightarrow> only_adds (run_each f xs)"
proof (induction xs)
  case (Cons x xs)
  then show ?case by (simp add: only_adds_bind)
qed (simp add: only_adds_def run_return_def)

lemma only_adds_steps [adds_intros]:
  "only_adds (on_world h)" "only_adds (on_watch v)" "only_adds (on_kube k)" "only_adds get_board" "only_adds (run_return x)"
  "only_adds (set_pod r u)" "only_adds t_Error" "only_adds (error_if c)" "only_adds (fatal_if c)" "only_adds (exit_if c)"
  "only_adds (assert_not_nil y)" "only_adds (from_template E t)"
  by (auto simp: only_adds_def step_defs from_template_def Let_def split: option.splits prod.splits sum.splits)

lemma only_adds_put [adds_intros]: "(\<And>b. b_errors b \<le> b_errors (u b)) \<Longrightarrow> only_adds (put_board u)"
  by (simp add: only_adds_def put_board_def)

lemma only_adds_board:
  assumes "\<And>b x b1. f b = Inr (x, b1) \<Longrightarrow> b_errors b1 = b_errors b"
  shows "only_adds (on_board f)"
  using assms by (auto simp: only_adds_def on_board_def split: sum.splits)

lemma only_adds_shared [adds_intros]:
  "only_adds (make_services n)" "only_adds (append_service svc)" "only_adds (pod_at pods i)" "only_adds (read_pod r f)"
  "only_adds all_pods" "only_adds (alloc_pod p)" "only_adds (add_pod r namespace)" "only_adds (remove_pod name namespace)"
  "only_adds (new_reachability pods d)" "only_adds (expect_peer from to conn re)"
  "only_adds (validate E PF tc ignoreLoopback reachTargetPod measureBandwidth)" "only_adds (new_service spec r)"
  by (auto simp: make_services_def append_service_def pod_at_def read_pod_def all_pods_def alloc_pod_def add_pod_def
      remove_pod_def new_reachability_def expect_peer_def validate_def new_service_def go_bind_eq_Inr_iff Let_def
      intro!: only_adds_put only_adds_board split: if_splits prod.splits)

lemma only_adds_judging [adds_intros]:
  "only_adds (must_no_wrong wrong)" "only_adds (judge E PF toPort proto kind re ignoreLoopback reachTargetPod)"
  "only_adds (judge_all E PF pods toPort kind proto)" "only_adds (reset_board E)" "only_adds (only_service service)"
proof -
  have "only_adds (on_board (\<lambda>b. let (e, m, k) = ResetTestBoard E (b_services b) (b_model b) (b_kube b)
                             in Inr (e, b\<lparr>b_model := m, b_kube := k\<rparr>)))"
    by (rule only_adds_board) (auto split: prod.splits)
  then show "only_adds (reset_board E)" unfolding reset_board_def by (intro adds_intros)
  show "only_adds (only_service service)" unfolding only_service_def by (intro adds_intros) simp
qed (unfold must_no_wrong_def judge_def judge_all_def, (intro adds_intros)+)

lemma only_adds_peers [adds_intros]:
  "only_adds (affinity_peers E namespace clusterIP pods peers)" "only_adds (expect_peers namespace expected re)"
proof -
  show "only_adds (affinity_peers E namespace clusterIP pods peers)"
    by (induction E namespace clusterIP pods peers rule: affinity_peers.induct) (simp; intro adds_intros; assumption?)+
  show "only_adds (expect_peers namespace expected re)"
    by (induction namespace expected re rule: expect_peers.induct) (simp; intro adds_intros; assumption?)+
qed

lemma only_adds_features [adds_intros]:
  "only_adds (endless_setup E namespace pods)" "only_adds (endless_assess E PF namespace)"
  "only_adds (hairpin_setup E namespace pods)" "only_adds (hairpin_assess E PF namespace pods)"
  "only_adds (affinity_setup E namespace pods)" "only_adds (affinity_assess E PF namespace podsWithAffinity pods)"
  "only_adds (affinity_teardown E namespace podsWithAffinity)"
  "only_adds (cluster_ip_setup E pods)" "only_adds (cluster_ip_assess E PF pods)"
  "only_adds (node_port_setup E pods)" "only_adds (node_port_assess E PF pods)"
  "only_adds (load_balancer_setup E pods)" "only_adds (load_balancer_assess E PF pods)"
  unfolding cluster_ip_setup_def cluster_ip_pod_def cluster_ip_assess_def node_port_setup_def node_port_pod_def
    node_port_assess_def load_balancer_setup_def load_balancer_pod_def load_balancer_assess_def Let_def endless_setup_def endless_assess_def hairpin_setup_def hairpin_assess_def affinity_setup_def start_new_pod_def
    affinity_assess_def expect_affinity_def affinity_teardown_def drop_pod_def
  by (intro adds_intros)+

section \<open>The e2e framework\<close>

text \<open>
  A pass through the features: of each feature that the flags of the run select by its labels the setup,
  the assessment and the teardown, one after the other, and nothing of the others.
\<close>

fun run_through :: "((string \<times> string) list \<Rightarrow> bool) \<Rightarrow> ('w, 'v) framework" where
  "run_through selected [] v = run_return ()"
| "run_through selected (f # fs) v =
     (if selected (f_Labels f)
      then run_bind (f_Setup f v) (\<lambda>v. run_bind (f_Assess f v) (\<lambda>v. run_bind (f_Teardown f v) (run_through selected fs)))
      else run_through selected fs v)"

definition adds_feature :: "('w, 'v) feature \<Rightarrow> bool" where
  "adds_feature f \<longleftrightarrow> (\<forall>v. only_adds (f_Setup f v) \<and> only_adds (f_Assess f v) \<and> only_adds (f_Teardown f v))"

text \<open>
  What the framework documents of \<open>testenv.Test\<close>: it takes no error of the features back, and a test that
  ends without one has passed through the features the flags select.
\<close>

definition framework_law :: "('w, 'v) framework \<Rightarrow> ((string \<times> string) list \<Rightarrow> bool) \<Rightarrow> bool" where
  "framework_law testenv_Test selected \<longleftrightarrow>
     (\<forall>fs v b b1. list_all adds_feature fs \<longrightarrow> testenv_Test fs v b = (Returns (), b1) \<longrightarrow>
        b_errors b \<le> b_errors b1 \<and>
        (b_errors b1 = b_errors b \<longrightarrow> run_through selected fs v b = (Returns (), b1)))"

text \<open>
  The law holds of a framework that runs each feature and each assessment as a subtest, which fails alone
  when \<open>t.Fatal\<close> ends it.
\<close>

definition subtest :: "'v \<Rightarrow> ('w, 'v) step \<Rightarrow> ('w, 'v) step" where
  "subtest v f b = (case f b of (Fails, b1) \<Rightarrow> (Returns v, b1) | r \<Rightarrow> r)"

fun run_subtests :: "((string \<times> string) list \<Rightarrow> bool) \<Rightarrow> ('w, 'v) framework" where
  "run_subtests selected [] v = run_return ()"
| "run_subtests selected (f # fs) v =
     (if selected (f_Labels f)
      then run_bind (subtest v (run_bind (f_Setup f v) (\<lambda>v. run_bind (subtest v (f_Assess f v)) (f_Teardown f))))
             (run_subtests selected fs)
      else run_subtests selected fs v)"

lemma only_adds_subtest [adds_intros]: "only_adds f \<Longrightarrow> only_adds (subtest v f)"
  by (fastforce simp: only_adds_def subtest_def split: prod.splits run.splits)

text \<open>A subtest that recorded no error has run to its end.\<close>

lemma subtest_clean:
  assumes "only_adds f" and "subtest v f b = (Returns x, b1)" and "b_errors b1 = b_errors b"
  shows "f b = (Returns x, b1)"
proof -
  obtain q b2 where "f b = (q, b2)" by (metis surj_pair)
  with assms show ?thesis
    by (cases q) (fastforce simp: only_adds_def subtest_def)+
qed

lemma run_subtests_adds:
  assumes "list_all adds_feature fs"
  shows "only_adds (run_subtests selected fs v)"
  using assms
proof (induction fs arbitrary: v)
  case (Cons f fs)
  then have f: "only_adds (f_Setup f v)" "only_adds (f_Assess f v)" "only_adds (f_Teardown f v)" for v
    by (simp_all add: adds_feature_def)
  show ?case using Cons by (auto intro!: adds_intros f)
qed (auto intro!: adds_intros)

text \<open>Two steps that recorded no error together recorded none each.\<close>

lemma run_bind_clean:
  assumes "only_adds f" "\<And>x. only_adds (g x)" and "run_bind f g b = (Returns y, b1)" "b_errors b1 = b_errors b"
  obtains x b2 where "f b = (Returns x, b2)" "g x b2 = (Returns y, b1)" "b_errors b2 = b_errors b" "b_errors b1 = b_errors b2"
proof -
  obtain x b2 where s: "f b = (Returns x, b2)" "g x b2 = (Returns y, b1)" using assms(3) by (auto simp: run_bind_Returns)
  with only_adds_returns [OF assms(1) s(1)] only_adds_returns [OF assms(2) s(2)] assms(4) that show ?thesis by simp
qed

lemma run_subtests_through:
  assumes "list_all adds_feature fs" and "run_subtests selected fs v b = (Returns (), b1)" "b_errors b1 = b_errors b"
  shows "run_through selected fs v b = (Returns (), b1)"
  using assms
proof (induction fs arbitrary: v b)
  case (Cons f fs)
  show ?case
  proof (cases "selected (f_Labels f)")
    case True
    have f: "only_adds (f_Setup f v)" "only_adds (f_Assess f v)" "only_adds (f_Teardown f v)" for v
      using Cons.prems(1) by (simp_all add: adds_feature_def)
    have fs: "list_all adds_feature fs" using Cons.prems(1) by simp
    let ?inner = "\<lambda>v. run_bind (subtest v (f_Assess f v)) (f_Teardown f)"
    have adds: "only_adds (?inner v)" "only_adds (run_bind (f_Setup f v) ?inner)"
        "only_adds (subtest v (run_bind (f_Setup f v) ?inner))" for v
      by (intro adds_intros f)+
    have run: "run_bind (subtest v (run_bind (f_Setup f v) ?inner)) (run_subtests selected fs) b = (Returns (), b1)"
      using Cons.prems(2) True by simp
    obtain v3 c3 where 3: "subtest v (run_bind (f_Setup f v) ?inner) b = (Returns v3, c3)"
        "run_subtests selected fs v3 c3 = (Returns (), b1)" "b_errors c3 = b_errors b" "b_errors b1 = b_errors c3"
      by (rule run_bind_clean [OF adds(3) run_subtests_adds [OF fs] run Cons.prems(3)])
    obtain v1 c1 where 1: "f_Setup f v b = (Returns v1, c1)" "?inner v1 c1 = (Returns v3, c3)" "b_errors c3 = b_errors c1"
      by (rule run_bind_clean [OF f(1) adds(1) subtest_clean [OF adds(2) 3(1,3)] 3(3)])
    obtain v2 c2 where 2: "subtest v1 (f_Assess f v1) c1 = (Returns v2, c2)" "f_Teardown f v2 c2 = (Returns v3, c3)"
        "b_errors c2 = b_errors c1"
      by (rule run_bind_clean [OF only_adds_subtest [OF f(2)] f(3) 1(2,3)])
    have "run_through selected fs v3 c3 = (Returns (), b1)" using Cons.IH [OF fs 3(2,4)] .
    then show ?thesis
      using True 1(1) 2(2) subtest_clean [OF f(2) 2(1,3)] by (simp add: run_bind_def)
  qed (use Cons in simp)
qed simp

lemma run_subtests_law: "framework_law (run_subtests selected) selected"
  unfolding framework_law_def
  by (intro allI impI conjI) (erule (1) only_adds_returns [OF run_subtests_adds], rule run_subtests_through)

lemma framework_lawD:
  assumes "framework_law testenv_Test selected" "list_all adds_feature fs" "testenv_Test fs v b = (Returns (), b1)"
  shows "b_errors b \<le> b_errors b1" and "b_errors b1 = b_errors b \<Longrightarrow> run_through selected fs v b = (Returns (), b1)"
  using assms unfolding framework_law_def by blast+

section \<open>What a test without errors has seen\<close>

text \<open>
  The first pod reaches the second on the protocol through services of the second that were created, got
  an endpoint and were waited for one after the other: at the address the wait delivered for a ClusterIP service, at the
  port of a NodePort service on the second pod's host, and at the address of the LoadBalancer service of
  the protocol.
\<close>

definition reach_cluster_ip ::
  "('w, 'z) client_scheme \<Rightarrow> (commandImpl \<Rightarrow> string \<times> err) \<Rightarrow> pod \<Rightarrow> pod \<Rightarrow> protocol \<Rightarrow> bool" where
  "reach_cluster_ip E ans p q proto \<longleftrightarrow>
     (\<exists>svc ip. selects ''ClusterIP'' q svc \<and> delivers_cluster_ip E svc ip \<and> ip \<noteq> '''' \<and> reaches ans p ip 80 proto)"

definition reach_node_port ::
  "('w, 'z) client_scheme \<Rightarrow> (commandImpl \<Rightarrow> string \<times> err) \<Rightarrow> pod \<Rightarrow> pod \<Rightarrow> protocol \<Rightarrow> bool" where
  "reach_node_port E ans p q proto \<longleftrightarrow>
     (\<exists>svc port. selects ''NodePort'' q svc \<and> delivers_node_port E svc port \<and> reaches ans p (p_HostIP q) (sint port) proto)"

definition reach_load_balancer ::
  "('w, 'z) client_scheme \<Rightarrow> (commandImpl \<Rightarrow> string \<times> err) \<Rightarrow> pod \<Rightarrow> pod \<Rightarrow> protocol \<Rightarrow> bool" where
  "reach_load_balancer E ans p q proto \<longleftrightarrow>
     (\<exists>tcp udp ipsTCP ipsUDP. selects ''LoadBalancer'' q tcp \<and> selects ''LoadBalancer'' q udp \<and>
        delivers_external_ips E tcp udp ipsTCP ipsUDP \<and> ipsTCP @ ipsUDP \<noteq> [] \<and>
        reaches ans p (first_or_empty (if proto = ProtocolTCP then ipsTCP else ipsUDP)) 80 proto)"

text \<open>Each through the services of the features that were selected.\<close>

definition services_reach ::
  "('w, 'z) client_scheme \<Rightarrow> (commandImpl \<Rightarrow> string \<times> err) \<Rightarrow> ((string \<times> string) list \<Rightarrow> bool) \<Rightarrow>
   pod \<Rightarrow> pod \<Rightarrow> protocol \<Rightarrow> bool" where
  "services_reach E ans selected p q proto \<longleftrightarrow>
     (selected [(''type'', ''cluster_ip'')] \<longrightarrow> reach_cluster_ip E ans p q proto) \<and>
     (selected [(''type'', ''node_port'')] \<longrightarrow> reach_node_port E ans p q proto) \<and>
     (selected [(''type'', ''load_balancer'')] \<longrightarrow> reach_load_balancer E ans p q proto)"

lemma addressed_sym_sel:
  assumes "addressed p q"
  shows "selects kind q svc \<longleftrightarrow> selects kind p svc" and "reaches ans q = reaches ans p" and "p_HostIP q = p_HostIP p"
  using assms by (simp_all add: selects_def addressed_sel reaches_addressed ServiceName_def)

lemma served_cluster_ip:
  assumes "serves_cluster_ip E q svcs" and "reaches ans p (target_address ClusterIP proto q) (target_port 80 q) proto"
  shows "reach_cluster_ip E ans p q proto"
  using assms by (auto simp: reach_cluster_ip_def serves_cluster_ip_def target_address_def target_port_def)

lemma served_node_port:
  assumes "serves_node_port E q svcs" and "reaches ans p (target_address NodePort proto q) (target_port 0 q) proto"
  shows "reach_node_port E ans p q proto"
  using assms by (auto simp: reach_node_port_def serves_node_port_def target_address_def target_port_def)

lemma served_load_balancer:
  assumes "serves_load_balancer E q svcs" and "proto \<in> {ProtocolTCP, ProtocolUDP}"
    and "reaches ans p (target_address LoadBalancer proto q) (target_port 0 q) proto"
  shows "reach_load_balancer E ans p q proto"
proof -
  from assms(1) obtain tcp udp ipsTCP ipsUDP where
    s: "selects ''LoadBalancer'' q tcp" "selects ''LoadBalancer'' q udp" "delivers_external_ips E tcp udp ipsTCP ipsUDP"
      "p_ExternalIPs q = NewExternalIPs ipsTCP ProtocolTCP @ NewExternalIPs ipsUDP ProtocolUDP" "p_ExternalIPs q \<noteq> []"
      "p_ToPort q = 80"
    unfolding serves_load_balancer_def by (elim exE conjE) (rule that)
  have "target_port 0 q = 80" by (simp add: target_port_def s(6))
  moreover have "ipsTCP @ ipsUDP \<noteq> []" using s(4,5) by (auto simp: NewExternalIPs_def)
  ultimately show ?thesis
    unfolding reach_load_balancer_def
    using assms(2,3) s(1-3) serves_load_balancer_targets [OF s(4)]
    by (intro exI [of _ tcp] exI [of _ udp] exI [of _ ipsTCP] exI [of _ ipsUDP]) auto
qed

lemma reach_addressed:
  assumes "addressed p p'" "addressed q q'"
  shows "reach_cluster_ip E ans p' q' proto \<longleftrightarrow> reach_cluster_ip E ans p q proto"
    and "reach_node_port E ans p' q' proto \<longleftrightarrow> reach_node_port E ans p q proto"
    and "reach_load_balancer E ans p' q' proto \<longleftrightarrow> reach_load_balancer E ans p q proto"
  by (simp_all add: reach_cluster_ip_def reach_node_port_def reach_load_balancer_def addressed_sym_sel [OF assms(1)]
      addressed_sym_sel [OF assms(2)])

text \<open>Between two features: the board is ready for the next, with the pods the test started with.\<close>

definition between :: "pod_ref list \<Rightarrow> pod_store \<Rightarrow> 'w board \<Rightarrow> bool" where
  "between pods h b \<longleftrightarrow> test_ready pods b \<and> (\<forall>r. addressed (h ! r) (k_pods (b_kube b) ! r))"

context pod_services
begin

text \<open>A feature that recorded no error.\<close>

lemma clean_feature:
  assumes E: "order_law E" "steady E ans" and start: "between pods h b" "b_errors b3 = b_errors b"
    and run: "run_bind (make_services n) (\<lambda>_. run_each body pods) b = (Returns (), b1)"
      "run_bind (judge_all E PF pods toPort kind ProtocolTCP) (\<lambda>_. judge_all E PF pods toPort kind ProtocolUDP) b1 = (Returns (), b2)"
      "reset_board E b2 = (Returns (), b3)"
    and kind: "kind \<in> {ClusterIP, NodePort, LoadBalancer}"
    and seen: "\<And>p q svcs proto. serves q svcs \<Longrightarrow> proto \<in> {ProtocolTCP, ProtocolUDP} \<Longrightarrow>
        reaches ans p (target_address kind proto q) (target_port toPort q) proto \<Longrightarrow> P p q proto"
    and same: "\<And>p p' q q' proto. addressed p p' \<Longrightarrow> addressed q q' \<Longrightarrow> P p' q' proto \<longleftrightarrow> P p q proto"
  shows "between pods h b3 \<and> (\<forall>f \<in> set pods. \<forall>t \<in> set pods. \<forall>proto \<in> {ProtocolTCP, ProtocolUDP}. P (h ! f) (h ! t) proto)"
proof -
  have ready: "test_ready pods b" and kept: "addressed (h ! r) (k_pods (b_kube b) ! r)" for r
    using start(1) by (simp_all add: between_def)
  note round = feature_round [OF E ready run kind]
  have next_ready: "between pods h b3" using round kept addressed_trans unfolding between_def by blast
  from round start(2) obtain g where
    g: "\<forall>r. addressed (k_pods (b_kube b) ! r) (g ! r)" "\<forall>r \<in> set pods. \<exists>svcs. serves (g ! r) svcs"
      "all_reach ans g pods toPort kind ProtocolTCP" "all_reach ans g pods toPort kind ProtocolUDP" by blast
  have "P (h ! f) (h ! t) proto"
    if ft: "f \<in> set pods" "t \<in> set pods" and proto: "proto \<in> {ProtocolTCP, ProtocolUDP}" for f t proto
  proof -
    obtain svcs where "serves (g ! t) svcs" using g(2) ft(2) by blast
    moreover have "reaches ans (g ! f) (target_address kind proto (g ! t)) (target_port toPort (g ! t)) proto"
      using g(3,4) ft proto unfolding all_reach_def by blast
    ultimately have "P (g ! f) (g ! t) proto" using seen proto by blast
    moreover have "addressed (h ! r) (g ! r)" for r using kept g(1) addressed_trans by blast
    ultimately show ?thesis using same by blast
  qed
  with next_ready show ?thesis by blast
qed

end

text \<open>A test without errors that goes through one of the features, or leaves it out.\<close>

lemma run_through_step:
  assumes adds: "adds_feature f" "\<And>v. only_adds (run_through selected fs v)"
    and run: "run_through selected (f # fs) v b = (Returns (), b1)" "b_errors b1 = b_errors b"
  obtains v3 c3 where "run_through selected fs v3 c3 = (Returns (), b1)" "b_errors c3 = b_errors b" "b_errors b1 = b_errors c3"
    "if selected (f_Labels f) then \<exists>v1 c1 v2 c2. f_Setup f v b = (Returns v1, c1) \<and> f_Assess f v1 c1 = (Returns v2, c2) \<and>
       f_Teardown f v2 c2 = (Returns v3, c3) else v3 = v \<and> c3 = b"
proof (cases "selected (f_Labels f)")
  case True
  have f: "only_adds (f_Setup f v)" "only_adds (f_Assess f v)" "only_adds (f_Teardown f v)" for v
    using adds(1) by (simp_all add: adds_feature_def)
  from run(1) True obtain v1 c1 v2 c2 v3 c3 where
    c: "f_Setup f v b = (Returns v1, c1)" "f_Assess f v1 c1 = (Returns v2, c2)" "f_Teardown f v2 c2 = (Returns v3, c3)"
      "run_through selected fs v3 c3 = (Returns (), b1)" by (auto simp: run_bind_Returns)
  have "b_errors c3 = b_errors b"
    using only_adds_returns [OF f(1) c(1)] only_adds_returns [OF f(2) c(2)] only_adds_returns [OF f(3) c(3)]
      only_adds_returns [OF adds(2) c(4)] run(2) by simp
  with c run(2) True show ?thesis by (intro that [of v3 c3]) auto
qed (use run that in auto)

lemma run_through_adds:
  assumes "list_all adds_feature fs"
  shows "only_adds (run_through selected fs v)"
  using assms
proof (induction fs arbitrary: v)
  case (Cons f fs)
  then have f: "only_adds (f_Setup f v)" "only_adds (f_Assess f v)" "only_adds (f_Teardown f v)" for v
    by (simp_all add: adds_feature_def)
  show ?case using Cons by (auto intro!: adds_intros f)
qed (auto intro!: adds_intros)

lemma keeping_Returns: "keeping f v b = (Returns v1, b1) \<longleftrightarrow> v1 = v \<and> f b = (Returns (), b1)"
  by (auto simp: keeping_def returns_iff)

lemma only_adds_keeping [adds_intros]: "only_adds f \<Longrightarrow> only_adds (keeping f v)"
  unfolding keeping_def by (intro adds_intros)

lemmas basic_feature_defs = featureClusterIP_def featureNodePort_def featureLoadBalancer_def featureEndlessService_def
  featureHairpin_def featureSessionAffinity_def

lemma served_features:
  "f_Setup (featureClusterIP E PF) = (\<lambda>v. keeping (cluster_ip_setup E (snd v)) v)"
  "f_Assess (featureClusterIP E PF) = (\<lambda>v. keeping (cluster_ip_assess E PF (snd v)) v)"
  "f_Teardown (featureClusterIP E PF) = keeping (reset_board E)"
  "f_Setup (featureNodePort E PF) = (\<lambda>v. keeping (node_port_setup E (snd v)) v)"
  "f_Assess (featureNodePort E PF) = (\<lambda>v. keeping (node_port_assess E PF (snd v)) v)"
  "f_Teardown (featureNodePort E PF) = keeping (reset_board E)"
  "f_Setup (featureLoadBalancer E PF) = (\<lambda>v. keeping (load_balancer_setup E (snd v)) v)"
  "f_Assess (featureLoadBalancer E PF) = (\<lambda>v. keeping (load_balancer_assess E PF (snd v)) v)"
  "f_Teardown (featureLoadBalancer E PF) = keeping (reset_board E)"
  "f_Labels (featureClusterIP E PF) = [(''type'', ''cluster_ip'')]"
  "f_Labels (featureNodePort E PF) = [(''type'', ''node_port'')]"
  "f_Labels (featureLoadBalancer E PF) = [(''type'', ''load_balancer'')]"
  by (simp_all add: basic_feature_defs)

lemma adds_basic_features: "list_all adds_feature (basic_features E PF namespace)"
  by (auto simp: basic_features_def adds_feature_def basic_feature_defs intro!: adds_intros)

text \<open>The next feature of the pods' own services in a test without errors.\<close>

lemma served_step:
  assumes adds: "adds_feature f" "list_all adds_feature fs"
    and run: "run_through selected (f # fs) ([], pods) b = (Returns (), b1)" "b_errors b1 = b_errors b"
    and start: "between pods h b"
    and f: "f_Setup f = (\<lambda>v. keeping (S (snd v)) v)" "f_Assess f = (\<lambda>v. keeping (A (snd v)) v)"
      "f_Teardown f = keeping (reset_board E)"
    and clean: "\<forall>c1 c2 c3. S pods b = (Returns (), c1) \<longrightarrow> A pods c1 = (Returns (), c2) \<longrightarrow>
       reset_board E c2 = (Returns (), c3) \<longrightarrow> b_errors c3 = b_errors b \<longrightarrow> between pods h c3 \<and> Q"
  obtains c3 where "run_through selected fs ([], pods) c3 = (Returns (), b1)" "b_errors b1 = b_errors c3" "between pods h c3"
    "selected (f_Labels f) \<longrightarrow> Q"
proof -
  obtain v3 c3 where c3: "run_through selected fs v3 c3 = (Returns (), b1)" "b_errors c3 = b_errors b" "b_errors b1 = b_errors c3"
    "if selected (f_Labels f) then \<exists>v1 c1 v2 c2. f_Setup f ([], pods) b = (Returns v1, c1) \<and> f_Assess f v1 c1 = (Returns v2, c2) \<and>
       f_Teardown f v2 c2 = (Returns v3, c3) else v3 = ([], pods) \<and> c3 = b"
    by (rule run_through_step [OF adds(1) run_through_adds [OF adds(2)] run])
  show ?thesis
  proof (cases "selected (f_Labels f)")
    case True
    with c3(4) obtain c1 c2 where "S pods b = (Returns (), c1)" "A pods c1 = (Returns (), c2)"
        "reset_board E c2 = (Returns (), c3)" "v3 = ([], pods)" by (auto simp: f keeping_Returns)
    with clean c3(1-3) that show ?thesis by blast
  qed (use c3 start that in simp)
qed

text \<open>
  On a steady cluster, when \<open>TestBasicService\<close> starts with a ready model, returns and records no
  error, then every pod of the model reaches every pod on both protocols through the services of each
  feature of the three that was selected.
\<close>

lemma basic_services_reach:
  assumes E: "order_law E" "steady E ans" and law: "framework_law testenv_Test selected" and ready: "test_ready pods b"
    and run: "TestBasicService testenv_Test E PF namespace b = (Returns (), b1)" "b_errors b1 = b_errors b"
    and pair: "f \<in> set pods" "t \<in> set pods" "proto \<in> {ProtocolTCP, ProtocolUDP}"
  shows "services_reach E ans selected (k_pods (b_kube b) ! f) (k_pods (b_kube b) ! t) proto"
proof -
  let ?h = "k_pods (b_kube b)"
  obtain m0 where a: "AllPods (b_model b) = (pods, m0)" using ready by (metis prod.collapse test_ready_def)
  define b0 where "b0 = b\<lparr>b_model := m0, b_services := []\<rparr>"
  have start: "between pods ?h b0" using ready AllPods_cached_again [OF a] by (simp add: between_def test_ready_def b0_def)
  have "testenv_Test (basic_features E PF namespace) ([], pods) b0 = (Returns (), b1)"
    using run(1) by (simp add: TestBasicService_def run_bind_def all_pods_def on_board_def a var_services_def put_board_def b0_def)
  from framework_lawD [OF law adds_basic_features this] run(2) have
    through: "run_through selected (basic_features E PF namespace) ([], pods) b0 = (Returns (), b1)" "b_errors b1 = b_errors b0"
    by (simp_all add: b0_def)
  have kinds: "ClusterIP \<in> {ClusterIP, NodePort, LoadBalancer}" "NodePort \<in> {ClusterIP, NodePort, LoadBalancer}"
    "LoadBalancer \<in> {ClusterIP, NodePort, LoadBalancer}" by simp_all
  let ?all = "\<lambda>P. \<forall>f \<in> set pods. \<forall>t \<in> set pods. \<forall>proto \<in> {ProtocolTCP, ProtocolUDP}. P (?h ! f) (?h ! t) proto"
  have cluster_ip: "\<forall>c1 c2 c3. cluster_ip_setup E pods c = (Returns (), c1) \<longrightarrow>
      cluster_ip_assess E PF pods c1 = (Returns (), c2) \<longrightarrow> reset_board E c2 = (Returns (), c3) \<longrightarrow>
      b_errors c3 = b_errors c \<longrightarrow> between pods ?h c3 \<and> ?all (reach_cluster_ip E ans)" if "between pods ?h c" for c
    unfolding cluster_ip_setup_def cluster_ip_assess_def
    by (intro allI impI, rule cluster_ip.clean_feature [OF E that _ _ _ _ kinds(1)], assumption+)
       (auto intro: served_cluster_ip simp: reach_addressed)
  have node_port: "\<forall>c1 c2 c3. node_port_setup E pods c = (Returns (), c1) \<longrightarrow>
      node_port_assess E PF pods c1 = (Returns (), c2) \<longrightarrow> reset_board E c2 = (Returns (), c3) \<longrightarrow>
      b_errors c3 = b_errors c \<longrightarrow> between pods ?h c3 \<and> ?all (reach_node_port E ans)" if "between pods ?h c" for c
    unfolding node_port_setup_def node_port_assess_def
    by (intro allI impI, rule node_port.clean_feature [OF E that _ _ _ _ kinds(2)], assumption+)
       (auto intro: served_node_port simp: reach_addressed)
  have load_balancer: "\<forall>c1 c2 c3. load_balancer_setup E pods c = (Returns (), c1) \<longrightarrow>
      load_balancer_assess E PF pods c1 = (Returns (), c2) \<longrightarrow> reset_board E c2 = (Returns (), c3) \<longrightarrow>
      b_errors c3 = b_errors c \<longrightarrow> between pods ?h c3 \<and> ?all (reach_load_balancer E ans)" if "between pods ?h c" for c
    unfolding load_balancer_setup_def load_balancer_assess_def
    by (intro allI impI, rule load_balancer.clean_feature [OF E that _ _ _ _ kinds(3)], assumption+)
       (auto intro: served_load_balancer simp: reach_addressed)
  have adds1: "adds_feature (featureClusterIP E PF)" "list_all adds_feature (tl (basic_features E PF namespace))"
    and adds2: "adds_feature (featureNodePort E PF)" "list_all adds_feature (tl (tl (basic_features E PF namespace)))"
    and adds3: "adds_feature (featureLoadBalancer E PF)" "list_all adds_feature (tl (tl (tl (basic_features E PF namespace))))"
    using adds_basic_features [of E PF namespace] by (simp_all add: basic_features_def)
  have cons: "basic_features E PF namespace = featureClusterIP E PF # tl (basic_features E PF namespace)"
    "tl (basic_features E PF namespace) = featureNodePort E PF # tl (tl (basic_features E PF namespace))"
    "tl (tl (basic_features E PF namespace)) = featureLoadBalancer E PF # tl (tl (tl (basic_features E PF namespace)))"
    by (simp_all add: basic_features_def)
  have "run_through selected (featureClusterIP E PF # tl (basic_features E PF namespace)) ([], pods) b0 = (Returns (), b1)"
    using through(1) cons(1) by simp
  then obtain c1 where
    1: "run_through selected (tl (basic_features E PF namespace)) ([], pods) c1 = (Returns (), b1)" "b_errors b1 = b_errors c1"
      "between pods ?h c1" "selected (f_Labels (featureClusterIP E PF)) \<longrightarrow> ?all (reach_cluster_ip E ans)"
    by (rule served_step [OF adds1 _ through(2) start served_features(1-3) cluster_ip [OF start]])
  have "run_through selected (featureNodePort E PF # tl (tl (basic_features E PF namespace))) ([], pods) c1 = (Returns (), b1)"
    using 1(1) cons(2) by simp
  then obtain c2 where
    2: "run_through selected (tl (tl (basic_features E PF namespace))) ([], pods) c2 = (Returns (), b1)" "b_errors b1 = b_errors c2"
      "between pods ?h c2" "selected (f_Labels (featureNodePort E PF)) \<longrightarrow> ?all (reach_node_port E ans)"
    by (rule served_step [OF adds2 _ 1(2,3) served_features(4-6) node_port [OF 1(3)]])
  have "run_through selected (featureLoadBalancer E PF # tl (tl (tl (basic_features E PF namespace)))) ([], pods) c2 = (Returns (), b1)"
    using 2(1) cons(3) by simp
  then have 3: "selected (f_Labels (featureLoadBalancer E PF)) \<longrightarrow> ?all (reach_load_balancer E ans)"
    by (rule served_step [OF adds3 _ 2(2,3) served_features(7-9) load_balancer [OF 2(3)]])
  show ?thesis
    using 1(4) 2(4) 3 pair unfolding services_reach_def served_features by (intro conjI impI) (drule (1) mp, blast)+
qed

end
