(* ===== verification/Suite_Test.thy ===== *)
theory Suite_Test
  imports Test_Basic Suite_Ready
begin

text \<open>
  The setup of the suite and \<open>TestBasicService\<close> one after the other: the board that the setup leaves is
  one the test can start from, so a run of both without errors says something of the cluster.
\<close>

lemma suite_ready_test:
  assumes "suite_ready ans namespace names (b_model b) (k_pods (b_kube b))" and "\<forall>n \<in> set names. CHR ''/'' \<notin> set n"
  shows "test_ready (fst (AllPods (b_model b))) b"
proof -
  let ?h = "k_pods (b_kube b)" and ?pods = "fst (AllPods (b_model b))"
  have refs: "mset ?pods = mset (all_refs (m_Namespaces (b_model b)))" using assms(1) by (simp add: suite_ready_def)
  have "pods_ready ?h ?pods"
    using assms suite_pods_told_apart [OF _ _ assms(2) refs, of ?h namespace] by (simp add: suite_ready_def)
  moreover have "\<forall>r \<in> set ?pods. r < length ?h \<and> \<not> p_SkipProbe (?h ! r)"
    using assms(1) unfolding mset_eq_setD [OF refs] by (simp add: suite_ready_def suite_pod_def)
  ultimately show ?thesis by (simp add: test_ready_def)
qed

lemma only_adds_suite: "only_adds (suite_setup E PF namespace)"
  unfolding suite_setup_def suite_model_def suite_start_def suite_remove_pending_def suite_wait_def
  by (intro adds_intros only_adds_board; force simp: go_bind_eq_Inr_iff split: prod.splits)

lemma suite_setup_run:
  assumes "wrapf_law E" "order_law E" "steady E ans" and "fst (fst (GetReadyNodes E (k_world (b_kube b)))) = nodes"
    and "suite_setup E PF namespace b = (Returns x, b1)"
  shows "suite_ready ans namespace (suite_pods nodes) (b_model b1) (k_pods (b_kube b1))"
  using suite_setup_promise [OF assms(1-3), of nodes PF namespace] assms(4,5) unfolding promises_def by force

text \<open>The test takes no error back.\<close>

lemma TestBasicService_adds:
  assumes "framework_law testenv_Test selected" "TestBasicService testenv_Test E PF namespace b = (Returns (), b1)"
  shows "b_errors b \<le> b_errors b1"
proof -
  obtain pods m where "AllPods (b_model b) = (pods, m)" by (metis prod.collapse)
  with assms(2) have "testenv_Test (basic_features E PF namespace) ([], pods) (b\<lparr>b_model := m, b_services := []\<rparr>) = (Returns (), b1)"
    by (simp add: TestBasicService_def run_bind_def all_pods_def on_board_def var_services_def put_board_def)
  from framework_lawD(1) [OF assms(1) adds_basic_features this] show ?thesis by simp
qed

text \<open>
  C7. On a cluster that answers its commands steadily, when the setup of the suite and then
  \<open>TestBasicService\<close> run to their ends and no error is recorded, then every pod of the suite reaches
  every one, on both protocols, through the services of each of the features ClusterIP, NodePort and LoadBalancer
  that the flags of the run select: through a ClusterIP service, through a NodePort service on its host, through the
  LoadBalancer service of the protocol (at the empty address when it got none and that of the other protocol did). Each service selects the pod that is reached, was created, got an endpoint,
  and delivered the address or port, by calls that followed one another without an error. The e2e
  framework is a parameter: it takes no error back, and a test that passes has run the features it selects.
\<close>

theorem suite_services_reach:
  assumes E: "wrapf_law E" "order_law E" "steady E ans" and law: "framework_law testenv_Test selected"
    and run: "run_bind (suite_setup E PF namespace) (\<lambda>_. TestBasicService testenv_Test E PF namespace) b = (Returns (), b2)"
      "b_errors b2 = b_errors b"
  shows "\<exists>b1. suite_setup E PF namespace b = (Returns (), b1) \<and>
           (let h = k_pods (b_kube b1) in
            \<forall>f \<in> set (all_refs (m_Namespaces (b_model b1))). \<forall>t \<in> set (all_refs (m_Namespaces (b_model b1))).
            \<forall>proto \<in> {ProtocolTCP, ProtocolUDP}. services_reach E ans selected (h ! f) (h ! t) proto)"
proof -
  let ?nodes = "fst (fst (GetReadyNodes E (k_world (b_kube b))))"
  from run(1) obtain b1 where
    s: "suite_setup E PF namespace b = (Returns (), b1)" "TestBasicService testenv_Test E PF namespace b1 = (Returns (), b2)"
    by (auto simp: run_bind_Returns)
  note ready = suite_setup_run [OF E refl s(1)]
  have "\<forall>n \<in> set (suite_pods ?nodes). CHR ''/'' \<notin> set n" using suite_pods_no_slash by blast
  note test = suite_ready_test [OF ready this]
  have "b_errors b2 = b_errors b1"
    using only_adds_returns [OF only_adds_suite s(1)] TestBasicService_adds [OF law s(2)] run(2) by simp
  note reach = basic_services_reach [OF E(2,3) law test s(2) this]
  have "set (fst (AllPods (b_model b1))) = set (all_refs (m_Namespaces (b_model b1)))"
    using ready by (intro mset_eq_setD) (simp add: suite_ready_def)
  with s(1) reach show ?thesis by (simp add: Let_def)
qed

end
