(* ===== verification/Template_Features.thy ===== *)
theory Template_Features
  imports Service_Verdicts
begin

text \<open>
  The features over one service made from a template: the endless service, which nothing may reach,
  and the hairpin service, which its feature never asks for.
\<close>

section \<open>Expectations set by peers\<close>

lemma expects_cong:
  "expects h pods r X \<Longrightarrow> (\<And>f t. f \<in> set pods \<Longrightarrow> t \<in> set pods \<Longrightarrow> X f t = Y f t) \<Longrightarrow> expects h pods r Y"
  by (simp add: expects_def)

lemma expect_peer_expects:
  assumes "expects (k_pods (b_kube b)) pods r X" and "\<forall>x \<in> set pods. slash_free (k_pods (b_kube b) ! x)"
  shows "\<exists>r'. expect_peer from to c r b = (Returns r', b) \<and>
           expects (k_pods (b_kube b)) pods r' (\<lambda>f t. if peer_matches from (k_pods (b_kube b) ! f) \<and>
             peer_matches to (k_pods (b_kube b) ! t) then c else X f t)"
proof -
  let ?h = "k_pods (b_kube b)"
  have r: "reach_over (pod_names ?h (r_Pods r)) r" "\<forall>x \<in> set (r_Pods r). slash_free (?h ! x)" "r_Pods r = pods"
    using assms by (simp_all add: expects_def)
  from ExpectPeer_expected [OF r(1,2), of "from" to c] obtain r' where
    r': "ExpectPeer ?h from to c r = Inr r'" "reach_over (pod_names ?h pods) r'" "r_Pods r' = pods"
      "\<forall>f \<in> set pods. \<forall>t \<in> set pods. tt_Get (Expected r') (PodString (?h ! f)) (PodString (?h ! t)) =
         (if peer_matches from (?h ! f) \<and> peer_matches to (?h ! t) then c
          else tt_Get (Expected r) (PodString (?h ! f)) (PodString (?h ! t)))"
    unfolding r(3) by blast
  then show ?thesis
    using assms(1) by (intro exI [of _ r']) (simp add: expect_peer_def on_board_def expects_def)
qed

lemma new_reachability_expects:
  "\<exists>r. new_reachability pods d b = (Returns r, b) \<and> expects (k_pods (b_kube b)) pods r (\<lambda>_ _. d)"
  by (simp add: new_reachability_def on_board_def expects_new)

text \<open>What a test needs of the names of the pods: no slash in them, all in the namespace.\<close>

definition pods_named :: "string \<Rightarrow> pod_store \<Rightarrow> pod_ref list \<Rightarrow> bool" where
  "pods_named namespace h pods \<longleftrightarrow>
     (\<forall>r \<in> set pods. slash_free (h ! r) \<and> p_Namespace (h ! r) = namespace \<and> p_Name (h ! r) \<noteq> '''')"

lemma pods_named_addressed:
  assumes "\<forall>r. addressed (h ! r) (h1 ! r)" and "pods_named namespace h pods"
  shows "pods_named namespace h1 pods"
proof -
  have "slash_free q = slash_free p" if "addressed p q" for p q
    using that by (cases p; cases q; simp add: addressed_def p_Reset_def slash_free_def)
  then have "slash_free (h1 ! r) = slash_free (h ! r)" for r using assms(1) by blast
  moreover have "p_Namespace (h1 ! r) = p_Namespace (h ! r)" "p_Name (h1 ! r) = p_Name (h ! r)" for r
    using assms(1) addressed_sel(1,2) by blast+
  ultimately show ?thesis using assms(2) by (simp add: pods_named_def)
qed

lemma test_ready_addressed:
  assumes "test_ready pods b" and "\<forall>r. addressed (k_pods (b_kube b) ! r) (k_pods (b_kube b1) ! r)"
    and "b_model b1 = b_model b" and "length (k_pods (b_kube b1)) = length (k_pods (b_kube b))"
  shows "test_ready pods b1"
proof -
  have "p_SkipProbe (k_pods (b_kube b1) ! r) \<Longrightarrow> p_SkipProbe (k_pods (b_kube b) ! r)" for r
    using assms(2) addressed_sel(6) by blast
  then show ?thesis
    using assms(1,3,4) pods_ready_addressed [OF assms(2)] unfolding test_ready_def by auto
qed

section \<open>The endless service\<close>

lemma endless_assess_steady:
  assumes E: "order_law E" "steady E ans" and ready: "test_ready pods b"
    and named: "pods_named namespace (k_pods (b_kube b)) pods"
  shows "\<exists>b1. endless_assess E PF namespace b = (Returns (), b1) \<and> k_pods (b_kube b1) = k_pods (b_kube b) \<and>
           b_model b1 = snd (AllPods (b_model b)) \<and>
           b_errors b1 = b_errors b + of_bool (\<exists>f \<in> set pods. \<exists>t \<in> set pods.
             reaches ans (k_pods (b_kube b) ! f) (p_clusterIP (k_pods (b_kube b) ! t)) (sint (p_ToPort (k_pods (b_kube b) ! t)))
               ProtocolTCP)"
proof -
  let ?h = "k_pods (b_kube b)" and ?p = "\<lparr>peer_Namespace = namespace, peer_Pod = ''''\<rparr>"
  obtain m1 where a: "AllPods (b_model b) = (pods, m1)" using ready by (metis prod.collapse test_ready_def)
  let ?b = "b\<lparr>b_model := m1\<rparr>"
  have pods: "all_pods b = (Returns pods, ?b)" by (simp add: all_pods_def on_board_def a)
  obtain r where r: "new_reachability pods True ?b = (Returns r, ?b)" "expects ?h pods r (\<lambda>_ _. True)"
    using new_reachability_expects [of pods True ?b] by auto
  have "\<forall>x \<in> set pods. slash_free (k_pods (b_kube ?b) ! x)" using named by (simp add: pods_named_def)
  from expect_peer_expects [of ?b, OF _ this, of r "\<lambda>_ _. True" ?p ?p False] r(2) obtain r' where
    r': "expect_peer ?p ?p False r ?b = (Returns r', ?b)"
      "expects ?h pods r' (\<lambda>f t. if peer_matches ?p (?h ! f) \<and> peer_matches ?p (?h ! t) then False else True)"
    by auto
  have "expects ?h pods r' (\<lambda>_ _. False)"
    by (rule expects_cong [OF r'(2)]) (use named in \<open>simp add: pods_named_def peer_matches_def\<close>)
  then have exp: "expects (k_pods (b_kube ?b)) pods r' (\<lambda>_ _. False)" by simp
  have a1: "AllPods (b_model ?b) = (pods, m1)" using AllPods_cached_again [OF a] by simp
  have pr: "pods_ready (k_pods (b_kube ?b)) pods" using ready by (simp add: test_ready_def)
  let ?job = "\<lambda>f t. make_job ?h m1 \<lparr>tc_ToPort = 0, tc_Protocol = ProtocolTCP, tc_Reachability = None,
      tc_ServiceType = ClusterIP\<rparr> False False f t"
  from judge_steady [OF E a1 pr exp, of PF 0 ProtocolTCP ClusterIP False False] obtain w r1 where
    j: "judge E PF 0 ProtocolTCP ClusterIP r' False False ?b = (Returns r1, ?b\<lparr>b_kube := (b_kube b)\<lparr>k_world := w\<rparr>,
         b_errors := b_errors b + of_bool (\<exists>f \<in> set pods. \<exists>t \<in> set pods. answer ans ?h (?job f t))\<rparr>)"
    by auto
  have "answer ans ?h (?job f t) \<longleftrightarrow> reaches ans (?h ! f) (p_clusterIP (?h ! t)) (sint (p_ToPort (?h ! t))) ProtocolTCP"
    if "t \<in> set pods" for f t
    using ready that
    by (simp add: test_ready_def answer_def Let_def reaches_def probe_address_def pj_GetServiceType_def pod_accessors)
       (simp add: make_job_def pod_accessors)
  then have iff: "(\<exists>f \<in> set pods. \<exists>t \<in> set pods. answer ans ?h (?job f t)) \<longleftrightarrow> (\<exists>f \<in> set pods. \<exists>t \<in> set pods.
      reaches ans (?h ! f) (p_clusterIP (?h ! t)) (sint (p_ToPort (?h ! t))) ProtocolTCP)" by blast
  show ?thesis
    by (simp add: endless_assess_def run_bind_def pods r(1) r'(1) j iff run_return_def a)
qed

text \<open>A write to every pod of a list that can be repeated without change.\<close>

lemma set_pod_twice: "run_bind (set_pod r f) (\<lambda>_. set_pod r g) = set_pod r (\<lambda>p. g (f p))"
proof
  fix b :: "'a board"
  show "run_bind (set_pod r f) (\<lambda>_. set_pod r g) b = set_pod r (\<lambda>p. g (f p)) b"
    by (cases "r < length (k_pods (b_kube b))")
      (simp_all add: run_bind_def set_pod_def put_board_def update_pod_def list_update_beyond)
qed

lemma run_each_set_pod_once:
  "run_each (\<lambda>r. set_pod r u) rs b =
     (Returns (), b\<lparr>b_kube := (b_kube b)\<lparr>k_pods := fold (\<lambda>r h. h[r := u (h ! r)]) rs (k_pods (b_kube b))\<rparr>\<rparr>)"
  by (induction rs arbitrary: b) (simp_all add: run_bind_def set_pod_def put_board_def update_pod_def run_return_def)

lemma fold_writes:
  assumes "\<And>p. u (u p) = u p"
  shows "fold (\<lambda>r h. h[r := u (h ! r)]) rs h ! x = (if x \<in> set rs \<and> x < length h then u (h ! x) else h ! x)"
    and "length (fold (\<lambda>r h. h[r := u (h ! r)]) rs h) = length h"
proof -
  show "fold (\<lambda>r h. h[r := u (h ! r)]) rs h ! x = (if x \<in> set rs \<and> x < length h then u (h ! x) else h ! x)"
  proof (induction rs arbitrary: h)
    case (Cons r rs)
    then show ?case by (cases "r < length h") (auto simp: nth_list_update assms list_update_beyond)
  qed simp
  show "length (fold (\<lambda>r h. h[r := u (h ! r)]) rs h) = length h" by (induction rs arbitrary: h) simp_all
qed

lemma from_template_some:
  assumes "from_template E t b = (Returns (name, Some svc, ip, e), b1)"
  shows "\<exists>w w1 obj w2. s_Create E svc w = ((obj, None), w1) \<and> WaitForClusterIP E svc w1 = Some (Inr (ip, None), w2)"
    and "ip \<noteq> ''''" and "e = None"
    and "s_service svc = template_service t (svc_count (b_sid b) + 1)"
    and "board_view b1 = board_view b"
  using assms
  by (auto simp: from_template_def CreateServiceFromTemplate_def Let_def SvcID_after_increase Kube_NewService_def board_view_def
      split: option.splits prod.splits sum.splits if_splits)

lemma endless_setup_returns:
  assumes "endless_setup E namespace pods b = (Returns (), b1)" and "\<forall>r \<in> set pods. r < length (k_pods (b_kube b))"
  shows "\<exists>svc ip w w1 obj w2. s_Create E svc w = ((obj, None), w1) \<and>
           WaitForClusterIP E svc w1 = Some (Inr (ip, None), w2) \<and> ip \<noteq> '''' \<and>
           s_service svc = template_service (endless_template namespace) (svc_count (b_sid b) + 1) \<and>
           b_services b1 = [Some svc] \<and> b_model b1 = b_model b \<and> b_errors b1 = b_errors b \<and>
           length (k_pods (b_kube b1)) = length (k_pods (b_kube b)) \<and>
           (\<forall>r. k_pods (b_kube b1) ! r =
              (if r \<in> set pods then SetToPort 80 (SetClusterIP ip (k_pods (b_kube b) ! r)) else k_pods (b_kube b) ! r))"
proof -
  obtain name svc' ip e c1 c2 c3 c4 where
    1: "make_services (length pods) b = (Returns (), c1)" and
    2: "from_template E (endless_template namespace) c1 = (Returns (name, svc', ip, e), c2)" and
    3: "error_if (e \<noteq> None) c2 = (Returns (), c3)" and
    4: "run_each (\<lambda>r. run_bind (set_pod r (SetClusterIP ip)) (\<lambda>_. set_pod r (SetToPort 80))) pods c3 = (Returns (), c4)" and
    5: "only_service svc' c4 = (Returns (), b1)"
    using assms(1) unfolding endless_setup_def run_bind_Returns split_paired_Ex ex_unit prod.case
    by (elim exE conjE) (rule that)
  obtain svc where svc: "svc' = Some svc" "b1 = c4\<lparr>b_services := [Some svc]\<rparr>" using 5 by (auto simp: only_service_def returns_iff)
  note t = from_template_some [OF 2 [unfolded svc(1)]]
  let ?u = "\<lambda>p. SetToPort 80 (SetClusterIP ip p)"
  have c4: "c4 = c3\<lparr>b_kube := (b_kube c3)\<lparr>k_pods := fold (\<lambda>r h. h[r := ?u (h ! r)]) pods (k_pods (b_kube c3))\<rparr>\<rparr>"
    using 4 unfolding set_pod_twice run_each_set_pod_once by simp
  have idem: "?u (?u p) = ?u p" for p by (simp add: SetToPort_def SetClusterIP_def)
  have c3: "k_pods (b_kube c3) = k_pods (b_kube b)" "b_model c3 = b_model b" "b_errors c3 = b_errors b" "b_sid c1 = b_sid b"
    using 1 3 t(3,5) by (auto simp: make_services_def returns_iff board_view_def)
  have "k_pods (b_kube b1) ! r = (if r \<in> set pods then ?u (k_pods (b_kube b) ! r) else k_pods (b_kube b) ! r)" for r
    using assms(2) fold_writes(1) [of ?u, OF idem] by (simp add: svc(2) c4 c3)
  moreover have "length (k_pods (b_kube b1)) = length (k_pods (b_kube b))"
    using fold_writes(2) [of ?u, OF idem] by (simp add: svc(2) c4 c3)
  ultimately show ?thesis
    using t(1,2,4) c3(2-4) by (intro exI [of _ svc] exI [of _ ip]) (simp add: svc(2) c4)
qed

text \<open>
  C13. On a ready board whose pods, at least one, are all in the namespace of the test: when the setup of the
  endless feature returns, it recorded no error, it created one service, which selects nothing, and
  every pod carries the address that the wait for that service delivered then, and port 80. The assessment that follows
  on a steady cluster never panics and never ends the test; it records an error exactly when some pod
  reaches that address on port 80, that is, when the service without endpoints answers.
\<close>

theorem endless_feature_verdict:
  assumes E: "order_law E" "steady E ans" and ready: "test_ready pods b"
    and named: "pods_named namespace (k_pods (b_kube b)) pods" and some: "pods \<noteq> []"
    and run: "endless_setup E namespace pods b = (Returns (), b1)"
  shows "\<exists>svc ip w w1 obj w2 b2. b_errors b1 = b_errors b \<and> b_services b1 = [Some svc] \<and>
           ksSelector (s_service svc) = Map.empty \<and> ksName (s_service svc) = ''endless-'' @ Itoa (svc_count (b_sid b) + 1) \<and>
           s_Create E svc w = ((obj, None), w1) \<and> WaitForClusterIP E svc w1 = Some (Inr (ip, None), w2) \<and> ip \<noteq> '''' \<and>
           (\<forall>r \<in> set pods. p_clusterIP (k_pods (b_kube b1) ! r) = ip \<and> p_ToPort (k_pods (b_kube b1) ! r) = 80) \<and>
           endless_assess E PF namespace b1 = (Returns (), b2) \<and>
           b_errors b2 = b_errors b + of_bool (\<exists>f \<in> set pods. reaches ans (k_pods (b_kube b) ! f) ip 80 ProtocolTCP)"
proof -
  let ?h = "k_pods (b_kube b)" and ?h1 = "k_pods (b_kube b1)"
  have "\<forall>r \<in> set pods. r < length ?h" using ready by (simp add: test_ready_def)
  from endless_setup_returns [OF run this] obtain svc ip w w1 obj w2 where
    s: "s_Create E svc w = ((obj, None), w1)" "WaitForClusterIP E svc w1 = Some (Inr (ip, None), w2)" "ip \<noteq> ''''"
      "s_service svc = template_service (endless_template namespace) (svc_count (b_sid b) + 1)" and
    b1: "b_services b1 = [Some svc]" "b_model b1 = b_model b" "b_errors b1 = b_errors b" "length ?h1 = length ?h"
      "\<forall>r. ?h1 ! r = (if r \<in> set pods then SetToPort 80 (SetClusterIP ip (?h ! r)) else ?h ! r)" by blast
  have a: "\<forall>r. addressed (?h ! r) (?h1 ! r)"
    using addressed_trans [OF addressed_updates(2) addressed_updates(3)] unfolding b1(5) [rule_format] by auto
  note ready1 = test_ready_addressed [OF ready a b1(2,4)] and named1 = pods_named_addressed [OF a named]
  have carry: "p_clusterIP (?h1 ! r) = ip" "p_ToPort (?h1 ! r) = 80" if "r \<in> set pods" for r
    using that by (simp_all add: b1(5) SetToPort_def SetClusterIP_def)
  have port: "sint (80 :: int32) = 80" by simp
  have "reaches ans (?h1 ! f) (p_clusterIP (?h1 ! t)) (sint (p_ToPort (?h1 ! t))) ProtocolTCP =
      reaches ans (?h ! f) ip 80 ProtocolTCP" if "t \<in> set pods" for f t
  proof -
    have "reaches ans (?h1 ! f) = reaches ans (?h ! f)" by (rule reaches_addressed) (simp add: a)
    then show ?thesis by (simp add: carry [OF that])
  qed
  then have iff: "(\<exists>f \<in> set pods. \<exists>t \<in> set pods.
      reaches ans (?h1 ! f) (p_clusterIP (?h1 ! t)) (sint (p_ToPort (?h1 ! t))) ProtocolTCP) \<longleftrightarrow>
      (\<exists>f \<in> set pods. reaches ans (?h ! f) ip 80 ProtocolTCP)" using some by (meson ex_in_conv set_empty)
  from endless_assess_steady [OF E ready1 named1, of PF] obtain b2 where
    "endless_assess E PF namespace b1 = (Returns (), b2)"
    "b_errors b2 = b_errors b + of_bool (\<exists>f \<in> set pods. reaches ans (?h ! f) ip 80 ProtocolTCP)"
    unfolding iff b1(3) by blast
  moreover have "ksSelector (s_service svc) = Map.empty" "ksName (s_service svc) = ''endless-'' @ Itoa (svc_count (b_sid b) + 1)"
    by (simp_all add: s(4) template_service_def endless_template_def)
  ultimately show ?thesis using s b1(1,3) carry by blast
qed

section \<open>The hairpin service\<close>

lemma hairpin_assess_steady:
  assumes E: "order_law E" "steady E ans" and ready: "test_ready pods b"
    and named: "pods_named namespace (k_pods (b_kube b)) pods" and some: "pods \<noteq> []"
  shows "\<exists>b1. hairpin_assess E PF namespace pods b = (Returns (), b1) \<and>
           b_errors b1 = b_errors b + of_bool (\<exists>f \<in> set pods. \<exists>t \<in> set pods.
             \<not> reaches ans (k_pods (b_kube b) ! f) (p_clusterIP (k_pods (b_kube b) ! t)) 80 ProtocolTCP)"
proof -
  let ?h = "k_pods (b_kube b)" and ?first = "pods ! 0"
  let ?from = "\<lparr>peer_Namespace = namespace, peer_Pod = ''''\<rparr>" and ?to = "\<lparr>peer_Namespace = namespace, peer_Pod = p_Name (?h ! ?first)\<rparr>"
  obtain m1 where a: "AllPods (b_model b) = (pods, m1)" using ready by (metis prod.collapse test_ready_def)
  let ?b = "b\<lparr>b_model := m1\<rparr>"
  have pods: "all_pods b = (Returns pods, ?b)" by (simp add: all_pods_def on_board_def a)
  have first: "pod_at pods 0 ?b = (Returns ?first, ?b)" "read_pod ?first (\<lambda>p. Inr (p_Name p)) ?b = (Returns (p_Name (?h ! ?first)), ?b)"
    using some by (simp_all add: pod_at_def read_pod_def on_board_def)
  obtain r where r: "new_reachability pods True ?b = (Returns r, ?b)" "expects ?h pods r (\<lambda>_ _. True)"
    using new_reachability_expects [of pods True ?b] by auto
  have "\<forall>x \<in> set pods. slash_free (k_pods (b_kube ?b) ! x)" using named by (simp add: pods_named_def)
  from expect_peer_expects [of ?b, OF _ this, of r "\<lambda>_ _. True" ?from ?to True] r(2) obtain r' where
    r': "expect_peer ?from ?to True r ?b = (Returns r', ?b)"
      "expects ?h pods r' (\<lambda>f t. if peer_matches ?from (?h ! f) \<and> peer_matches ?to (?h ! t) then True else True)"
    by auto
  then have exp: "expects (k_pods (b_kube ?b)) pods r' (\<lambda>_ _. True)" by simp
  have a1: "AllPods (b_model ?b) = (pods, m1)" using AllPods_cached_again [OF a] by simp
  have pr: "pods_ready (k_pods (b_kube ?b)) pods" using ready by (simp add: test_ready_def)
  let ?job = "\<lambda>f t. make_job ?h m1 \<lparr>tc_ToPort = 80, tc_Protocol = ProtocolTCP, tc_Reachability = None,
      tc_ServiceType = ClusterIP\<rparr> False False f t"
  from judge_steady [OF E a1 pr exp, of PF 80 ProtocolTCP ClusterIP False False] obtain w r1 where
    j: "judge E PF 80 ProtocolTCP ClusterIP r' False False ?b = (Returns r1, ?b\<lparr>b_kube := (b_kube b)\<lparr>k_world := w\<rparr>,
         b_errors := b_errors b + of_bool (\<exists>f \<in> set pods. \<exists>t \<in> set pods. \<not> answer ans ?h (?job f t))\<rparr>)"
    by auto
  have "answer ans ?h (?job f t) \<longleftrightarrow> reaches ans (?h ! f) (p_clusterIP (?h ! t)) 80 ProtocolTCP"
    if "t \<in> set pods" for f t
    using ready that
    by (simp add: test_ready_def answer_def Let_def reaches_def probe_address_def pj_GetServiceType_def pod_accessors)
       (simp add: make_job_def pod_accessors)
  then have iff: "(\<exists>f \<in> set pods. \<exists>t \<in> set pods. \<not> answer ans ?h (?job f t)) \<longleftrightarrow> (\<exists>f \<in> set pods. \<exists>t \<in> set pods.
      \<not> reaches ans (?h ! f) (p_clusterIP (?h ! t)) 80 ProtocolTCP)" by blast
  show ?thesis
    by (simp add: hairpin_assess_def run_bind_def pods r(1) first r'(1) j iff run_return_def)
qed

lemma hairpin_setup_writes:
  assumes "hairpin_setup E namespace pods b = (Returns (), b1)"
  shows "\<exists>svc ip name w w1 obj w2. s_Create E svc w = ((obj, None), w1) \<and> WaitForClusterIP E svc w1 = Some (Inr (ip, None), w2) \<and>
           ip \<noteq> '''' \<and> b_services b1 = [Some svc] \<and> b_model b1 = b_model b \<and> b_errors b1 = b_errors b \<and>
           k_pods (b_kube b1) = (k_pods (b_kube b))[pods ! 0 := SetServiceName name (k_pods (b_kube b) ! (pods ! 0))]"
proof -
  obtain r c name svc' ip e c1 c2 c3 c4 c5 c6 where
    1: "make_services (length pods) b = (Returns (), c1)" and
    2: "pod_at pods 0 c1 = (Returns r, c2)" and 3: "read_pod r first_container c2 = (Returns c, c3)" and
    4: "from_template E (hairpin_template namespace (c_Protocol c)) c3 = (Returns (name, svc', ip, e), c4)" and
    5: "error_if (e \<noteq> None) c4 = (Returns (), c5)" and 6: "set_pod r (SetServiceName name) c5 = (Returns (), c6)" and
    7: "only_service svc' c6 = (Returns (), b1)"
    using assms unfolding hairpin_setup_def run_bind_Returns split_paired_Ex ex_unit prod.case
    by (elim exE conjE) (rule that)
  obtain svc where svc: "svc' = Some svc" "b1 = c6\<lparr>b_services := [Some svc]\<rparr>" using 7 by (auto simp: only_service_def returns_iff)
  note t = from_template_some [OF 4 [unfolded svc(1)]]
  have r: "r = pods ! 0" "c2 = c1" using 2 by (auto simp: pod_at_def returns_iff go_bind_eq_Inr_iff split: if_splits)
  have "c3 = c2" using 3 by (auto simp: read_pod_def returns_iff go_bind_eq_Inr_iff)
  then have c5: "k_pods (b_kube c5) = k_pods (b_kube b)" "b_model c5 = b_model b" "b_errors c5 = b_errors b"
    using 1 5 t(3,5) r(2) by (auto simp: make_services_def returns_iff board_view_def)
  have "k_pods (b_kube b1) = (k_pods (b_kube b))[pods ! 0 := SetServiceName name (k_pods (b_kube b) ! (pods ! 0))]"
    "b_model b1 = b_model b" "b_errors b1 = b_errors b" "b_services b1 = [Some svc]"
    using 6 c5 by (auto simp: svc(2) r(1) returns_iff update_pod_def)
  with t(1,2) show ?thesis by blast
qed

text \<open>
  C33. The hairpin feature does not test its service. Its setup creates it, waits for its address and then
  keeps only its name, in the first pod; its assessment probes the cluster IPs of the pods, which are those
  they had before. On a ready board of a steady cluster whose pods, at least one, are all in the namespace of the
  test, the assessment records an error exactly when some pod does not reach some pod at that old address, and the same as if the setup had
  never been run; the address of the service plays no part.
\<close>

theorem hairpin_ignores_its_service:
  assumes E: "order_law E" "steady E ans" and ready: "test_ready pods b"
    and named: "pods_named namespace (k_pods (b_kube b)) pods" and some: "pods \<noteq> []"
    and run: "hairpin_setup E namespace pods b = (Returns (), b1)"
  shows "\<exists>svc ip w w1 obj w2 b2 b3. b_services b1 = [Some svc] \<and> s_Create E svc w = ((obj, None), w1) \<and>
           WaitForClusterIP E svc w1 = Some (Inr (ip, None), w2) \<and> ip \<noteq> '''' \<and>
           (\<forall>r. p_clusterIP (k_pods (b_kube b1) ! r) = p_clusterIP (k_pods (b_kube b) ! r)) \<and>
           hairpin_assess E PF namespace pods b1 = (Returns (), b2) \<and>
           b_errors b2 = b_errors b + of_bool (\<exists>f \<in> set pods. \<exists>t \<in> set pods.
             \<not> reaches ans (k_pods (b_kube b) ! f) (p_clusterIP (k_pods (b_kube b) ! t)) 80 ProtocolTCP) \<and>
           hairpin_assess E PF namespace pods b = (Returns (), b3) \<and> b_errors b3 = b_errors b2"
proof -
  let ?h = "k_pods (b_kube b)" and ?h1 = "k_pods (b_kube b1)"
  from hairpin_setup_writes [OF run] obtain svc ip name w w1 obj w2 where
    s: "s_Create E svc w = ((obj, None), w1)" "WaitForClusterIP E svc w1 = Some (Inr (ip, None), w2)" "ip \<noteq> ''''" and
    b1: "b_services b1 = [Some svc]" "b_model b1 = b_model b" "b_errors b1 = b_errors b"
      "?h1 = ?h[pods ! 0 := SetServiceName name (?h ! (pods ! 0))]" by (elim exE conjE) (rule that)
  have same: "f (?h1 ! r) = f (?h ! r)" if "\<And>p. f (SetServiceName name p) = f p" for f :: "pod \<Rightarrow> 'val" and r
    unfolding b1(4) by (rule nth_update_keeps) (rule that)
  have ip: "p_clusterIP (?h1 ! r) = p_clusterIP (?h ! r)" for r by (rule same) (simp add: SetServiceName_def)
  have a: "\<forall>r. addressed (?h ! r) (?h1 ! r)"
  proof
    fix r show "addressed (?h ! r) (?h1 ! r)"
      unfolding b1(4) using addressed_updates(5) by (cases "r = pods ! 0"; cases "r < length ?h") (simp_all add: list_update_beyond)
  qed
  have len: "length ?h1 = length ?h" by (simp add: b1(4))
  have "reaches ans (?h1 ! f) = reaches ans (?h ! f)" for f by (rule reaches_addressed) (simp add: a)
  with hairpin_assess_steady [OF E test_ready_addressed [OF ready a b1(2) len] pods_named_addressed [OF a named] some, of PF]
  obtain b2 where "hairpin_assess E PF namespace pods b1 = (Returns (), b2)"
    "b_errors b2 = b_errors b + of_bool (\<exists>f \<in> set pods. \<exists>t \<in> set pods. \<not> reaches ans (?h ! f) (p_clusterIP (?h ! t)) 80 ProtocolTCP)"
    by (auto simp: ip b1(3))
  moreover from hairpin_assess_steady [OF E ready named some, of PF] obtain b3 where
    "hairpin_assess E PF namespace pods b = (Returns (), b3)"
    "b_errors b3 = b_errors b + of_bool (\<exists>f \<in> set pods. \<exists>t \<in> set pods. \<not> reaches ans (?h ! f) (p_clusterIP (?h ! t)) 80 ProtocolTCP)"
    by blast
  ultimately show ?thesis using s b1(1) ip by auto
qed

text \<open>A cluster on which the setup returns and every command succeeds.\<close>

definition hairpin_client :: "nat client" where
  "hairpin_client = live_client\<lparr>watchNext := \<lambda>ch w.
     (WatchEvent (WService (demo_service\<lparr>ksName := ''hairpin-1''\<rparr>)), w)\<rparr>"

lemma hairpin_laws: "order_law hairpin_client" "steady hairpin_client (\<lambda>_. ('''', None))"
  by (rule live_like_laws; simp add: hairpin_client_def)+

lemma hairpin_returns: "fst (hairpin_setup hairpin_client ''x'' [0] serving_board) = Returns ()"
proof -
  have ip: "watch_loop hairpin_client (clusterip_handle ''hairpin-1'') f 0 () w = Some (Inr (''10.96.0.1'', None), w)" for f w
    by (subst watch_loop.simps) (simp add: hairpin_client_def clusterip_handle_def demo_service_def zero_service_def)
  have calls: "servicesWatch hairpin_client ns w = ((Some 0, None), w)" "servicesCreate hairpin_client ns s w = ((s, None), w)"
    for ns s w by (simp_all add: hairpin_client_def live_client_def demo_client_def)
  show ?thesis
    by (simp add: hairpin_setup_def run_bind_def make_services_def step_defs pod_at_def read_pod_def first_container_def
        from_template_def CreateServiceFromTemplate_def Let_def SvcID_after_increase template_service_def hairpin_template_def
        s_Create_def Kube_NewService_def calls WaitForClusterIP_def ip Itoa_one only_service_def serving_board_def
        demo_board_def demo_store_def demo_board_pod_def new_pod_def svc_count_def)
qed

theorem hairpin_ignores_its_service_witness:
  "\<exists>b1 b2. hairpin_setup hairpin_client ''x'' [0] serving_board = (Returns (), b1) \<and>
     p_clusterIP (k_pods (b_kube b1) ! 0) = p_clusterIP (k_pods (b_kube serving_board) ! 0) \<and>
     hairpin_assess hairpin_client (\<lambda>_. (Fin 0, None)) ''x'' [0] b1 = (Returns (), b2) \<and> b_errors b2 = 0"
proof -
  obtain b1 where b1: "hairpin_setup hairpin_client ''x'' [0] serving_board = (Returns (), b1)"
    using hairpin_returns by (metis prod.collapse)
  have ready: "test_ready [0] serving_board" using serving_board_facts by (simp add: test_ready_def)
  have named: "pods_named ''x'' (k_pods (b_kube serving_board)) [0]"
    by (simp add: pods_named_def slash_free_def serving_board_def demo_board_def demo_store_def demo_board_pod_def new_pod_def)
  have live: "reaches (\<lambda>_. ('''', None)) p addr port proto" for p addr port proto by (simp add: reaches_def)
  from hairpin_ignores_its_service [OF hairpin_laws ready named _ b1, of "\<lambda>_. (Fin 0, None)"] b1 show ?thesis
    by (auto simp: live serving_board_facts(4))
qed

end
