(* ===== verification/Affinity.thy ===== *)
theory Affinity
  imports Template_Features
begin

text \<open>
  The assessment of session affinity: each pod's first answer through the service names the pod it
  has to reach from then on, three more times on the same port and once on another.
\<close>

section \<open>The first answers\<close>

text \<open>What the service answers to a pod on a port: nothing when the connection fails.\<close>

definition nc_answer :: "(commandImpl \<Rightarrow> string \<times> err) \<Rightarrow> pod \<Rightarrow> string \<Rightarrow> int \<Rightarrow> string option" where
  "nc_answer ans p ip port =
     (case ans (NewNcClient (p_Namespace p) (p_Name p) (c_Name (hd (p_Containers p))) ip port ProtocolTCP) of
        (out, e) \<Rightarrow> if e = None then Some (TrimSpace out) else None)"

definition first_peer :: "string option \<Rightarrow> string" where
  "first_peer a = (case a of None \<Rightarrow> '''' | Some x \<Rightarrow> x)"

lemma nc_probe_steady:
  assumes "wrapf_law E" "steady E ans"
  shows "\<exists>cmd w1. ProbeConnectivityWithNc E (p_Namespace p) (p_Name p) (c_Name (hd (p_Containers p))) ip ProtocolTCP port w =
           ((nc_answer ans p ip port \<noteq> None, first_peer (nc_answer ans p ip port), cmd, None), w1)"
proof -
  let ?c = "NewNcClient (p_Namespace p) (p_Name p) (c_Name (hd (p_Containers p))) ip port ProtocolTCP"
  obtain r w1 where r: "nc_retry E ?c 3 w = (r, w1)" by fastforce
  then have "r = nc_answer ans p ip port"
    using steady_nc [OF assms(2), of ?c w] by (cases "ans ?c") (simp add: nc_answer_def)
  with r have "nc_retry E ?c 3 w = (nc_answer ans p ip port, w1)" by simp
  then show ?thesis
    by (cases "nc_answer ans p ip port") (auto simp: ProbeConnectivityWithNc_def Let_def first_peer_def wrapf_None [OF assms(1)])
qed

text \<open>The loop that collects them fails no pod for good: it records an error for each that gets no answer.\<close>

lemma affinity_peers_steady:
  assumes E: "wrapf_law E" "steady E ans"
    and "\<forall>r \<in> set rs. p_Containers (k_pods (b_kube b) ! r) \<noteq> [] \<and> p_Namespace (k_pods (b_kube b) ! r) = namespace"
  shows "\<exists>w. affinity_peers E namespace ip rs peers b =
           (Returns (fold (\<lambda>r. AList.update (p_Name (k_pods (b_kube b) ! r))
                       (first_peer (nc_answer ans (k_pods (b_kube b) ! r) ip 80))) rs peers),
            b\<lparr>b_kube := (b_kube b)\<lparr>k_world := w\<rparr>,
              b_errors := b_errors b + length (filter (\<lambda>r. nc_answer ans (k_pods (b_kube b) ! r) ip 80 = None) rs)\<rparr>)"
  using assms(3)
proof (induction rs arbitrary: peers b)
  case Nil
  then show ?case by (auto simp: run_return_def intro!: exI [of _ "k_world (b_kube b)"])
next
  case (Cons r rs)
  let ?p = "k_pods (b_kube b) ! r"
  have p: "p_Containers ?p \<noteq> []" "p_Namespace ?p = namespace" using Cons.prems by simp_all
  obtain cmd w1 where nc: "ProbeConnectivityWithNc E namespace (p_Name ?p) (c_Name (hd (p_Containers ?p))) ip ProtocolTCP 80
      (k_world (b_kube b)) = ((nc_answer ans ?p ip 80 \<noteq> None, first_peer (nc_answer ans ?p ip 80), cmd, None), w1)"
    using nc_probe_steady [OF E, of ?p ip 80 "k_world (b_kube b)"] p(2) by auto
  let ?b = "b\<lparr>b_kube := (b_kube b)\<lparr>k_world := w1\<rparr>, b_errors := b_errors b + of_bool (nc_answer ans ?p ip 80 = None)\<rparr>"
  have "\<forall>r \<in> set rs. p_Containers (k_pods (b_kube ?b) ! r) \<noteq> [] \<and> p_Namespace (k_pods (b_kube ?b) ! r) = namespace"
    using Cons.prems by simp
  from Cons.IH [OF this, of "AList.update (p_Name ?p) (first_peer (nc_answer ans ?p ip 80)) peers"] obtain w where
    rest: "affinity_peers E namespace ip rs (AList.update (p_Name ?p) (first_peer (nc_answer ans ?p ip 80)) peers) ?b =
      (Returns (fold (\<lambda>r. AList.update (p_Name (k_pods (b_kube b) ! r))
                  (first_peer (nc_answer ans (k_pods (b_kube b) ! r) ip 80))) (r # rs) peers),
       b\<lparr>b_kube := (b_kube b)\<lparr>k_world := w\<rparr>,
         b_errors := b_errors b + of_bool (nc_answer ans ?p ip 80 = None) +
           length (filter (\<lambda>r. nc_answer ans (k_pods (b_kube b) ! r) ip 80 = None) rs)\<rparr>)"
    by auto
  have read: "read_pod r (\<lambda>p. go_bind (first_container p) (\<lambda>c. Inr (p_Name p, c_Name c))) b =
      (Returns (p_Name ?p, c_Name (hd (p_Containers ?p))), b)"
    using p(1) by (simp add: read_pod_def on_board_def first_container_def split: list.split)
  have probe: "on_world (ProbeConnectivityWithNc E namespace (p_Name ?p) (c_Name (hd (p_Containers ?p))) ip ProtocolTCP 80) b =
      (Returns (nc_answer ans ?p ip 80 \<noteq> None, first_peer (nc_answer ans ?p ip 80), cmd, None),
       b\<lparr>b_kube := (b_kube b)\<lparr>k_world := w1\<rparr>\<rparr>)"
    by (simp add: on_world_def nc)
  show ?case
  proof (cases "nc_answer ans ?p ip 80")
    case None
    show ?thesis
      using rest by (intro exI [of _ w])
        (simp add: run_bind_def read probe error_if_def run_return_def t_Error_def put_board_def None)
  next
    case (Some y)
    show ?thesis
      using rest by (intro exI [of _ w]) (simp add: run_bind_def read probe error_if_def run_return_def Some)
  qed
qed

lemma update_new: "k \<notin> fst ` set xs \<Longrightarrow> AList.update k v xs = xs @ [(k, v)]"
  by (induction xs) auto

lemma fold_update_new:
  assumes "distinct (map k rs)" and "\<forall>r \<in> set rs. k r \<notin> fst ` set m"
  shows "fold (\<lambda>r. AList.update (k r) (v r)) rs m = m @ map (\<lambda>r. (k r, v r)) rs"
  using assms
proof (induction rs arbitrary: m)
  case (Cons r rs)
  have "AList.update (k r) (v r) m = m @ [(k r, v r)]" using Cons.prems(2) by (simp add: update_new)
  moreover have "\<forall>x \<in> set rs. k x \<noteq> k r" using Cons.prems(1) by (metis distinct.simps(2) image_eqI list.set_map list.simps(9))
  ultimately show ?case using Cons.IH [of "m @ [(k r, v r)]"] Cons.prems by simp
qed simp

section \<open>The expectation\<close>

lemma expect_peers_expects:
  assumes "expects (k_pods (b_kube b)) pods r X" and "\<forall>x \<in> set pods. slash_free (k_pods (b_kube b) ! x)"
  shows "\<exists>r'. expect_peers namespace ps r b = (Returns r', b) \<and>
           expects (k_pods (b_kube b)) pods r' (\<lambda>f t. X f t \<or> (\<exists>(from, to) \<in> set ps.
             peer_matches \<lparr>peer_Namespace = namespace, peer_Pod = from\<rparr> (k_pods (b_kube b) ! f) \<and>
             peer_matches \<lparr>peer_Namespace = namespace, peer_Pod = to\<rparr> (k_pods (b_kube b) ! t)))"
  using assms(1)
proof (induction ps arbitrary: r X)
  case Nil
  then show ?case by (simp add: run_return_def)
next
  case (Cons p ps)
  obtain x y where p: "p = (x, y)" by (cases p)
  let ?f = "\<lparr>peer_Namespace = namespace, peer_Pod = x\<rparr>" and ?t = "\<lparr>peer_Namespace = namespace, peer_Pod = y\<rparr>"
  obtain r1 where 1: "expect_peer ?f ?t True r b = (Returns r1, b)"
    "expects (k_pods (b_kube b)) pods r1 (\<lambda>f t. if peer_matches ?f (k_pods (b_kube b) ! f) \<and>
       peer_matches ?t (k_pods (b_kube b) ! t) then True else X f t)"
    using expect_peer_expects [OF Cons.prems assms(2), of ?f ?t True] by blast
  from Cons.IH [OF 1(2)] obtain r' where
    2: "expect_peers namespace ps r1 b = (Returns r', b)" and
    3: "expects (k_pods (b_kube b)) pods r' (\<lambda>f t. (if peer_matches ?f (k_pods (b_kube b) ! f) \<and>
         peer_matches ?t (k_pods (b_kube b) ! t) then True else X f t) \<or> (\<exists>(from, to) \<in> set ps.
             peer_matches \<lparr>peer_Namespace = namespace, peer_Pod = from\<rparr> (k_pods (b_kube b) ! f) \<and>
             peer_matches \<lparr>peer_Namespace = namespace, peer_Pod = to\<rparr> (k_pods (b_kube b) ! t)))" by blast
  show ?case
    by (rule exI [of _ r'], rule conjI, simp add: p run_bind_def 1(1) 2, rule expects_cong [OF 3]) (auto simp: p)
qed

text \<open>Each pod is expected to reach the pods that its first answer names; an empty answer names them all.\<close>

lemma expect_affinity_steady:
  assumes "order_law E" and "pods_named namespace (k_pods (b_kube b)) pods"
    and "distinct (map (\<lambda>r. p_Name (k_pods (b_kube b) ! r)) pods)"
  shows "\<exists>r w. expect_affinity E namespace pods (map (\<lambda>r. (p_Name (k_pods (b_kube b) ! r), ep r)) pods) b =
             (Returns r, b\<lparr>b_kube := (b_kube b)\<lparr>k_world := w\<rparr>\<rparr>) \<and>
           expects (k_pods (b_kube b)) pods r (\<lambda>f t. ep f = '''' \<or> ep f = p_Name (k_pods (b_kube b) ! t))"
proof -
  let ?h = "k_pods (b_kube b)"
  let ?peers = "map (\<lambda>r. (p_Name (?h ! r), ep r)) pods"
  obtain r0 where r0: "new_reachability pods False b = (Returns r0, b)" "expects ?h pods r0 (\<lambda>_ _. False)"
    using new_reachability_expects by blast
  obtain ks w where o: "goOrder E (length ?peers) (k_world (b_kube b)) = (ks, w)" by fastforce
  then have "mset (in_order ks ?peers) = mset ?peers" by (rule mset_goOrder [OF assms(1)])
  then have set: "set (in_order ks ?peers) = set ?peers" by (rule mset_eq_setD)
  let ?b = "b\<lparr>b_kube := (b_kube b)\<lparr>k_world := w\<rparr>\<rparr>"
  have "\<forall>x \<in> set pods. slash_free (k_pods (b_kube ?b) ! x)" using assms(2) by (simp add: pods_named_def)
  from expect_peers_expects [of ?b, OF _ this, of r0 "\<lambda>_ _. False" namespace "in_order ks ?peers"] r0(2) obtain r where
    r: "expect_peers namespace (in_order ks ?peers) r0 ?b = (Returns r, ?b)" and
    exp: "expects ?h pods r (\<lambda>f t. False \<or> (\<exists>(x, y) \<in> set (in_order ks ?peers).
             peer_matches \<lparr>peer_Namespace = namespace, peer_Pod = x\<rparr> (?h ! f) \<and>
             peer_matches \<lparr>peer_Namespace = namespace, peer_Pod = y\<rparr> (?h ! t)))" by auto
  have "expects ?h pods r (\<lambda>f t. ep f = '''' \<or> ep f = p_Name (?h ! t))"
  proof (rule expects_cong [OF exp])
    fix f t assume ft: "f \<in> set pods" "t \<in> set pods"
    have "x = f" if "x \<in> set pods" "p_Name (?h ! x) = p_Name (?h ! f)" for x
      using that ft(1) assms(3) by (auto simp: distinct_map dest: inj_onD)
    moreover have "p_Name (?h ! x) \<noteq> ''''" if "x \<in> set pods" for x using that assms(2) by (simp add: pods_named_def)
    moreover have "p_Namespace (?h ! f) = namespace" "p_Namespace (?h ! t) = namespace"
      using ft assms(2) by (simp_all add: pods_named_def)
    ultimately show "(False \<or> (\<exists>(x, y) \<in> set (in_order ks ?peers).
             peer_matches \<lparr>peer_Namespace = namespace, peer_Pod = x\<rparr> (?h ! f) \<and>
             peer_matches \<lparr>peer_Namespace = namespace, peer_Pod = y\<rparr> (?h ! t))) =
        (ep f = '''' \<or> ep f = p_Name (?h ! t))"
      using ft unfolding set peer_matches_def by (auto 4 3)
  qed
  moreover have "expect_affinity E namespace pods ?peers b = (Returns r, ?b)"
    using o by (simp add: expect_affinity_def run_bind_def r0(1) on_world_def r)
  ultimately show ?thesis by blast
qed

section \<open>The assessment\<close>

lemma validate_steady:
  assumes "order_law E" "steady E ans" and "AllPods (b_model b) = (pods, m1)"
    and "pods_ready (k_pods (b_kube b)) pods" and "expects (k_pods (b_kube b)) pods r X"
  shows "\<exists>x w. validate E PF \<lparr>tc_ToPort = toPort, tc_Protocol = proto, tc_Reachability = Some r, tc_ServiceType = kind\<rparr>
             ign reach False b = (Returns x, b\<lparr>b_model := m1, b_kube := (b_kube b)\<lparr>k_world := w\<rparr>\<rparr>)"
proof -
  have board: "ready_board (k_pods (b_kube b)) pods r"
    using assms(4,5) by (simp add: ready_board_def pods_ready_def expects_def)
  from Validate_steady [OF assms(1-3) board, of "\<lparr>tc_ToPort = toPort, tc_Protocol = proto, tc_Reachability = Some r,
      tc_ServiceType = kind\<rparr>" PF ign reach]
  show ?thesis by (auto simp: validate_def on_board_def ValidateOrFail_def)
qed

text \<open>One check on port 80: an error when some pod got no answer at first, or an empty one.\<close>

lemma affinity_check:
  assumes E: "order_law E" "steady E ans" and ready: "test_ready pods b"
    and named: "pods_named namespace (k_pods (b_kube b)) pods"
    and dist: "distinct (map (\<lambda>r. p_Name (k_pods (b_kube b) ! r)) pods)"
    and ip: "\<forall>r \<in> set pods. p_clusterIP (k_pods (b_kube b) ! r) = ip"
    and peers: "peers = map (\<lambda>r. (p_Name (k_pods (b_kube b) ! r), first_peer (nc_answer ans (k_pods (b_kube b) ! r) ip 80))) pods"
  shows "\<exists>b1. run_bind (expect_affinity E namespace pods peers) (\<lambda>r.
             run_bind (judge E PF 80 ProtocolTCP ClusterIP r False True) (\<lambda>_. run_return ())) b = (Returns (), b1) \<and>
           test_ready pods b1 \<and> k_pods (b_kube b1) = k_pods (b_kube b) \<and>
           b_errors b1 = b_errors b + of_bool (\<exists>r \<in> set pods. nc_answer ans (k_pods (b_kube b) ! r) ip 80 \<in> {None, Some ''''})"
proof -
  let ?h = "k_pods (b_kube b)"
  let ?a = "\<lambda>r. nc_answer ans (?h ! r) ip 80"
  obtain m1 where a: "AllPods (b_model b) = (pods, m1)" using ready by (metis prod.collapse test_ready_def)
  obtain r w where r: "expect_affinity E namespace pods peers b = (Returns r, b\<lparr>b_kube := (b_kube b)\<lparr>k_world := w\<rparr>\<rparr>)"
    "expects ?h pods r (\<lambda>f t. first_peer (?a f) = '''' \<or> first_peer (?a f) = p_Name (?h ! t))"
    using expect_affinity_steady [OF E(1) named dist, of "\<lambda>r. first_peer (?a r)"] unfolding peers by blast
  let ?b = "b\<lparr>b_kube := (b_kube b)\<lparr>k_world := w\<rparr>\<rparr>"
  have b: "AllPods (b_model ?b) = (pods, m1)" "pods_ready (k_pods (b_kube ?b)) pods"
    "expects (k_pods (b_kube ?b)) pods r (\<lambda>f t. first_peer (?a f) = '''' \<or> first_peer (?a f) = p_Name (?h ! t))"
    using a ready r(2) by (simp_all add: test_ready_def)
  let ?job = "\<lambda>f t. make_job ?h (b_model b) \<lparr>tc_ToPort = 80, tc_Protocol = ProtocolTCP, tc_Reachability = None,
      tc_ServiceType = ClusterIP\<rparr> True False f t"
  from judge_steady [OF E b, of PF 80 ProtocolTCP ClusterIP False True] obtain w2 r1 where
    j: "judge E PF 80 ProtocolTCP ClusterIP r False True ?b = (Returns r1, ?b\<lparr>b_model := m1, b_kube := (b_kube b)\<lparr>k_world := w2\<rparr>,
       b_errors := b_errors b + of_bool (\<exists>f \<in> set pods. \<exists>t \<in> set pods.
         (first_peer (?a f) = '''' \<or> first_peer (?a f) = p_Name (?h ! t)) \<noteq> answer ans ?h (?job f t))\<rparr>)"
    by auto
  have ans: "answer ans ?h (?job f t) \<longleftrightarrow> ?a f = Some (p_Name (?h ! t))" if "t \<in> set pods" for f t
    using ready ip that
    by (simp add: test_ready_def answer_def Let_def probe_address_def pj_GetServiceType_def pod_accessors nc_answer_def
        split: prod.splits) (auto simp: make_job_def)
  have name: "p_Name (?h ! t) \<noteq> ''''" if "t \<in> set pods" for t using named that by (simp add: pods_named_def)
  have key: "((first_peer x = '''' \<or> first_peer x = n) \<noteq> (x = Some n)) = (x \<in> {None, Some ''''})"
    if "n \<noteq> ''''" for x n
    using that by (cases x) (auto simp: first_peer_def)
  have "(\<exists>f \<in> set pods. \<exists>t \<in> set pods.
         (first_peer (?a f) = '''' \<or> first_peer (?a f) = p_Name (?h ! t)) \<noteq> answer ans ?h (?job f t)) =
      (\<exists>f \<in> set pods. \<exists>t \<in> set pods. ?a f \<in> {None, Some ''''})"
    by (intro bex_cong refl) (simp only: ans key [OF name])
  also have "\<dots> = (\<exists>r \<in> set pods. ?a r \<in> {None, Some ''''})" by blast
  finally have this: "(\<exists>f \<in> set pods. \<exists>t \<in> set pods.
         (first_peer (?a f) = '''' \<or> first_peer (?a f) = p_Name (?h ! t)) \<noteq> answer ans ?h (?job f t)) =
      (\<exists>r \<in> set pods. ?a r \<in> {None, Some ''''})" .
  note j = j [unfolded this]
  have "test_ready pods (b\<lparr>b_model := m1, b_kube := (b_kube b)\<lparr>k_world := w2\<rparr>, b_errors := e\<rparr>)" for e
    using ready AllPods_cached_again [OF a] by (simp add: test_ready_def)
  then show ?thesis by (simp add: run_bind_def r(1) j run_return_def)
qed

text \<open>The check on port 81 changes nothing that is judged.\<close>

lemma affinity_other_port:
  assumes E: "order_law E" "steady E ans" and ready: "test_ready pods b"
    and named: "pods_named namespace (k_pods (b_kube b)) pods"
    and dist: "distinct (map (\<lambda>r. p_Name (k_pods (b_kube b) ! r)) pods)"
    and peers: "peers = map (\<lambda>r. (p_Name (k_pods (b_kube b) ! r), e r)) pods"
  shows "\<exists>b1. run_bind (expect_affinity E namespace pods peers) (\<lambda>r.
             run_bind (validate E PF \<lparr>tc_ToPort = 81, tc_Protocol = ProtocolTCP, tc_Reachability = Some r,
                                      tc_ServiceType = ClusterIP\<rparr> False True False) (\<lambda>_. run_return ())) b = (Returns (), b1) \<and>
           k_pods (b_kube b1) = k_pods (b_kube b) \<and> b_errors b1 = b_errors b"
proof -
  obtain r w where r: "expect_affinity E namespace pods peers b = (Returns r, b\<lparr>b_kube := (b_kube b)\<lparr>k_world := w\<rparr>\<rparr>)"
    "expects (k_pods (b_kube b)) pods r (\<lambda>f t. e f = '''' \<or> e f = p_Name (k_pods (b_kube b) ! t))"
    using expect_affinity_steady [OF E(1) named dist, of e] unfolding peers by blast
  let ?b = "b\<lparr>b_kube := (b_kube b)\<lparr>k_world := w\<rparr>\<rparr>"
  obtain m1 where "AllPods (b_model ?b) = (pods, m1)" 
    using ready by (cases "AllPods (b_model b)") (simp add: test_ready_def)
  moreover have "pods_ready (k_pods (b_kube ?b)) pods" using ready by (simp add: test_ready_def)
  moreover have "expects (k_pods (b_kube ?b)) pods r (\<lambda>f t. e f = '''' \<or> e f = p_Name (k_pods (b_kube b) ! t))" using r(2) by simp
  ultimately obtain x w1 where
    "validate E PF \<lparr>tc_ToPort = 81, tc_Protocol = ProtocolTCP, tc_Reachability = Some r, tc_ServiceType = ClusterIP\<rparr>
       False True False ?b = (Returns x, ?b\<lparr>b_model := m1, b_kube := (b_kube ?b)\<lparr>k_world := w1\<rparr>\<rparr>)"
    using validate_steady [OF E] by blast
  then show ?thesis by (simp add: run_bind_def r(1) run_return_def)
qed

text \<open>
  C12. On a steady cluster, with pods that are told apart by their names and carry the address of the
  one service, the assessment of session affinity never panics and never ends the test. It records an error for
  each pod whose first connection fails, and three more exactly when some pod's first connection
  failed or was answered with nothing. Who answers, whether it is one of the pods behind the service, and what
  happens on port 81, is not judged.
\<close>

theorem affinity_feature_verdict:
  assumes E: "wrapf_law E" "order_law E" "steady E ans" and ready: "test_ready pods b"
    and named: "pods_named namespace (k_pods (b_kube b)) pods"
    and dist: "distinct (map (\<lambda>r. p_Name (k_pods (b_kube b) ! r)) pods)"
    and ip: "\<forall>r \<in> set (r0 # pods). p_clusterIP (k_pods (b_kube b) ! r) = ip"
  shows "\<exists>b1. affinity_assess E PF namespace (r0 # rest) pods b = (Returns (), b1) \<and>
           k_pods (b_kube b1) = k_pods (b_kube b) \<and>
           b_errors b1 = b_errors b +
             length (filter (\<lambda>r. nc_answer ans (k_pods (b_kube b) ! r) ip 80 = None) pods) +
             3 * of_bool (\<exists>r \<in> set pods. nc_answer ans (k_pods (b_kube b) ! r) ip 80 \<in> {None, Some ''''})"
proof -
  let ?h = "k_pods (b_kube b)"
  let ?a = "\<lambda>r. nc_answer ans (?h ! r) ip 80"
  let ?peers = "map (\<lambda>r. (p_Name (?h ! r), first_peer (?a r))) pods"
  let ?check = "run_bind (expect_affinity E namespace pods ?peers) (\<lambda>r.
      run_bind (judge E PF 80 ProtocolTCP ClusterIP r False True) (\<lambda>_. run_return ()))"
  have "\<forall>r \<in> set pods. p_Containers (?h ! r) \<noteq> [] \<and> p_Namespace (?h ! r) = namespace"
    using ready named by (auto simp: test_ready_def pods_ready_def has_named_container_def pods_named_def)
  note collect = affinity_peers_steady [OF E(1,3) this, of ip "[]"]
  have "fold (\<lambda>r. AList.update (p_Name (?h ! r)) (first_peer (?a r))) pods [] = ?peers"
    using fold_update_new [OF dist, of "[]" "\<lambda>r. first_peer (?a r)"] by simp
  from collect [unfolded this] obtain w where
    p: "affinity_peers E namespace ip pods [] b = (Returns ?peers, b\<lparr>b_kube := (b_kube b)\<lparr>k_world := w\<rparr>,
          b_errors := b_errors b + length (filter (\<lambda>r. ?a r = None) pods)\<rparr>)" (is "_ = (_, ?b)")
    by blast
  have check: "\<exists>c1. ?check c = (Returns (), c1) \<and> test_ready pods c1 \<and> k_pods (b_kube c1) = ?h \<and>
      b_errors c1 = b_errors c + of_bool (\<exists>r \<in> set pods. ?a r \<in> {None, Some ''''})"
    if "test_ready pods c" "k_pods (b_kube c) = ?h" for c
    using affinity_check [OF E(2,3) that(1), of namespace ip ?peers PF] named dist ip by (simp add: that(2))
  have "test_ready pods ?b" using ready by (simp add: test_ready_def)
  from check [OF this] obtain c1 where 1: "?check ?b = (Returns (), c1)" "test_ready pods c1" "k_pods (b_kube c1) = ?h"
    "b_errors c1 = b_errors ?b + of_bool (\<exists>r \<in> set pods. ?a r \<in> {None, Some ''''})" by auto
  from check [OF 1(2,3)] obtain c2 where 2: "?check c1 = (Returns (), c2)" "test_ready pods c2" "k_pods (b_kube c2) = ?h"
    "b_errors c2 = b_errors c1 + of_bool (\<exists>r \<in> set pods. ?a r \<in> {None, Some ''''})" by auto
  from check [OF 2(2,3)] obtain c3 where 3: "?check c2 = (Returns (), c3)" "test_ready pods c3" "k_pods (b_kube c3) = ?h"
    "b_errors c3 = b_errors c2 + of_bool (\<exists>r \<in> set pods. ?a r \<in> {None, Some ''''})" by auto
  have loop: "run_each (\<lambda>_. ?check) [0 ..< (3 :: nat)] ?b = (Returns (), c3)"
    using 1(1) 2(1) 3(1) by (simp add: numeral_3_eq_3 run_bind_def run_return_def)
  obtain c4 where 4: "run_bind (expect_affinity E namespace pods ?peers) (\<lambda>r.
      run_bind (validate E PF \<lparr>tc_ToPort = 81, tc_Protocol = ProtocolTCP, tc_Reachability = Some r,
        tc_ServiceType = ClusterIP\<rparr> False True False) (\<lambda>_. run_return ())) c3 = (Returns (), c4)"
      "k_pods (b_kube c4) = ?h" "b_errors c4 = b_errors c3"
    using affinity_other_port [OF E(2,3) 3(2), of namespace ?peers "\<lambda>r. first_peer (?a r)" PF] named dist by (auto simp: 3(3))
  have start: "pod_at (r0 # rest) 0 b = (Returns r0, b)" "read_pod r0 (\<lambda>p. Inr (GetClusterIP p)) b = (Returns ip, b)"
    using ip by (simp_all add: pod_at_def read_pod_def on_board_def pod_accessors)
  have "affinity_assess E PF namespace (r0 # rest) pods b = (Returns (), c4)"
    unfolding affinity_assess_def run_bind_def [of "pod_at _ _"] start prod.case run.case run_bind_def [of "read_pod _ _"]
      run_bind_def [of "affinity_peers _ _ _ _ _"] p run_bind_def [of "run_each _ _"] loop by (rule 4(1))
  moreover have "b_errors c4 = b_errors b + length (filter (\<lambda>r. ?a r = None) pods) +
      3 * of_bool (\<exists>r \<in> set pods. ?a r \<in> {None, Some ''''})"
    unfolding 1(4) 2(4) 3(4) 4(3) by simp
  ultimately show ?thesis using 4(2) by simp
qed

end
