(* ===== verification/Local_Traffic.thy ===== *)
theory Local_Traffic
  imports Template_Features
begin

text \<open>
  The NodePort feature with local traffic policy: one service for the first pod, whose port is probed
  on the host of every pod. Only the host of that pod may answer.
\<close>

section \<open>The setup\<close>

lemma node_port_local_setup_returns:
  assumes run: "node_port_local_setup E pods testing b = (Returns (), b1)"
    and range: "testing \<in> set pods" "\<forall>r \<in> set pods. r < length (k_pods (b_kube b))"
  shows "\<exists>svc port e w w1. selects ''NodePort'' (k_pods (b_kube b) ! testing) svc \<and>
           ksExternalTrafficPolicy (s_service svc) = ''Local'' \<and> Some svc \<in> set (b_services b1) \<and>
           WaitForNodePort E svc w = Some (Inr (port, e), w1) \<and> (b_errors b1 = b_errors b \<longrightarrow> e = None) \<and>
           b_errors b \<le> b_errors b1 \<and> b_model b1 = b_model b \<and>
           length (k_pods (b_kube b1)) = length (k_pods (b_kube b)) \<and>
           (\<forall>r. addressed (k_pods (b_kube b) ! r) (k_pods (b_kube b1) ! r)) \<and>
           (\<forall>r \<in> set pods. p_ToPort (k_pods (b_kube b1) ! r) = port)"
proof -
  let ?h = "k_pods (b_kube b)"
  obtain c0 c1 c2 c3 c4 c5 c6 c7 c8 c9 c10 svc x1 e1 x2 e2 x3 e3 port e where
    0: "make_services (length pods) b = (Returns (), c0)" and
    1: "new_service (NodePortLocalService E) testing c0 = (Returns svc, c1)" and
    2: "on_world (s_Create E svc) c1 = (Returns (x1, e1), c2)" "error_if (e1 \<noteq> None) c2 = (Returns (), c3)" and
    3: "on_watch (WaitForClusterIP E svc) c3 = (Returns (x2, e2), c4)" "error_if (e2 \<noteq> None) c4 = (Returns (), c5)" and
    4: "on_watch (WaitForEndpoint E svc) c5 = (Returns (x3, e3), c6)" "error_if (e3 \<noteq> None) c6 = (Returns (), c7)" and
    5: "on_watch (WaitForNodePort E svc) c7 = (Returns (port, e), c8)" "error_if (e \<noteq> None) c8 = (Returns (), c9)" and
    6: "run_each (\<lambda>r. set_pod r (SetToPort port)) pods c9 = (Returns (), c10)" "append_service svc c10 = (Returns (), b1)"
    using run unfolding node_port_local_setup_def run_bind_Returns split_paired_Ex ex_unit prod.case
    by (elim exE conjE) (rule that)
  have c0: "k_pods (b_kube c0) = ?h" "b_model c0 = b_model b" "b_errors c0 = b_errors b"
    using 0 by (auto simp: make_services_def returns_iff)
  obtain s p sid w sid1 w1 where
    s: "NodePortLocalService E (?h ! testing) sid w = Inr ((s, p), sid1, w1)" "svc = Kube_NewService s" and
    c1: "board_view c1 = (?h[testing := p], b_services c0, b_model b, b_errors b)"
    using new_service_view [OF 1] unfolding c0 by blast
  note pod = service_with_ports_pod [OF s(1) [unfolded NodePortLocalService_def], of "''NodePort''"]
  have local: "ksExternalTrafficPolicy s = ''Local''"
    using s(1) by (auto simp: NodePortLocalService_def service_with_ports_def go_bind_eq_Inr_iff case_prod_unfold Let_def)
  obtain n where c9: "k_pods (b_kube c9) = ?h[testing := p]" "b_model c9 = b_model b" "b_errors c9 = b_errors b + n"
      "n = 0 \<longrightarrow> e = None"
    using c1 step_views(1) [OF 2(1)] step_views(3) [OF 2(2)] step_views(2) [OF 3(1)] step_views(3) [OF 3(2)]
      step_views(2) [OF 4(1)] step_views(3) [OF 4(2)] step_views(2) [OF 5(1)] step_views(3) [OF 5(2)]
    by (auto simp: board_view_def)
  obtain u u1 where wait: "WaitForNodePort E svc u = Some (Inr (port, e), u1)" using step_views(2) [OF 5(1)] by blast
  let ?g = "fold (\<lambda>r h. h[r := SetToPort port (h ! r)]) pods (?h[testing := p])"
  have b1: "k_pods (b_kube b1) = ?g" "b_model b1 = b_model b" "b_errors b1 = b_errors b + n" "Some svc \<in> set (b_services b1)"
    using 6 c9 by (auto simp: run_each_set_pod_once append_service_def returns_iff)
  have idem: "SetToPort port (SetToPort port q) = SetToPort port q" for q by (simp add: SetToPort_def)
  note writes = fold_writes [of "SetToPort port", OF idem, of pods "?h[testing := p]"]
  have a: "addressed (?h ! r) (?h[testing := p] ! r)" for r
    using pod(1) range addressed_refl by (cases "r = testing") auto
  have "addressed (?h ! r) (?g ! r)" for r
    unfolding writes(1) using a [of r] addressed_updates(3) addressed_trans by auto
  moreover have "p_ToPort (?g ! r) = port" if "r \<in> set pods" for r
    unfolding writes(1) using that range(2) by (simp add: SetToPort_def)
  moreover have "selects ''NodePort'' (?h ! testing) svc" unfolding s(2) by (rule pod(2)) simp
  moreover have "ksExternalTrafficPolicy (s_service svc) = ''Local''" by (simp add: s(2) Kube_NewService_def local)
  ultimately show ?thesis
    using wait b1 c9(4) writes(2) by (intro exI [of _ svc] exI [of _ port] exI [of _ e] exI [of _ u] exI [of _ u1]) simp
qed

section \<open>The verdict\<close>

text \<open>Some pod gets the wrong answer from the host of another: one from a host without the service, or none from the one with it.\<close>

definition local_wrong ::
  "(commandImpl \<Rightarrow> string \<times> err) \<Rightarrow> pod_store \<Rightarrow> pod_ref list \<Rightarrow> pod_ref \<Rightarrow> int \<Rightarrow> protocol \<Rightarrow> bool" where
  "local_wrong ans h pods testing port proto \<longleftrightarrow>
     (\<exists>f \<in> set pods. \<exists>t \<in> set pods. f \<noteq> t \<and> (t = testing) \<noteq> reaches ans (h ! f) (p_HostIP (h ! t)) port proto)"

lemma judge_one_steady:
  assumes E: "order_law E" "steady E ans" and ready: "test_ready pods b"
    and named: "pods_named namespace (k_pods (b_kube b)) pods"
    and dist: "distinct (map (\<lambda>r. p_Name (k_pods (b_kube b) ! r)) pods)" and testing: "testing \<in> set pods"
    and port: "\<forall>r \<in> set pods. p_ToPort (k_pods (b_kube b) ! r) = port"
  shows "\<exists>b1. judge_one E PF namespace pods testing proto b = (Returns (), b1) \<and> test_ready pods b1 \<and>
           k_pods (b_kube b1) = k_pods (b_kube b) \<and>
           b_errors b1 = b_errors b + of_bool (local_wrong ans (k_pods (b_kube b)) pods testing (sint port) proto)"
proof -
  let ?h = "k_pods (b_kube b)" and ?all = "\<lparr>peer_Namespace = namespace, peer_Pod = ''''\<rparr>"
  let ?one = "\<lparr>peer_Namespace = namespace, peer_Pod = p_Name (?h ! testing)\<rparr>"
  obtain m1 where a: "AllPods (b_model b) = (pods, m1)" using ready by (metis prod.collapse test_ready_def)
  obtain r where r: "new_reachability pods False b = (Returns r, b)" "expects ?h pods r (\<lambda>_ _. False)"
    using new_reachability_expects [of pods False b] by auto
  have "\<forall>x \<in> set pods. slash_free (?h ! x)" using named by (simp add: pods_named_def)
  from expect_peer_expects [OF r(2) this, of ?all ?one True] obtain r' where
    r': "expect_peer ?all ?one True r b = (Returns r', b)"
      "expects ?h pods r' (\<lambda>f t. if peer_matches ?all (?h ! f) \<and> peer_matches ?one (?h ! t) then True else False)"
    by blast
  have key: "p_Name (?h ! testing) = p_Name (?h ! t) \<longleftrightarrow> t = testing" if "t \<in> set pods" for t
    using dist testing that by (auto simp: distinct_map dest: inj_onD)
  have exp: "expects ?h pods r' (\<lambda>f t. t = testing)"
  proof (rule expects_cong [OF r'(2)])
    fix f t assume ft: "f \<in> set pods" "t \<in> set pods"
    have "p_Name (?h ! testing) \<noteq> ''''" using named testing by (simp add: pods_named_def)
    then show "(if peer_matches ?all (?h ! f) \<and> peer_matches ?one (?h ! t) then True else False) = (t = testing)"
      using named ft key [OF ft(2)] by (simp add: pods_named_def peer_matches_def)
  qed
  have pr: "pods_ready ?h pods" using ready by (simp add: test_ready_def)
  let ?job = "\<lambda>f t. make_job ?h (b_model b) \<lparr>tc_ToPort = 0, tc_Protocol = proto, tc_Reachability = None,
      tc_ServiceType = NodePort\<rparr> False False f t"
  from judge_steady [OF E a pr exp, of PF 0 proto NodePort True False] obtain w r1 where
    j: "judge E PF 0 proto NodePort r' True False b = (Returns r1, b\<lparr>b_model := m1, b_kube := (b_kube b)\<lparr>k_world := w\<rparr>,
         b_errors := b_errors b + of_bool (\<exists>f \<in> set pods. \<exists>t \<in> set pods. \<not> (True \<and> f = t) \<and> (t = testing) \<noteq> answer ans ?h (?job f t))\<rparr>)"
    by blast
  have "answer ans ?h (?job f t) \<longleftrightarrow> reaches ans (?h ! f) (p_HostIP (?h ! t)) (sint port) proto" if "t \<in> set pods" for f t
    using ready port that
    by (simp add: test_ready_def answer_def Let_def reaches_def probe_address_def pj_GetServiceType_def pod_accessors)
       (simp add: make_job_def pod_accessors)
  then have iff: "(\<exists>f \<in> set pods. \<exists>t \<in> set pods. \<not> (True \<and> f = t) \<and> (t = testing) \<noteq> answer ans ?h (?job f t)) =
      local_wrong ans ?h pods testing (sint port) proto" by (auto simp: local_wrong_def)
  have name: "read_pod testing (\<lambda>p. Inr (p_Name p)) b = (Returns (p_Name (?h ! testing)), b)"
    by (simp add: read_pod_def on_board_def)
  have "test_ready pods (b\<lparr>b_model := m1, b_kube := (b_kube b)\<lparr>k_world := w\<rparr>, b_errors := n\<rparr>)" for n
    using ready AllPods_cached_again [OF a] by (simp add: test_ready_def)
  then show ?thesis
    by (simp add: judge_one_def run_bind_def r(1) name r'(1) j [unfolded iff] run_return_def)
qed

text \<open>
  C11. After a setup of the NodePort feature with local traffic policy that recorded no error, on a
  steady cluster and a ready board whose pods are all in the namespace of the test, no two of one name, the assessment never panics and never ends the test. It records one error for each
  protocol on which the hosts do not answer as the policy says: the host of the tested pod has to
  answer every other pod on the port that the wait returned for its service, and the hosts of the
  other pods must not. A pod probing its own host is not judged.
\<close>

theorem node_port_local_verdict:
  assumes E: "order_law E" "steady E ans" and ready: "test_ready pods b"
    and named: "pods_named namespace (k_pods (b_kube b)) pods"
    and dist: "distinct (map (\<lambda>r. p_Name (k_pods (b_kube b) ! r)) pods)" and testing: "testing \<in> set pods"
    and run: "node_port_local_setup E pods testing b = (Returns (), b1)" "b_errors b1 = b_errors b"
  shows "\<exists>svc port w w1 b2. selects ''NodePort'' (k_pods (b_kube b) ! testing) svc \<and>
           ksExternalTrafficPolicy (s_service svc) = ''Local'' \<and> Some svc \<in> set (b_services b1) \<and>
           WaitForNodePort E svc w = Some (Inr (port, None), w1) \<and>
           node_port_local_assess E PF namespace pods testing b1 = (Returns (), b2) \<and>
           b_errors b2 = b_errors b + of_bool (local_wrong ans (k_pods (b_kube b)) pods testing (sint port) ProtocolTCP) +
             of_bool (local_wrong ans (k_pods (b_kube b)) pods testing (sint port) ProtocolUDP)"
proof -
  let ?h = "k_pods (b_kube b)" and ?h1 = "k_pods (b_kube b1)"
  have "\<forall>r \<in> set pods. r < length ?h" using ready by (simp add: test_ready_def)
  from node_port_local_setup_returns [OF run(1) testing this] run(2) obtain svc port w w1 where
    svc: "selects ''NodePort'' (?h ! testing) svc" "ksExternalTrafficPolicy (s_service svc) = ''Local''"
      "Some svc \<in> set (b_services b1)" "WaitForNodePort E svc w = Some (Inr (port, None), w1)" and
    b1: "b_model b1 = b_model b" "length ?h1 = length ?h" "\<forall>r. addressed (?h ! r) (?h1 ! r)"
      "\<forall>r \<in> set pods. p_ToPort (?h1 ! r) = port" by auto
  note ready1 = test_ready_addressed [OF ready b1(3,1,2)] and named1 = pods_named_addressed [OF b1(3) named]
  have dist1: "distinct (map (\<lambda>r. p_Name (?h1 ! r)) pods)" using dist b1(3) addressed_sel(2) by (metis (mono_tags, lifting) map_eq_conv)
  note check = judge_one_steady [OF E _ _ _ testing, of _ namespace port PF]
  from check [OF ready1 named1 dist1 b1(4), of ProtocolTCP] obtain c where
    c: "judge_one E PF namespace pods testing ProtocolTCP b1 = (Returns (), c)" "test_ready pods c" "k_pods (b_kube c) = ?h1"
      "b_errors c = b_errors b1 + of_bool (local_wrong ans ?h1 pods testing (sint port) ProtocolTCP)" by blast
  from check [OF c(2), of ProtocolUDP] named1 dist1 b1(4) obtain d where
    d: "judge_one E PF namespace pods testing ProtocolUDP c = (Returns (), d)"
      "b_errors d = b_errors c + of_bool (local_wrong ans ?h1 pods testing (sint port) ProtocolUDP)"
    unfolding c(3) by blast
  have "reaches ans (?h1 ! f) = reaches ans (?h ! f)" "p_HostIP (?h1 ! t) = p_HostIP (?h ! t)" for f t
    using reaches_addressed addressed_sel(5) b1(3) by blast+
  then have same: "local_wrong ans ?h1 pods testing = local_wrong ans ?h pods testing" by (simp add: local_wrong_def fun_eq_iff)
  have "node_port_local_assess E PF namespace pods testing b1 = (Returns (), d)"
    by (simp add: node_port_local_assess_def run_bind_def c(1) d(1))
  then show ?thesis
    using svc by (intro exI [of _ svc] exI [of _ port] exI [of _ w] exI [of _ w1] exI [of _ d])
      (simp add: d(2) c(4) same run(2))
qed

end
