(* ===== verification/Passing_Test.thy ===== *)
theory Passing_Test
  imports Suite_Test Affinity Local_Traffic
begin

text \<open>
  A cluster of two nodes on which the suite is set up and \<open>TestBasicService\<close> passes: its API server keeps
  the names of the services created last and shows them to every watch, each with its name for an
  address, and its network answers every connection but those to the endless service. Setup and test
  are evaluated on it, feature by feature, and the session affinity feature step by step.
\<close>

section \<open>The cluster\<close>

definition dress :: "string \<Rightarrow> v1_service" where
  "dress name = zero_service\<lparr>ksName := name, ksClusterIP := name, ksIngress := [''1.2.3.4''],
     ksPorts := [\<lparr>spName = '''', spProtocol = ProtocolTCP, spPort = 80, spNodePort = 81\<rparr>]\<rparr>"

definition endless_word :: "string \<Rightarrow> bool" where
  "endless_word s \<longleftrightarrow> take 7 s = ''endless''"

type_synonym api = "string list \<times> nat"

definition api_order :: "nat \<Rightarrow> api \<Rightarrow> nat list \<times> api" where
  "api_order n w = (rev [0..<n], w)"

definition api_random :: "nat \<Rightarrow> api \<Rightarrow> nat \<times> api" where
  "api_random n w = (0, w)"

definition api_wrapf :: "err \<Rightarrow> string \<Rightarrow> err" where
  "api_wrapf e msg = (case e of None \<Rightarrow> None | Some _ \<Rightarrow> Some (ErrText msg))"

definition api_stream :: "exec_request \<Rightarrow> api \<Rightarrow> (string \<times> string \<times> err) \<times> api" where
  "api_stream req w = ((''paf-0'', '''', if list_ex endless_word (rqCommand req) then refused else None), w)"

definition api_succeed :: "'a \<Rightarrow> api \<Rightarrow> err \<times> api" where
  "api_succeed x w = (None, w)"

definition api_delete :: "string \<Rightarrow> string \<Rightarrow> api \<Rightarrow> err \<times> api" where
  "api_delete ns name w = (None, w)"

definition api_patch :: "string \<Rightarrow> string \<Rightarrow> string \<Rightarrow> api \<Rightarrow> err \<times> api" where
  "api_patch ns name patch w = (None, w)"

definition api_accept :: "string \<Rightarrow> 'a \<Rightarrow> api \<Rightarrow> ('a \<times> err) \<times> api" where
  "api_accept ns x w = ((x, None), w)"

definition api_namespace :: "v1_namespace \<Rightarrow> api \<Rightarrow> (v1_namespace \<times> err) \<times> api" where
  "api_namespace ns w = ((ns, None), w)"

definition api_nodes :: "api \<Rightarrow> (v1_node list \<times> err) \<times> api" where
  "api_nodes w = (([demo_node ''n1'', demo_node ''n2''], None), w)"

definition api_pod :: "string \<Rightarrow> string \<Rightarrow> api \<Rightarrow> (v1_pod \<times> err) \<times> api" where
  "api_pod ns name w = ((demo_pod ns name PodRunning, None), w)"

definition api_service :: "string \<Rightarrow> string \<Rightarrow> api \<Rightarrow> (v1_service \<times> err) \<times> api" where
  "api_service ns name w = ((dress name, None), w)"

definition api_create :: "string \<Rightarrow> v1_service \<Rightarrow> api \<Rightarrow> (v1_service \<times> err) \<times> api" where
  "api_create ns s w = ((s, None), (ksName s # take 1 (fst w), 0))"

definition api_services :: "string \<Rightarrow> api \<Rightarrow> (nat option \<times> err) \<times> api" where
  "api_services ns w = ((Some 0, None), (fst w, 0))"

definition api_endpoints :: "string \<Rightarrow> api \<Rightarrow> (nat option \<times> err) \<times> api" where
  "api_endpoints ns w = ((Some 1, None), w)"

definition api_event :: "nat \<Rightarrow> api \<Rightarrow> watch_outcome \<times> api" where
  "api_event ch w =
     (if ch = 1 then
        (WatchEvent (WEndpoints \<lparr>keName = ''s'', keSubsets = [\<lparr>suAddresses = [''10.0.0.1''], suNotReady = []\<rparr>]\<rparr>), w)
      else if snd w < length (fst w) then (WatchEvent (WService (dress (fst w ! snd w))), (fst w, snd w + 1))
      else (WatchTimeout, w))"

definition api_poll :: "(api \<times> pending_pods \<Rightarrow> (bool \<times> err) \<times> (api \<times> pending_pods)) \<Rightarrow> api \<times> pending_pods \<Rightarrow>
    err \<times> (api \<times> pending_pods)" where
  "api_poll cond s = demo_poll 4 cond s"

definition api_client :: "api client" where
  "api_client =
     \<lparr>goOrder = api_order, randIntn = api_random, errWrapf = api_wrapf, spdyExecutor = api_succeed,
      execStream = api_stream, podsCreate = api_accept, podsGet = api_pod, podsDelete = api_delete,
      podsPatch = api_patch, namespacesCreate = api_namespace, namespacesDelete = api_succeed,
      nodesList = api_nodes, servicesCreate = api_create, servicesGet = api_service,
      servicesUpdate = api_accept, servicesDelete = api_delete, servicesWatch = api_services,
      endpointsWatch = api_endpoints, watchNext = api_event, pollImmediate = api_poll\<rparr>"

definition api_answer :: "commandImpl \<Rightarrow> string \<times> err" where
  "api_answer c = (''paf-0'', if list_ex endless_word (cmd c) then refused else None)"

lemma api_laws: "wrapf_law api_client" "order_law api_client" "steady api_client api_answer"
proof -
  have a: "TrimSpace ''paf-0'' = ''paf-0''" "TrimSpace '''' = ''''" by (simp_all add: TrimSpace_def is_space_def)
  show "wrapf_law api_client" by (simp add: wrapf_law_def api_client_def api_wrapf_def)
  show "order_law api_client" by (simp add: order_law_def api_client_def api_order_def)
  show "steady api_client api_answer"
    by (simp add: steady_def Execute_def ExecWithOptions_def execute_def exec_request_of_def api_client_def api_answer_def a
        api_succeed_def api_stream_def api_wrapf_def)
qed

section \<open>A run of the test\<close>

text \<open>A framework that runs each feature and each assessment as a subtest goes on with what a feature without failures leaves.\<close>

lemma run_subtests_step:
  assumes "f_Setup f v b = (Returns v1, b1)" "f_Assess f v1 b1 = (Returns v2, b2)" "f_Teardown f v2 b2 = (Returns v3, b3)"
  shows "run_subtests (\<lambda>_. True) (f # fs) v b = run_subtests (\<lambda>_. True) fs v3 b3"
proof -
  have "subtest v1 (f_Assess f v1) b1 = (Returns v2, b2)" by (simp add: subtest_def assms(2))
  then have "subtest v (run_bind (f_Setup f v) (\<lambda>v. run_bind (subtest v (f_Assess f v)) (f_Teardown f))) b = (Returns v3, b3)"
    by (simp add: subtest_def [of v] run_bind_def assms(1,3))
  then show ?thesis by (simp add: run_bind_def)
qed

lemma run_subtests_kept:
  assumes "f_Setup f v = keeping s v" "f_Assess f v = keeping a v" "f_Teardown f v = keeping t v"
    and "run_bind s (\<lambda>_. run_bind a (\<lambda>_. t)) b = (Returns (), b1)"
  shows "run_subtests (\<lambda>_. True) (f # fs) v b = run_subtests (\<lambda>_. True) fs v b1"
proof -
  obtain c1 c2 where "s b = (Returns (), c1)" "a c1 = (Returns (), c2)" "t c2 = (Returns (), b1)"
    using assms(4) by (auto simp: run_bind_Returns)
  then show ?thesis
    by (intro run_subtests_step [of _ _ _ v c1 v c2]) (simp_all add: assms(1-3) keeping_def run_bind_def run_return_def)
qed

text \<open>Updates of label maps are evaluated where they are looked up.\<close>

declare fun_upd_def [code del]
declare fun_upd_apply [code]

definition no_bandwidth :: "string \<Rightarrow> float64 \<times> err" where
  "no_bandwidth s = (Fin 0, None)"

text \<open>
  The boards between the features differ in the services last created, the counter, and the services of
  the last feature, which the next one forgets.
\<close>

definition api_container :: "string \<Rightarrow> protocol \<Rightarrow> int32 \<Rightarrow> container" where
  "api_container name proto port =
     \<lparr>c_Name = name, c_Image = NotSpecifiedImage, c_Command = [], c_Protocol = proto, c_Port = port\<rparr>"

definition api_suite_pod :: "string \<Rightarrow> pod" where
  "api_suite_pod name =
     (new_pod ''x'' name
        [api_container ''cont-80-tcp'' ProtocolTCP 80, api_container ''cont-80-udp'' ProtocolUDP 80,
         api_container ''cont-81-tcp'' ProtocolTCP 81, api_container ''cont-81-udp'' ProtocolUDP 81])
     \<lparr>p_NodeName := ''n1'', p_PodIP := ''10.0.0.1'', p_HostIP := ''192.168.0.1'', p_Labels := Some [''pod'' \<mapsto> name]\<rparr>"

definition api_model :: model where
  "api_model = \<lparr>m_pods = Some [0, 1], m_ports = Some [80, 81], m_protocols = Some [ProtocolTCP, ProtocolUDP],
     m_Namespaces = [\<lparr>ns_Name = ''x'', ns_Pods = [0, 1]\<rparr>], m_dnsDomain = ''cluster.local''\<rparr>"

definition api_state :: "model \<Rightarrow> pod_store \<Rightarrow> api \<Rightarrow> svc_id \<Rightarrow> service option list \<Rightarrow> api board" where
  "api_state m pods w sid services =
     \<lparr>b_model = m, b_kube = \<lparr>k_pods = pods, k_PendingPods = [], k_world = w\<rparr>,
      b_sid = sid, b_services = services, b_errors = 0\<rparr>"

definition api_board :: "api \<Rightarrow> svc_id \<Rightarrow> service option list \<Rightarrow> api board" where
  "api_board = api_state api_model [api_suite_pod ''pod-1'', api_suite_pod ''pod-2'']"

text \<open>What the session affinity feature adds: two pods, and one address on all.\<close>

definition api_affinity_pod :: "string \<Rightarrow> pod" where
  "api_affinity_pod name =
     (api_suite_pod name)
       \<lparr>p_Containers := [api_container ''cont-80-tcp'' ProtocolTCP 80, api_container ''cont-81-tcp'' ProtocolTCP 81],
        p_Labels := Some (affinity_labels(''pod'' \<mapsto> name))\<rparr>"

definition affinity_model :: model where
  "affinity_model = api_model\<lparr>m_pods := Some [0, 1, 2, 3], m_Namespaces := [\<lparr>ns_Name = ''x'', ns_Pods = [0, 1, 2, 3]\<rparr>]\<rparr>"

definition affinity_board :: "api board" where
  "affinity_board = api_state affinity_model
     (map (SetClusterIP ''service-session-affinity-11'')
        [api_suite_pod ''pod-1'', api_suite_pod ''pod-2'', api_affinity_pod ''paf-0'', api_affinity_pod ''paf-1''])
     ([''service-session-affinity-11'', ''hairpin-10''], 1) (Some 11)
     [Some (Kube_NewService (template_service (affinity_template ''x'') 11))]"

definition affinity_answers :: "(string, string) gomap" where
  "affinity_answers = map (\<lambda>name. (name, ''paf-0'')) [''pod-1'', ''pod-2'', ''paf-0'', ''paf-1'']"

text \<open>Before the setup of the suite there is no model and no pod.\<close>

definition empty_board :: "api board" where
  "empty_board = \<lparr>b_model = \<lparr>m_pods = None, m_ports = None, m_protocols = None, m_Namespaces = [], m_dnsDomain = ''''\<rparr>,
     b_kube = \<lparr>k_pods = [], k_PendingPods = [], k_world = ([], 0)\<rparr>, b_sid = None, b_services = [], b_errors = 0\<rparr>"

definition forget :: "unit run \<times> api board \<Rightarrow> unit run \<times> api board" where
  "forget r = (fst r, (snd r)\<lparr>b_services := []\<rparr>)"

lemma forget_board:
  assumes "forget r = (Returns (), api_state m pods w sid [])"
  shows "\<exists>services. r = (Returns (), api_state m pods w sid services)"
proof -
  have "snd r = (snd r)\<lparr>b_services := []\<rparr>\<lparr>b_services := b_services (snd r)\<rparr>" by simp
  with assms have "snd r = api_state m pods w sid (b_services (snd r))" by (simp add: forget_def api_state_def)
  with assms show ?thesis by (intro exI [of _ "b_services (snd r)"]) (simp add: forget_def prod_eq_iff)
qed

lemma api_deletes: "Services_Delete api_client ss w = (None, w)"
  by (induction api_client ss w rule: Services_Delete.induct) (simp_all add: s_Delete_def api_client_def api_delete_def)

text \<open>A run is compared with a board whose label maps are functions: under an arbitrary predicate.\<close>

lemma same_outcome:
  fixes x y :: "'a run \<times> api board"
  assumes "\<And>P. P y \<longrightarrow> P x"
  shows "x = y"
  using assms [of "\<lambda>z. z = y"] by simp

lemma api_suite: "suite_setup api_client no_bandwidth ''x'' empty_board = (Returns (), api_board ([], 0) None [])"
  by (rule same_outcome, code_simp, simp only: fun_upd_upd simp_thms)

lemma api_cluster_ip:
  "\<exists>services. run_bind (cluster_ip_setup api_client [0, 1]) (\<lambda>_. run_bind (cluster_ip_assess api_client no_bandwidth [0, 1]) (\<lambda>_. reset_board api_client))
     (api_board ([], 0) None sv) = (Returns (), api_board ([''s-x-pod-2-2'', ''s-x-pod-1-1''], 1) (Some 2) services)"
  unfolding api_board_def by (rule forget_board, rule same_outcome, code_simp, simp only: fun_upd_upd simp_thms)

lemma api_node_port:
  "\<exists>services. run_bind (node_port_setup api_client [0, 1]) (\<lambda>_. run_bind (node_port_assess api_client no_bandwidth [0, 1]) (\<lambda>_. reset_board api_client))
     (api_board ([''s-x-pod-2-2'', ''s-x-pod-1-1''], 1) (Some 2) sv) = (Returns (), api_board ([''s-x-pod-2-4'', ''s-x-pod-1-3''], 1) (Some 4) services)"
  unfolding api_board_def by (rule forget_board, rule same_outcome, code_simp, simp only: fun_upd_upd simp_thms)

text \<open>The LoadBalancer feature, step by step: a pod with the addresses of its two services, the checks, the cleanup.\<close>

definition balanced_pod :: "string \<Rightarrow> pod" where
  "balanced_pod name = (api_suite_pod name)\<lparr>p_ToPort := 80,
     p_ExternalIPs := NewExternalIPs [''1.2.3.4''] ProtocolTCP @ NewExternalIPs [''1.2.3.4''] ProtocolUDP\<rparr>"

lemma api_load_balancer_pod_1:
  "\<exists>services. load_balancer_pod api_client 0
     (api_state api_model [api_suite_pod ''pod-1'', api_suite_pod ''pod-2''] ([''s-x-pod-2-4'', ''s-x-pod-1-3''], 1) (Some 4) sv) =
     (Returns (), api_state api_model [balanced_pod ''pod-1'', api_suite_pod ''pod-2'']
        ([''s-x-pod-1-6'', ''s-x-pod-1-5''], 2) (Some 6) services)"
  by (rule forget_board, rule same_outcome, code_simp, simp only: fun_upd_upd simp_thms)

lemma api_load_balancer_pod_2:
  "\<exists>services. load_balancer_pod api_client 1
     (api_state api_model [balanced_pod ''pod-1'', api_suite_pod ''pod-2''] ([''s-x-pod-1-6'', ''s-x-pod-1-5''], 2) (Some 6) sv) =
     (Returns (), api_state api_model [balanced_pod ''pod-1'', balanced_pod ''pod-2'']
        ([''s-x-pod-2-8'', ''s-x-pod-2-7''], 2) (Some 8) services)"
  by (rule forget_board, rule same_outcome, code_simp, simp only: fun_upd_upd simp_thms)

lemma api_load_balancer_checks:
  "judge_all api_client no_bandwidth [0, 1] 0 LoadBalancer ProtocolTCP
     (api_state api_model [balanced_pod ''pod-1'', balanced_pod ''pod-2''] w sid sv) =
     (Returns (), api_state api_model [balanced_pod ''pod-1'', balanced_pod ''pod-2''] w sid sv)"
  "judge_all api_client no_bandwidth [0, 1] 0 LoadBalancer ProtocolUDP
     (api_state api_model [balanced_pod ''pod-1'', balanced_pod ''pod-2''] w sid sv) =
     (Returns (), api_state api_model [balanced_pod ''pod-1'', balanced_pod ''pod-2''] w sid sv)"
  by (rule same_outcome, code_simp, simp only: simp_thms)+

lemma api_load_balancer_reset:
  "reset_board api_client (api_state api_model [balanced_pod ''pod-1'', balanced_pod ''pod-2''] w sid sv) =
     (Returns (), api_board w sid sv)"
  by (simp add: reset_board_def run_bind_def on_board_def ResetTestBoard_def api_deletes ResetAllPods_def AllPods_def
      fatal_if_def api_state_def api_board_def api_model_def balanced_pod_def api_suite_pod_def new_pod_def p_Reset_def)

lemma api_load_balancer:
  "\<exists>services. run_bind (load_balancer_setup api_client [0, 1]) (\<lambda>_. run_bind (load_balancer_assess api_client no_bandwidth [0, 1])
     (\<lambda>_. reset_board api_client)) (api_board ([''s-x-pod-2-4'', ''s-x-pod-1-3''], 1) (Some 4) sv) =
     (Returns (), api_board ([''s-x-pod-2-8'', ''s-x-pod-2-7''], 2) (Some 8) services)"
proof -
  let ?none = "replicate (length [0, 1 :: nat]) None"
  have make: "make_services (length [0, 1 :: nat]) (api_board w sid sv) = (Returns (), api_board w sid ?none)" for w sid
    by (simp add: make_services_def put_board_def api_board_def api_state_def)
  obtain s1 where 1: "load_balancer_pod api_client 0 (api_board ([''s-x-pod-2-4'', ''s-x-pod-1-3''], 1) (Some 4) ?none) =
      (Returns (), api_state api_model [balanced_pod ''pod-1'', api_suite_pod ''pod-2'']
        ([''s-x-pod-1-6'', ''s-x-pod-1-5''], 2) (Some 6) s1)"
    using api_load_balancer_pod_1 unfolding api_board_def by blast
  obtain s2 where 2: "load_balancer_pod api_client 1 (api_state api_model [balanced_pod ''pod-1'', api_suite_pod ''pod-2'']
        ([''s-x-pod-1-6'', ''s-x-pod-1-5''], 2) (Some 6) s1) =
      (Returns (), api_state api_model [balanced_pod ''pod-1'', balanced_pod ''pod-2'']
        ([''s-x-pod-2-8'', ''s-x-pod-2-7''], 2) (Some 8) s2)"
    using api_load_balancer_pod_2 by blast
  have setups: "load_balancer_setup api_client [0, 1] (api_board ([''s-x-pod-2-4'', ''s-x-pod-1-3''], 1) (Some 4) sv) =
      (Returns (), api_state api_model [balanced_pod ''pod-1'', balanced_pod ''pod-2'']
        ([''s-x-pod-2-8'', ''s-x-pod-2-7''], 2) (Some 8) s2)"
    by (simp only: load_balancer_setup_def run_bind_step [of "make_services _", OF make] run_each.simps run_bind_step [of "load_balancer_pod _ _", OF 1]
        run_bind_step [of "load_balancer_pod _ _", OF 2] run_return_def)
  have checks: "load_balancer_assess api_client no_bandwidth [0, 1]
      (api_state api_model [balanced_pod ''pod-1'', balanced_pod ''pod-2''] w sid sv) =
      (Returns (), api_state api_model [balanced_pod ''pod-1'', balanced_pod ''pod-2''] w sid sv)" for w sid sv
    by (simp only: load_balancer_assess_def run_bind_step [of "judge_all _ _ _ _ _ _", OF api_load_balancer_checks(1)]
        api_load_balancer_checks(2))
  show ?thesis
    by (intro exI [of _ s2]) (subst run_bind_step, rule setups, subst run_bind_step, rule checks, rule api_load_balancer_reset)
qed

lemma api_endless:
  "\<exists>services. run_bind (endless_setup api_client ''x'' [0, 1]) (\<lambda>_. run_bind (endless_assess api_client no_bandwidth ''x'') (\<lambda>_. reset_board api_client))
     (api_board ([''s-x-pod-2-8'', ''s-x-pod-2-7''], 2) (Some 8) sv) = (Returns (), api_board ([''endless-9'', ''s-x-pod-2-8''], 1) (Some 9) services)"
  unfolding api_board_def by (rule forget_board, rule same_outcome, code_simp, simp only: fun_upd_upd simp_thms)

lemma api_hairpin:
  "\<exists>services. run_bind (hairpin_setup api_client ''x'' [0, 1]) (\<lambda>_. run_bind (hairpin_assess api_client no_bandwidth ''x'' [0, 1]) (\<lambda>_. reset_board api_client))
     (api_board ([''endless-9'', ''s-x-pod-2-8''], 1) (Some 9) sv) = (Returns (), api_board ([''hairpin-10'', ''endless-9''], 1) (Some 10) services)"
  unfolding api_board_def by (rule forget_board, rule same_outcome, code_simp, simp only: fun_upd_upd simp_thms)

text \<open>The session affinity feature, step by step: its checks leave the board as it was.\<close>

lemma api_affinity_setup:
  "affinity_setup api_client ''x'' [0, 1] (api_board ([''hairpin-10'', ''endless-9''], 1) (Some 10) sv) =
     (Returns ([2, 3], [0, 1, 2, 3]), affinity_board)"
  by (rule same_outcome, code_simp, simp only: fun_upd_upd simp_thms)

lemma api_affinity_start:
  "pod_at [2, 3] 0 affinity_board = (Returns 2, affinity_board)"
  "read_pod 2 (\<lambda>p. Inr (GetClusterIP p)) affinity_board = (Returns ''service-session-affinity-11'', affinity_board)"
  by (rule same_outcome, code_simp, simp only: simp_thms)+

lemma api_affinity_peers:
  "affinity_peers api_client ''x'' ''service-session-affinity-11'' [0, 1, 2, 3] [] affinity_board =
     (Returns affinity_answers, affinity_board)"
  by (rule same_outcome, code_simp, simp only: simp_thms)

lemma api_affinity_check:
  "run_bind (expect_affinity api_client ''x'' [0, 1, 2, 3] affinity_answers) (\<lambda>r.
     run_bind (judge api_client no_bandwidth 80 ProtocolTCP ClusterIP r False True) (\<lambda>_. run_return ())) affinity_board =
     (Returns (), affinity_board)"
  by (rule same_outcome, code_simp, simp only: simp_thms)

lemma api_affinity_other_port:
  "run_bind (expect_affinity api_client ''x'' [0, 1, 2, 3] affinity_answers) (\<lambda>r.
     run_bind (validate api_client no_bandwidth \<lparr>tc_ToPort = 81, tc_Protocol = ProtocolTCP, tc_Reachability = Some r,
       tc_ServiceType = ClusterIP\<rparr> False True False) (\<lambda>_. run_return ())) affinity_board =
     (Returns (), affinity_board)"
  by (rule same_outcome, code_simp, simp only: simp_thms)

lemma api_affinity_teardown:
  "\<exists>b. affinity_teardown api_client ''x'' [2, 3] affinity_board = (Returns (), b) \<and> b_errors b = 0"
proof -
  have "map_prod id b_errors (affinity_teardown api_client ''x'' [2, 3] affinity_board) = (Returns (), 0)" by code_simp
  then show ?thesis by (cases "affinity_teardown api_client ''x'' [2, 3] affinity_board") simp
qed

lemma api_affinity:
  "\<exists>b. run_subtests (\<lambda>_. True) [featureSessionAffinity api_client no_bandwidth ''x''] ([], [0, 1])
       (api_board ([''hairpin-10'', ''endless-9''], 1) (Some 10) sv) = (Returns (), b) \<and> b_errors b = 0"
proof -
  have three: "[0 ..< (3 :: nat)] = [0, 1, 2]" by (simp add: upt_rec)
  let ?check = "run_bind (expect_affinity api_client ''x'' [0, 1, 2, 3] affinity_answers) (\<lambda>r.
     run_bind (judge api_client no_bandwidth 80 ProtocolTCP ClusterIP r False True) (\<lambda>_. run_return ()))"
  have check: "run_bind ?check k affinity_board = k () affinity_board" for k
    by (rule run_bind_step) (rule api_affinity_check)
  have loop: "run_each (\<lambda>_. ?check) [0 ..< (3 :: nat)] affinity_board = (Returns (), affinity_board)"
    by (simp only: three run_each.simps check run_return_def)
  have assess: "affinity_assess api_client no_bandwidth ''x'' [2, 3] [0, 1, 2, 3] affinity_board = (Returns (), affinity_board)"
    unfolding affinity_assess_def run_bind_step [of "pod_at _ _", OF api_affinity_start(1)]
      run_bind_step [of "read_pod _ _", OF api_affinity_start(2)]
      run_bind_step [of "affinity_peers _ _ _ _ _", OF api_affinity_peers] run_bind_step [of "run_each _ _", OF loop]
    by (rule api_affinity_other_port)
  obtain b where b: "affinity_teardown api_client ''x'' [2, 3] affinity_board = (Returns (), b)" "b_errors b = 0"
    using api_affinity_teardown by blast
  have f: "f_Setup (featureSessionAffinity api_client no_bandwidth ''x'') ([], [0, 1]) (api_board ([''hairpin-10'', ''endless-9''], 1) (Some 10) sv) =
      (Returns ([2, 3], [0, 1, 2, 3]), affinity_board)"
    "f_Assess (featureSessionAffinity api_client no_bandwidth ''x'') ([2, 3], [0, 1, 2, 3]) affinity_board =
      (Returns ([2, 3], [0, 1, 2, 3]), affinity_board)"
    "f_Teardown (featureSessionAffinity api_client no_bandwidth ''x'') ([2, 3], [0, 1, 2, 3]) affinity_board =
      (Returns ([2, 3], [0, 1, 2, 3]), b)"
    by (simp_all only: featureSessionAffinity_def feature.select_convs snd_conv fst_conv keeping_def api_affinity_setup
        run_bind_step [of "affinity_assess _ _ _ _ _", OF assess]
        run_bind_step [of "affinity_teardown _ _ _", OF b(1)] run_return_def)
  show ?thesis using run_subtests_step [OF f] b(2) by (simp add: run_return_def)
qed

section \<open>The properties on it\<close>

abbreviation start_board :: "api board" where
  "start_board \<equiv> api_board ([], 0) None []"

lemma api_basic_service:
  "\<exists>b. TestBasicService (run_subtests (\<lambda>_. True)) api_client no_bandwidth ''x'' start_board = (Returns (), b) \<and> b_errors b = 0"
proof -
  have pods: "all_pods start_board = (Returns [0, 1], start_board)"
    by (simp add: all_pods_def on_board_def api_board_def api_state_def api_model_def AllPods_def)
  have nil: "var_services start_board = (Returns (), start_board)"
    by (simp add: var_services_def put_board_def api_board_def api_state_def)
  note kept = run_subtests_kept [of _ "([], [0, 1])"]
  obtain s1 where 1: "run_bind (cluster_ip_setup api_client [0, 1]) (\<lambda>_. run_bind (cluster_ip_assess api_client no_bandwidth [0, 1])
      (\<lambda>_. reset_board api_client)) start_board = (Returns (), api_board ([''s-x-pod-2-2'', ''s-x-pod-1-1''], 1) (Some 2) s1)"
    using api_cluster_ip by blast
  obtain s2 where 2: "run_bind (node_port_setup api_client [0, 1]) (\<lambda>_. run_bind (node_port_assess api_client no_bandwidth [0, 1])
      (\<lambda>_. reset_board api_client)) (api_board ([''s-x-pod-2-2'', ''s-x-pod-1-1''], 1) (Some 2) s1) =
      (Returns (), api_board ([''s-x-pod-2-4'', ''s-x-pod-1-3''], 1) (Some 4) s2)"
    using api_node_port by blast
  obtain s3 where 3: "run_bind (load_balancer_setup api_client [0, 1]) (\<lambda>_. run_bind (load_balancer_assess api_client no_bandwidth [0, 1])
      (\<lambda>_. reset_board api_client)) (api_board ([''s-x-pod-2-4'', ''s-x-pod-1-3''], 1) (Some 4) s2) =
      (Returns (), api_board ([''s-x-pod-2-8'', ''s-x-pod-2-7''], 2) (Some 8) s3)"
    using api_load_balancer by blast
  obtain s4 where 4: "run_bind (endless_setup api_client ''x'' [0, 1]) (\<lambda>_. run_bind (endless_assess api_client no_bandwidth ''x'')
      (\<lambda>_. reset_board api_client)) (api_board ([''s-x-pod-2-8'', ''s-x-pod-2-7''], 2) (Some 8) s3) =
      (Returns (), api_board ([''endless-9'', ''s-x-pod-2-8''], 1) (Some 9) s4)"
    using api_endless by blast
  obtain s5 where 5: "run_bind (hairpin_setup api_client ''x'' [0, 1]) (\<lambda>_. run_bind (hairpin_assess api_client no_bandwidth ''x'' [0, 1])
      (\<lambda>_. reset_board api_client)) (api_board ([''endless-9'', ''s-x-pod-2-8''], 1) (Some 9) s4) =
      (Returns (), api_board ([''hairpin-10'', ''endless-9''], 1) (Some 10) s5)"
    using api_hairpin by blast
  have features: "run_subtests (\<lambda>_. True) (basic_features api_client no_bandwidth ''x'') ([], [0, 1]) start_board =
      run_subtests (\<lambda>_. True) [featureSessionAffinity api_client no_bandwidth ''x''] ([], [0, 1])
        (api_board ([''hairpin-10'', ''endless-9''], 1) (Some 10) s5)"
    unfolding basic_features_def
    by (subst kept [OF _ _ _ 1], simp_all only: featureClusterIP_def feature.select_convs snd_conv)
       (subst kept [OF _ _ _ 2], simp_all only: featureNodePort_def feature.select_convs snd_conv,
        subst kept [OF _ _ _ 3], simp_all only: featureLoadBalancer_def feature.select_convs snd_conv,
        subst kept [OF _ _ _ 4], simp_all only: featureEndlessService_def feature.select_convs snd_conv,
        subst kept [OF _ _ _ 5], simp_all only: featureHairpin_def feature.select_convs snd_conv)
  show ?thesis
    unfolding TestBasicService_def run_bind_step [of all_pods, OF pods] run_bind_step [of var_services, OF nil] features
    by (rule api_affinity)
qed

lemma api_pods:
  "k_pods (b_kube (api_board w sid sv)) = [api_suite_pod ''pod-1'', api_suite_pod ''pod-2'']"
  "b_model (api_board w sid sv) = api_model" "b_errors (api_board w sid sv) = 0" "b_sid (api_board w sid sv) = sid"
  by (simp_all add: api_board_def api_state_def)

theorem suite_services_reach_witness:
  "reach_cluster_ip api_client api_answer (api_suite_pod ''pod-1'') (api_suite_pod ''pod-2'') ProtocolUDP \<and>
   reach_node_port api_client api_answer (api_suite_pod ''pod-1'') (api_suite_pod ''pod-2'') ProtocolUDP \<and>
   reach_load_balancer api_client api_answer (api_suite_pod ''pod-1'') (api_suite_pod ''pod-2'') ProtocolUDP"
proof -
  obtain b2 where "TestBasicService (run_subtests (\<lambda>_. True)) api_client no_bandwidth ''x'' start_board = (Returns (), b2)"
      "b_errors b2 = 0"
    using api_basic_service by blast
  moreover have "b_errors empty_board = 0" by (simp add: empty_board_def)
  ultimately have "run_bind (suite_setup api_client no_bandwidth ''x'')
      (\<lambda>_. TestBasicService (run_subtests (\<lambda>_. True)) api_client no_bandwidth ''x'') empty_board = (Returns (), b2)"
      "b_errors b2 = b_errors empty_board"
    by (simp_all add: run_bind_step [of "suite_setup _ _ _", OF api_suite])
  from suite_services_reach [OF api_laws run_subtests_law this] have
    "\<forall>f \<in> {0, 1}. \<forall>t \<in> {0, 1}. \<forall>proto \<in> {ProtocolTCP, ProtocolUDP}.
       services_reach api_client api_answer (\<lambda>_. True) ([api_suite_pod ''pod-1'', api_suite_pod ''pod-2''] ! f)
         ([api_suite_pod ''pod-1'', api_suite_pod ''pod-2''] ! t) proto"
    by (simp add: api_suite api_pods Let_def api_model_def all_refs_concat)
  then have "services_reach api_client api_answer (\<lambda>_. True) (api_suite_pod ''pod-1'') (api_suite_pod ''pod-2'') ProtocolUDP"
    by (metis insertI1 insertI2 nth_Cons_0 nth_Cons_Suc One_nat_def)
  then show ?thesis by (simp add: services_reach_def)
qed

lemma api_ready: "test_ready [0, 1] start_board"
proof -
  have "\<forall>n \<in> set (suite_pods (fst (fst (GetReadyNodes api_client (k_world (b_kube empty_board)))))). CHR ''/'' \<notin> set n"
    using suite_pods_no_slash by blast
  from suite_ready_test [OF suite_setup_run [OF api_laws refl api_suite] this] show ?thesis
    by (simp add: api_pods AllPods_def api_model_def)
qed

lemma api_named: "pods_named ''x'' (k_pods (b_kube start_board)) [0, 1]"
  by (simp add: pods_named_def slash_free_def api_pods api_suite_pod_def new_pod_def)

theorem endless_feature_verdict_witness:
  "\<exists>svc ip b1 b2. endless_setup api_client ''x'' [0, 1] start_board = (Returns (), b1) \<and> ip \<noteq> '''' \<and>
     b_services b1 = [Some svc] \<and> ksName (s_service svc) = ''endless-1'' \<and>
     endless_assess api_client no_bandwidth ''x'' b1 = (Returns (), b2) \<and>
     b_errors b2 = of_bool (\<exists>name \<in> {''pod-1'', ''pod-2''}. reaches api_answer (api_suite_pod name) ip 80 ProtocolTCP)"
proof -
  have "fst (endless_setup api_client ''x'' [0, 1] start_board) = Returns ()" by code_simp
  then obtain b1 where run: "endless_setup api_client ''x'' [0, 1] start_board = (Returns (), b1)"
    by (metis prod.collapse)
  have "''endless-'' @ Itoa 1 = ''endless-1''" by (simp add: Itoa_one)
  moreover obtain svc ip b2 where "b_services b1 = [Some svc]" "ip \<noteq> ''''"
    "ksName (s_service svc) = ''endless-'' @ Itoa 1"
    "endless_assess api_client no_bandwidth ''x'' b1 = (Returns (), b2)"
    "b_errors b2 = of_bool (\<exists>name \<in> {''pod-1'', ''pod-2''}. reaches api_answer (api_suite_pod name) ip 80 ProtocolTCP)"
    using endless_feature_verdict [OF api_laws(2,3) api_ready api_named _ run, of no_bandwidth]
    by (auto simp: api_pods svc_count_def)
  ultimately show ?thesis using run by (intro exI [of _ svc] exI [of _ ip] exI [of _ b1] exI [of _ b2]) simp
qed

theorem node_port_local_verdict_witness:
  "\<exists>(port :: int32) b1 b2. node_port_local_setup api_client [0, 1] 0 start_board = (Returns (), b1) \<and> b_errors b1 = 0 \<and>
     node_port_local_assess api_client no_bandwidth ''x'' [0, 1] 0 b1 = (Returns (), b2) \<and>
     b_errors b2 = of_bool (local_wrong api_answer [api_suite_pod ''pod-1'', api_suite_pod ''pod-2''] [0, 1] 0 (sint port) ProtocolTCP) +
       of_bool (local_wrong api_answer [api_suite_pod ''pod-1'', api_suite_pod ''pod-2''] [0, 1] 0 (sint port) ProtocolUDP)"
proof -
  have "map_prod id b_errors (node_port_local_setup api_client [0, 1] 0 start_board) = (Returns (), 0)" by code_simp
  then obtain b1 where run: "node_port_local_setup api_client [0, 1] 0 start_board = (Returns (), b1)" "b_errors b1 = b_errors start_board"
    by (cases "node_port_local_setup api_client [0, 1] 0 start_board") (simp add: api_pods)
  have "distinct (map (\<lambda>r. p_Name (k_pods (b_kube start_board) ! r)) [0, 1])"
    by (simp add: api_pods api_suite_pod_def new_pod_def)
  note verdict = node_port_local_verdict [OF api_laws(2,3) api_ready api_named this _ run, of no_bandwidth]
  have "0 \<in> set [0, 1 :: nat]" by simp
  from verdict [OF this, unfolded api_pods add_0] obtain port :: int32 and b2 where
    "node_port_local_assess api_client no_bandwidth ''x'' [0, 1] 0 b1 = (Returns (), b2)"
    "b_errors b2 = of_bool (local_wrong api_answer [api_suite_pod ''pod-1'', api_suite_pod ''pod-2''] [0, 1] 0 (sint port) ProtocolTCP) +
       of_bool (local_wrong api_answer [api_suite_pod ''pod-1'', api_suite_pod ''pod-2''] [0, 1] 0 (sint port) ProtocolUDP)"
    by (elim exE conjE) (rule that, assumption+)
  with run show ?thesis unfolding api_pods by blast
qed

lemma affinity_pods:
  "k_pods (b_kube affinity_board) = map (SetClusterIP ''service-session-affinity-11'')
     [api_suite_pod ''pod-1'', api_suite_pod ''pod-2'', api_affinity_pod ''paf-0'', api_affinity_pod ''paf-1'']"
  "b_model affinity_board = affinity_model" "b_errors affinity_board = 0"
  by (simp_all add: affinity_board_def api_state_def)

lemmas affinity_pod_defs = affinity_pods SetClusterIP_def api_affinity_pod_def api_suite_pod_def new_pod_def

lemma affinity_ready:
  "test_ready [0, 1, 2, 3] affinity_board" "pods_named ''x'' (k_pods (b_kube affinity_board)) [0, 1, 2, 3]"
  "distinct (map (\<lambda>r. p_Name (k_pods (b_kube affinity_board) ! r)) [0, 1, 2, 3])"
  "\<forall>r \<in> set (2 # [0, 1, 2, 3]). p_clusterIP (k_pods (b_kube affinity_board) ! r) = ''service-session-affinity-11''"
  by (simp_all add: test_ready_def pods_named_def slash_free_def pods_ready_def pod_names_def PodString_def NewPodString_def
      has_named_container_def affinity_pod_defs affinity_model_def api_model_def AllPods_def api_container_def)

theorem affinity_feature_verdict_witness:
  "\<exists>b1. affinity_assess api_client no_bandwidth ''x'' [2, 3] [0, 1, 2, 3] affinity_board = (Returns (), b1) \<and> b_errors b1 = 0"
proof -
  have "nc_answer api_answer (k_pods (b_kube affinity_board) ! r) ''service-session-affinity-11'' 80 = Some ''paf-0''"
    if "r \<in> set [0, 1, 2, 3]" for r
  proof -
    have "list_all (\<lambda>r. nc_answer api_answer (k_pods (b_kube affinity_board) ! r) ''service-session-affinity-11'' 80 = Some ''paf-0'')
        [0, 1, 2, 3]" by code_simp
    with that show ?thesis by (simp only: list_all_iff)
  qed
  then show ?thesis
    using affinity_feature_verdict [OF api_laws affinity_ready, of no_bandwidth "[3]"]
    by (simp add: affinity_pods(3) del: set_simps) auto
qed

end
