(* ===== verification/Spec2Isabelle.thy ===== *)
theory Spec2Isabelle
  imports Http_Servers Report_Run Start_Pods Service_Counter Model_States Client_Set Feature_Faults Passing_Test
begin

text \<open>
  A model of \<open>k8s-service-validator\<close>, a program that checks the networking of a Kubernetes cluster.
  It starts pods on the ready nodes, creates services for them, runs a connect command from every
  pod to every pod, and compares the matrix of what was observed with the matrix of what is
  expected. The scenarios it checks are the features under \<open>tests/\<close>, which share one model of pods. A
  second program, \<open>cmd/report\<close>, collects the logs of such runs and prints a report.

  \<^bold>\<open>How the parts interact.\<close> A \<open>Model\<close> (\<open>pkg/matrix/model.go\<close>) holds namespaces with pods
  (\<open>pkg/entities\<close>). \<open>KubeManager\<close> (\<open>manager.go\<close>) renders them as Kubernetes objects, creates them
  through client-go, waits until they run (\<open>pkg/entities/kubernetes\<close>) and stores their addresses in
  the model. A \<open>TestCase\<close> has a \<open>Reachability\<close> (\<open>reachability.go\<close>), a pair of truth tables
  (\<open>truthtable.go\<close>) over the pods' strings. \<open>ValidateOrFail\<close> (\<open>helper.go\<close>) calls
  \<open>ProbePodToPodConnectivity\<close> (\<open>probe.go\<close>), which sends one job for each ordered pair of pods to a
  pool of goroutines; each runs a command of \<open>pkg/commands\<close> through the remote executor and reports
  a result, which is recorded with \<open>Observe\<close>. \<open>Summary\<close> compares the tables and counts.

  \<^bold>\<open>The theories\<close>, in the order of the calls.
  \<^item> \<open>Go_Base\<close>, \<open>Go_Strings\<close>, \<open>Go_Float\<close>: the Go language and standard library as far as they are
    used: panics and errors as values, loops that stop at an error, maps whose range order the
    runtime chooses, \<open>strings\<close>, \<open>strconv\<close>, \<open>net.JoinHostPort\<close>, and rounded 64-bit floats.
  \<^item> \<open>K8s_Client\<close>: the records of the Kubernetes API and the operations of libraries outside the
    repository, fields of one record \<open>client\<close>; the laws at its end state their documentation.
    \<open>Demo_Client\<close> is a concrete client that keeps the laws, for the examples.
  \<^item> \<open>Exec\<close>: \<open>kubernetes/exec.go\<close>, \<open>error.go\<close>, \<open>consts.go\<close>. \<open>Commands\<close>: \<open>pkg/commands\<close>.
  \<^item> \<open>Containers\<close>, \<open>Pods\<close>, \<open>Namespaces\<close>, \<open>Services\<close>: the files of \<open>pkg/entities\<close>. Pods are shared by
    pointers, so a pod is a position in a store of pods (\<open>pod_ref\<close>, \<open>pod_store\<close>).
  \<^item> \<open>Kube_Services\<close>: \<open>kubernetes/service.go\<close>, with the four watch loops.
  \<^item> \<open>Bandwidth\<close>: \<open>matrix/result.go\<close>. \<open>Truth_Table\<close>, \<open>Reachability\<close> (also \<open>analyzer.go\<close>), \<open>Model\<close>
    (also the list helpers of \<open>helper.go\<close>), \<open>Manager\<close>: the files of \<open>pkg/matrix\<close> of these names.
  \<^item> \<open>Probe\<close>: \<open>probe.go\<close>, the validation functions of \<open>helper.go\<close>, \<open>WaitForHTTPServers\<close>, and
    \<open>pkg/tools\<close>. There the jobs are run one after the other, in an order chosen by the runtime, and
    the results are received in another.
  \<^item> \<open>Probe_Pool\<close>: the goroutines and the two channels as a step relation. \<open>Validation\<close> and
    \<open>Http_Servers\<close>: what a validation computes on a cluster that answers steadily.
  \<^item> \<open>Start_Pods\<close>: what holds when \<open>StartPods\<close> (\<open>manager.go\<close>) returns. \<open>Model_States\<close>: the states of a
    model under any sequence of its methods, with a mark for a cache that one of them has left stale. \<open>Service_Counter\<close>: the counter of \<open>entities/service.go\<close>
    under concurrent calls of \<open>NewService\<close>, as a step relation.
    \<open>Pod_Frames\<close>: what starting a pod leaves of it as it was.
  \<^item> \<open>Client_Set\<close>: \<open>NewClientSet\<close> of \<open>helper.go\<close>, with the path functions it uses.
  \<^item> \<open>Test_Runs\<close>: the variables the functions of \<open>tests/\<close> share (a \<open>board\<close>) and the ways a step on them
    ends: it returns, ends the test, ends the program, panics, or never returns; two sets of rules,
    for what a step promises and for what a step that returned did. \<open>Suite\<close>: the setup and cleanup of
    \<open>main_test.go\<close>, and \<open>Suite_Ready\<close> what the setup leaves. \<open>Features\<close> and \<open>Features_Pods\<close>: setup,
    assessment and cleanup of every feature of the other test files; \<open>Feature_Laws\<close>: what the shared parts
    and the ClusterIP feature establish; \<open>Feature_Faults\<close>: where features miss what they mean to test.
  \<^item> \<open>Service_Features\<close>: the features that give each pod services of its own as one contract, the
    locale \<open>pod_services\<close>, interpreted for ClusterIP, NodePort and LoadBalancer; \<open>Service_Verdicts\<close> what the
    last two decide. \<open>Template_Features\<close>, \<open>Affinity\<close> and \<open>Local_Traffic\<close>: the verdicts of the endless service and of
    the hairpin feature, of session affinity, and of local traffic policy. \<open>Test_Basic\<close>: the test functions as
    wholes, each the list of features, with their labels, that it hands to \<open>testenv.Test\<close>. \<open>Suite_Test\<close>: the setup of the suite and then the
    test. \<open>Passing_Test\<close>: a cluster of two nodes on which both pass, evaluated step by step.
  \<^item> \<open>Report\<close>: \<open>cmd/report/main.go\<close>; \<open>Report_Run\<close>: what a whole run of it prints.

  \<^bold>\<open>Conventions.\<close> A definition has the name of the function it models (with a prefix where two
  files or HOL use the same name: \<open>p_\<close> pod, \<open>c_\<close> container, \<open>ps_\<close> pod string, \<open>s_\<close> kubernetes service,
  \<open>tt_\<close> truth table, \<open>agn_\<close>, \<open>iperf_\<close>, \<open>nc_\<close> commands). A method that writes through its receiver
  returns the receiver. A Go \<open>error\<close> is a value of \<open>err\<close> (\<open>None\<close> for nil); a panic is \<open>Inl\<close> of the
  sum \<open>go\<close>. \<open>int32\<close> is a 32-bit word; \<open>int\<close>, 64 bits wide in Go, is \<open>int\<close>: the program only counts
  with it. A Go map is an association list with distinct keys (\<open>gomap\<close>), ranged over in the order
  that \<open>goOrder\<close> chooses; label maps, which are only looked up, are functions. The world \<open>'w\<close>
  is whatever the library operations read and change.

  \<^bold>\<open>What is proved.\<close> The locales state what the callers rely on, and each is interpreted on the
  model: \<open>rendered_command\<close> and its extensions (\<open>Commands\<close>), \<open>numbered_names\<close> (\<open>Services\<close>),
  \<open>watch_handler\<close> (\<open>Kube_Services\<close>), \<open>pair_table\<close> (\<open>Truth_Table\<close>, also for observations in \<open>Reachability\<close>),
  \<open>job_probe\<close> (\<open>Probe_Pool\<close>, also for steady clusters in \<open>Validation\<close>), \<open>kept_pods\<close> (\<open>Pod_Frames\<close>),
  \<open>pod_services\<close> (\<open>Service_Features\<close>).
  The numbered properties C1 to C39 stand at the ends of the theories.
  \<^item> This theory: a validation counts exactly the pairs whose connectivity is not the expected one,
    with or without a bandwidth (C1, C2), the wait for the servers is exact (C14), and the
    concurrent pool refines the sequential model, never gets stuck and always ends (C3, C4, C5).
  \<^item> The suite and its features, which compose the parts: what the setup of the suite leaves (C6,
    \<open>Suite_Ready\<close>), what a run of the setup and \<open>TestBasicService\<close> without errors has seen of the features the
    flags select (C7, \<open>Suite_Test\<close>, from lemma \<open>basic_services_reach\<close> of \<open>Test_Basic\<close>), what the ClusterIP
    feature sets up (C15, \<open>Feature_Laws\<close>), the verdicts of the features: ClusterIP, NodePort, LoadBalancer,
    NodePort with local traffic, session affinity, endless service (C8 to C13), what a cleanup leaves
    (C18), and where features miss their purpose (C30 to C32, \<open>Feature_Faults\<close>; C33, \<open>Template_Features\<close>).
  \<^item> What \<open>StartPods\<close> leaves behind in model and cluster (C16, \<open>Start_Pods\<close>), and the invariant of the
    model under its methods (C17, \<open>Model_States\<close>).
  \<^item> Tables and expectations: C19, C20, C21. The whole run of the report program: C22
    (\<open>Report_Run\<close>). Removing a pod from the model and its cache: C23.
  \<^item> The cluster: waiting and removing: C24 to C26; watches and labels: C27 to C29; the
    client set: C34.
  \<^item> Entities: pod strings and rendering, C35 and C36; the service counter, C37 and C38; bandwidth, C39.

  \<^bold>\<open>Bounds.\<close> Loops of the code with a constant bound recurse on it: ten tries in
  \<open>WaitForHTTPServers\<close>, three in the netcat probe. The pool has the three workers that the loop from
  1 to below \<open>numberOfWorkers\<close> (4) starts; C5 bounds its runs by \<open>5 n + 4\<close> steps. No fuel is used: the
  watch loops, which may never return, are partial functions whose value is then \<open>None\<close>, and
  \<open>wait.PollImmediate\<close> is a library operation.

  \<^bold>\<open>What is left out.\<close> Logging (zap) and printing to the console; time (sleeps, timers and timeouts
  are choices of the world); contexts, which are always the background context; of \<open>TestMain\<close> the
  flags, the logger and the Sonobuoy reports, which are only input and output. The e2e framework is a
  parameter, the argument \<open>testenv_Test\<close> of the test functions: \<open>framework_law\<close> states what C7 relies on, that
  a test which passes has run, of each feature that the flags \<open>--labels\<close> and \<open>--skip-labels\<close> select by its labels, the setup, the
  assessment and the teardown in this order; \<open>run_subtests\<close> is a framework that keeps it, for the example. The
  parallel writes that two workers make to one container's name (\<open>GetName\<close> stores the name it makes
  up) are modelled as taking turns, and so are the calls of \<open>NewService\<close> everywhere but in
  \<open>Service_Counter\<close>. Of a Kubernetes object only the fields the program sets or reads are modelled.
\<close>

section \<open>A small board, for the examples\<close>

text \<open>The two pods of the examples in one namespace, and a fresh reachability over them.\<close>

definition demo_kube :: "nat kube" where
  "demo_kube = \<lparr>k_pods = demo_store, k_PendingPods = [], k_world = 0\<rparr>"

definition demo_model :: model where
  "demo_model = \<lparr>m_pods = None, m_ports = None, m_protocols = None,
     m_Namespaces = [\<lparr>ns_Name = ''x'', ns_Pods = [0, 1]\<rparr>], m_dnsDomain = ''cluster.local''\<rparr>"

definition demo_reach :: reachability where
  "demo_reach = NewReachability (k_pods demo_kube) [0, 1] True"

definition demo_case :: test_case where
  "demo_case = \<lparr>tc_ToPort = 80, tc_Protocol = ProtocolTCP, tc_Reachability = Some demo_reach, tc_ServiceType = PodIP\<rparr>"

definition demo_ans :: "commandImpl \<Rightarrow> string \<times> err" where
  "demo_ans c = (if podFrom c = ''a'' then ('''', None) else ('''', refused))"

lemma demo_steady: "steady demo_client demo_ans"
proof -
  have "TrimSpace [] = []" by (simp add: TrimSpace_def)
  then show ?thesis
    by (simp add: steady_def Execute_def ExecWithOptions_def execute_def exec_request_of_def
          demo_client_def demo_ans_def refused_def)
qed

lemma demo_AllPods: "AllPods demo_model = ([0, 1], demo_model\<lparr>m_pods := Some [0, 1]\<rparr>)"
  by (simp add: AllPods_def demo_model_def all_refs_concat Let_def)

lemma demo_pods_ready: "pods_ready (k_pods demo_kube) [0, 1]"
  by (simp add: pods_ready_def demo_kube_def demo_store_def demo_board_pod_def has_named_container_def new_pod_def
        pod_names_def PodString_def NewPodString_def)

lemma demo_ready: "ready_board (k_pods demo_kube) [0, 1] demo_reach"
  using demo_pods_ready NewReachability_over [of "k_pods demo_kube" "[0, 1]" True]
  by (simp add: ready_board_def pods_ready_def demo_reach_def)

lemma demo_expected:
  "x \<in> {0, 1} \<Longrightarrow> y \<in> {0, 1} \<Longrightarrow>
     tt_Get (Expected demo_reach) (PodString (k_pods demo_kube ! x)) (PodString (k_pods demo_kube ! y))"
  unfolding demo_reach_def
  by (subst NewReachability_expected) (auto simp: pod_names_def)

definition demo_parse :: "string \<Rightarrow> float64 \<times> err" where
  "demo_parse s = (Fin 0, None)"

definition demo_job :: "nat \<Rightarrow> nat \<Rightarrow> probe_job" where
  "demo_job = make_job (k_pods demo_kube) demo_model demo_case False False"

lemma demo_kube_pods: "k_pods demo_kube = demo_store"
  by (simp add: demo_kube_def)

lemma demo_answer:
  "answer demo_ans (k_pods demo_kube) (demo_job 0 y)"
  "y \<in> {0, 1} \<Longrightarrow> \<not> answer demo_ans (k_pods demo_kube) (demo_job 1 y)"
proof -
  have pod: "podFrom (NewAgnHostClient ns p cont addr port proto) = p" for ns p cont addr port proto
    by (simp add: NewAgnHostClient_def)
  have ans: "demo_ans (NewAgnHostClient ns p cont addr port proto) = (if p = ''a'' then ('''', None) else ('''', refused))"
    for ns p cont addr port proto unfolding demo_ans_def pod ..
  show "answer demo_ans (k_pods demo_kube) (demo_job 0 y)"
    unfolding answer_def Let_def demo_job_def make_job_sel ans demo_kube_pods demo_pods by simp
  assume "y \<in> {0, 1}"
  then have "\<not> p_SkipProbe (k_pods demo_kube ! y)" using demo_pods by (auto simp: demo_kube_pods)
  then show "\<not> answer demo_ans (k_pods demo_kube) (demo_job 1 y)"
    unfolding answer_def Let_def demo_job_def make_job_sel ans demo_kube_pods demo_pods by (simp add: refused_def)
qed

lemma demo_bad:
  "bad_pairs True False (k_pods demo_kube) [0, 1] demo_reach
     (\<lambda>f t. (answer demo_ans (k_pods demo_kube) (make_job (k_pods demo_kube) demo_model demo_case False False f t), None)) =
   {(1, 0)}" (is "?bad = _")
proof -
  have "(f, t) \<in> ?bad \<longleftrightarrow> (f, t) = (1, 0)" for f t
    using demo_expected [of f t] demo_answer(1) [of t] demo_answer(2) [of t]
    by (auto simp: bad_pairs_def demo_job_def)
  then show ?thesis by auto
qed

section \<open>Validation as a whole\<close>

text \<open>
  C1. On a cluster that answers each command the same way every time, and a board whose pods have different
  pod strings and named containers and whose tables are over these pods, \<open>ValidateOrFail\<close> returns the
  number of ordered pairs of pods whose connectivity is not the expected one (without the pairs of
  a pod with itself, when loopback is ignored), whatever the order in which the workers serve the
  jobs and the results arrive.
\<close>

theorem validation_counts_wrong_pairs:
  assumes "order_law E" and "steady E ans"
    and "AllPods m = (pods, m1)" and "ready_board (k_pods k) pods r" and "tc_Reachability tc = Some r"
  shows "\<exists>tc' w. ValidateOrFail E PF m tc ignoreLoopback reachTargetPod k =
           Inr (card {(f, t). f \<in> set pods \<and> t \<in> set pods \<and> \<not> (ignoreLoopback \<and> f = t) \<and>
                        tt_Get (Expected r) (PodString (k_pods k ! f)) (PodString (k_pods k ! t)) \<noteq>
                        answer ans (k_pods k) (make_job (k_pods k) m tc reachTargetPod False f t)},
                tc', m1, k\<lparr>k_world := w\<rparr>)"
  using Validate_steady [OF assms, of PF ignoreLoopback reachTargetPod] by (simp add: bad_pairs_def)

theorem validation_counts_wrong_pairs_witness:
  "\<exists>tc' w. ValidateOrFail demo_client demo_parse demo_model demo_case True False demo_kube =
     Inr (1, tc', demo_model\<lparr>m_pods := Some [0, 1]\<rparr>, demo_kube\<lparr>k_world := w\<rparr>)"
proof -
  have "tc_Reachability demo_case = Some demo_reach" by (simp add: demo_case_def)
  from validation_counts_wrong_pairs [OF demo_order_law demo_steady demo_AllPods demo_ready this, of demo_parse True False]
  moreover have "card {(f, t). f \<in> set [0, 1] \<and> t \<in> set [0, 1] \<and> \<not> (True \<and> f = t) \<and>
      tt_Get (Expected demo_reach) (PodString (k_pods demo_kube ! f)) (PodString (k_pods demo_kube ! t)) \<noteq>
      answer demo_ans (k_pods demo_kube) (make_job (k_pods demo_kube) demo_model demo_case False False f t)} = 1"
    using arg_cong [OF demo_bad, of card] by (simp add: bad_pairs_def)
  ultimately show ?thesis by (simp only:)
qed

text \<open>
  C2. The same for a validation that measures bandwidth, on a cluster whose iperf prints its nine
  fields: the wrong pairs are those with the wrong connectivity, and the connected pairs whose
  measured bandwidth is below the benchmark.
\<close>

theorem bandwidth_validation_counts:
  assumes "order_law E" and "steady E ans" and "iperf_law E"
    and "AllPods m = (pods, m1)" and "ready_board (k_pods k) pods r" and "tc_Reachability tc = Some r"
  shows "\<exists>tc' w. ValidateAndMeasureBandwidthOrFail E PF m tc ignoreLoopback reachTargetPod True k =
           Inr (card {(f, t). f \<in> set pods \<and> t \<in> set pods \<and> \<not> (ignoreLoopback \<and> f = t) \<and>
                  (let (conn, bandwidth) = reply PF ans (k_pods k) (make_job (k_pods k) m tc reachTargetPod True f t)
                   in tt_Get (Expected r) (PodString (k_pods k ! f)) (PodString (k_pods k ! t)) \<noteq> conn \<or>
                      conn \<and> too_slow bandwidth)},
                tc', m1, k\<lparr>k_world := w\<rparr>)"
  using Validate_replies [OF assms(1,2) _ assms(4-6), of True PF ignoreLoopback reachTargetPod] assms(3)
  by (simp add: bad_pairs_def case_prod_unfold Let_def)

lemma slow_reply:
  assumes "t \<in> {0, 1}"
  shows "reply demo_parse (\<lambda>c. (slow_line, None)) (k_pods demo_kube)
           (make_job (k_pods demo_kube) demo_model demo_case False True f t) = (True, Some \<lparr>Bandwidth = Fin 0\<rparr>)"
proof -
  have "\<not> p_SkipProbe (k_pods demo_kube ! t)" using assms demo_pods by (auto simp: demo_kube_pods)
  then show ?thesis unfolding reply_def Let_def make_job_sel by (simp add: demo_parse_def)
qed

theorem bandwidth_validation_counts_witness:
  "\<exists>tc' w. ValidateAndMeasureBandwidthOrFail slow_client demo_parse demo_model demo_case True False True demo_kube =
     Inr (2, tc', demo_model\<lparr>m_pods := Some [0, 1]\<rparr>, demo_kube\<lparr>k_world := w\<rparr>)"
proof -
  have "tc_Reachability demo_case = Some demo_reach" by (simp add: demo_case_def)
  note count = bandwidth_validation_counts [OF slow_laws demo_AllPods demo_ready this, of demo_parse True False]
  have slow: "too_slow (Some \<lparr>Bandwidth = Fin 0\<rparr>)"
    using below_benchmark_bits [of 0] by (simp add: too_slow_def round64_def round_float_def)
  have "{(f, t). f \<in> set [0, 1] \<and> t \<in> set [0, 1] \<and> \<not> (True \<and> f = t) \<and>
      (let (conn, bandwidth) = reply demo_parse (\<lambda>c. (slow_line, None)) (k_pods demo_kube)
             (make_job (k_pods demo_kube) demo_model demo_case False True f t)
       in tt_Get (Expected demo_reach) (PodString (k_pods demo_kube ! f)) (PodString (k_pods demo_kube ! t)) \<noteq> conn \<or>
          conn \<and> too_slow bandwidth)} = {(0, 1), (1, 0)}"
    using slow_reply slow by (auto simp: Let_def)
  then show ?thesis using count by (simp add: numeral_2_eq_2)
qed

section \<open>The pool of workers\<close>

text \<open>
  C3. Every run of the pool in which the main goroutine is done is a run of the sequential model:
  the jobs were run one after the other in some order, each exactly once, and the results received
  are those of that run, each exactly once, in some order.
\<close>

theorem pool_refines_sequential:
  assumes "\<forall>j \<in> set jobs. job_fits E h j" and "probed_store h k"
    and "pool_run (probe_one E PF) (length jobs) (pool_init jobs k) n p" and "pool_done (length jobs) p"
  shows "\<exists>is js rs. mset is = mset [0..<length jobs] \<and> mset js = mset [0..<length jobs] \<and>
           run_jobs (probe_one E PF) (in_order is jobs) k = Inr (rs, po_env p) \<and>
           map pr_Job rs = in_order is jobs \<and> po_received p = in_order js rs"
proof -
  obtain es rs where es: "mset es = mset jobs" "run_jobs (probe_one E PF) es k = Inr (rs, po_env p)"
      "map pr_Job rs = es" "mset (po_received p) = mset rs"
    using probes.pool_outcome [OF probes.pool_inv_run [OF assms(3,2,1)] assms(4,2,1)] by blast
  obtain is' where "mset is' = mset [0..<length jobs]" "in_order is' jobs = es"
    using in_order_exists [OF es(1)] by blast
  moreover have "length rs = length jobs"
    using es(1,3) by (metis length_map size_mset)
  then obtain js where "mset js = mset [0..<length jobs]" "in_order js rs = po_received p"
    using in_order_exists [OF es(4)] by auto
  ultimately show ?thesis using es(2,3) by metis
qed

text \<open>A board whose pods are not probed, and a run of its pool.\<close>

definition skip_kube :: "nat kube" where
  "skip_kube = demo_kube\<lparr>k_pods := map (\<lambda>p. p\<lparr>p_SkipProbe := True\<rparr>) (k_pods demo_kube)\<rparr>"

definition skip_result :: probe_results where
  "skip_result = \<lparr>pr_Job = demo_job 0 1, pr_IsConnected = True, pr_Err = None, pr_Command = ''skip'',
     pr_Endpoint = '''', pr_Bandwidth = None\<rparr>"

lemma skip_probe: "probe_one demo_client PF (demo_job 0 1) skip_kube = Inr (skip_result, skip_kube)"
  by (simp add: probe_one_def Let_def demo_job_def skip_kube_def demo_kube_def demo_store_def skip_result_def)

lemma skip_fits: "\<forall>j \<in> set [demo_job 0 1]. job_fits demo_client (k_pods skip_kube) j"
  by (simp add: job_fits_def demo_job_def skip_kube_def demo_kube_def demo_store_def)

lemma skip_store: "probed_store (k_pods skip_kube) skip_kube"
  by (simp add: probed_store_def same_pod_def skip_kube_def demo_kube_def demo_store_def demo_board_pod_def new_pod_def)

definition skip_pool ::
  "probe_job list \<Rightarrow> probe_job list \<Rightarrow> bool \<Rightarrow> (probe_job, probe_results) worker \<Rightarrow> probe_results list \<Rightarrow>
   probe_results list \<Rightarrow> (probe_job, probe_results, nat kube) pool" where
  "skip_pool tosend jobs fin x results received =
     \<lparr>po_tosend = tosend, po_jobs = jobs, po_closed = fin, po_workers = [x, Idle, Idle],
      po_results = results, po_received = received, po_env = skip_kube\<rparr>"

lemma skip_run:
  "pool_run (probe_one demo_client PF) 1 (pool_init [demo_job 0 1] skip_kube) 6
     (skip_pool [] [] True Idle [] [skip_result])"
proof -
  let ?step = "pool_step (probe_one demo_client PF) 1" and ?j = "demo_job 0 1"
  have start: "pool_init [?j] skip_kube = skip_pool [?j] [] False Idle [] []"
    by (simp add: pool_init_def skip_pool_def numberOfWorkers_def upt_rec)
  have 1: "?step (skip_pool [?j] [] False Idle [] []) (skip_pool [] [?j] False Idle [] [])"
    using send [of "skip_pool [?j] [] False Idle [] []" ?j "[]" 1] by (simp add: skip_pool_def)
  have 2: "?step (skip_pool [] [?j] False Idle [] []) (skip_pool [] [?j] True Idle [] [])"
    using close [of "skip_pool [] [?j] False Idle [] []" _ 1] by (simp add: skip_pool_def)
  have 3: "?step (skip_pool [] [?j] True Idle [] []) (skip_pool [] [] True (Busy ?j) [] [])"
    using take_job [of 0 "skip_pool [] [?j] True Idle [] []" ?j "[]" _ 1] by (simp add: skip_pool_def set_worker_def)
  have 4: "?step (skip_pool [] [] True (Busy ?j) [] []) (skip_pool [] [] True (Holding skip_result) [] [])"
    using run_job [of 0 "skip_pool [] [] True (Busy ?j) [] []" ?j "probe_one demo_client PF" skip_result skip_kube 1] skip_probe [of PF]
    by (simp add: skip_pool_def set_worker_def)
  have 5: "?step (skip_pool [] [] True (Holding skip_result) [] []) (skip_pool [] [] True Idle [skip_result] [])"
    using put_result [of 0 "skip_pool [] [] True (Holding skip_result) [] []" skip_result 1]
    by (simp add: skip_pool_def set_worker_def)
  have 6: "?step (skip_pool [] [] True Idle [skip_result] []) (skip_pool [] [] True Idle [] [skip_result])"
    using receive [of "skip_pool [] [] True Idle [skip_result] []" 1 skip_result "[]"] by (simp add: skip_pool_def)
  have "pool_run (probe_one demo_client PF) 1 (skip_pool [?j] [] False Idle [] []) (Suc (Suc (Suc (Suc (Suc (Suc 0))))))
          (skip_pool [] [] True Idle [] [skip_result])"
    by (intro run_step [OF run_step [OF run_step [OF run_step [OF run_step [OF run_step [OF run_start 1] 2] 3] 4] 5] 6])
  then show ?thesis unfolding start by (simp add: eval_nat_numeral)
qed

theorem pool_refines_sequential_witness:
  "\<exists>is js rs. mset is = mset [0..<1] \<and> mset js = mset [0..<1] \<and>
     run_jobs (probe_one demo_client demo_parse) (in_order is [demo_job 0 1]) skip_kube = Inr (rs, skip_kube) \<and>
     map pr_Job rs = in_order is [demo_job 0 1] \<and> [skip_result] = in_order js rs"
proof -
  have run: "pool_run (probe_one demo_client demo_parse) (length [demo_job 0 1]) (pool_init [demo_job 0 1] skip_kube) 6
          (skip_pool [] [] True Idle [] [skip_result])"
    using skip_run by simp
  have "pool_done (length [demo_job 0 1]) (skip_pool [] [] True Idle [] [skip_result])"
    by (simp add: pool_done_def skip_pool_def)
  from pool_refines_sequential [OF skip_fits skip_store run this] show ?thesis by (simp add: skip_pool_def)
qed

lemma pool_can_finish:
  assumes "\<forall>j \<in> set jobs. job_fits E h j" and "probed_store h k"
    and "pool_run (probe_one E PF) (length jobs) (pool_init jobs k) n p"
  shows "\<exists>i q. pool_run (probe_one E PF) (length jobs) (pool_init jobs k) (n + i) q \<and> pool_done (length jobs) q"
  using assms(3)
proof (induction "pool_work p" arbitrary: n p rule: less_induct)
  case less
  show ?case
  proof (cases "pool_done (length jobs) p")
    case True
    with less.prems show ?thesis by (metis add_0_right)
  next
    case False
    then obtain q where q: "pool_step (probe_one E PF) (length jobs) p q"
      using probes.pool_progress [OF probes.pool_inv_run [OF less.prems assms(2,1)] assms(1)] by blast
    then have "pool_work q < pool_work p" using pool_step_work by fastforce
    from less.hyps [OF this run_step [OF less.prems q]] show ?thesis by (metis add_Suc_shift)
  qed
qed

text \<open>
  C4. No run of the pool gets stuck: until the main goroutine is done, some goroutine can take a
  step, and from every state of a run the main goroutine can be brought to its end.
\<close>

theorem pool_never_stuck:
  assumes "\<forall>j \<in> set jobs. job_fits E h j" and "probed_store h k"
    and "pool_run (probe_one E PF) (length jobs) (pool_init jobs k) n p"
  shows "(if pool_done (length jobs) p then True else \<exists>q. pool_step (probe_one E PF) (length jobs) p q) \<and>
         (\<exists>i q. pool_run (probe_one E PF) (length jobs) (pool_init jobs k) (n + i) q \<and> pool_done (length jobs) q)"
  using probes.pool_progress [OF probes.pool_inv_run [OF assms(3,2,1)] assms(1)] pool_can_finish [OF assms] by simp

theorem pool_never_stuck_witness:
  "\<exists>q. pool_step (probe_one demo_client demo_parse) 1 (pool_init [demo_job 0 1] skip_kube) q"
  using pool_never_stuck [OF skip_fits skip_store run_start, of demo_parse]
  by (simp add: pool_done_def pool_init_def)

text \<open>
  C5. Every run of the pool is short: with \<open>n\<close> jobs and the three workers the code starts it has at
  most \<open>5 n + 4\<close> steps, so probing always ends.
\<close>

theorem pool_run_short:
  assumes "pool_run probe (length jobs) (pool_init jobs s) n p"
  shows "n \<le> 5 * length jobs + 4"
  by (rule pool_run_bound [OF assms])

theorem pool_run_short_witness:
  "\<exists>p. pool_run (probe_one demo_client demo_parse) (length [demo_job 0 1]) (pool_init [demo_job 0 1] skip_kube) 6 p \<and>
       (6::nat) \<le> 5 * length [demo_job 0 1] + 4"
proof (intro exI conjI)
  show run: "pool_run (probe_one demo_client demo_parse) (length [demo_job 0 1]) (pool_init [demo_job 0 1] skip_kube) 6
      (skip_pool [] [] True Idle [] [skip_result])"
    using skip_run by simp
  show "(6::nat) \<le> 5 * length [demo_job 0 1] + 4" by (rule pool_run_short [OF run])
qed

text \<open>
  After one round of probes on a steady cluster the observed matrix is the connectivity of the
  cluster: the entry of every ordered pair of pods is what a probe between them reports, whatever
  the order of service and of arrival; the expectations and the pods are untouched.
\<close>

lemma round_observes_connectivity:
  assumes "order_law E" and "steady E ans"
    and "AllPods m = (pods, m1)" and "ready_board (k_pods k) pods r" and "tc_Reachability tc = Some r"
    and "f \<in> set pods" and "t \<in> set pods"
  shows "\<exists>r' w. ProbePodToPodConnectivity E PF m tc reachTargetPod False k =
            Inr (tc\<lparr>tc_Reachability := Some r'\<rparr>, m1, k\<lparr>k_world := w\<rparr>) \<and> Expected r' = Expected r \<and>
          tt_Get (Observed r') (PodString (k_pods k ! f)) (PodString (k_pods k ! t)) =
          answer ans (k_pods k) (make_job (k_pods k) m tc reachTargetPod False f t)"
  using Probe_round [OF assms(1-5), of PF reachTargetPod] assms(6,7) by blast

text \<open>
  C14. On a steady cluster \<open>WaitForHTTPServers\<close> never panics, and it returns nil exactly when every
  ordered pair of pods is connected on every port and protocol of the model.
\<close>

theorem http_servers_ready_iff:
  assumes "order_law E" and "steady E ans" and "pods_ready (k_pods k) pods" and "fst (AllPods m) = pods"
    and "AllPortsProtocol (k_pods k) m = Inr ((ports, protocols), m1)"
  shows "\<exists>e m' k'. WaitForHTTPServers E PF m k = Inr (e, m', k') \<and>
           (e = None \<longleftrightarrow>
              (\<forall>port \<in> set ports. \<forall>proto \<in> set protocols. \<forall>f \<in> set pods. \<forall>t \<in> set pods.
                 answer ans (k_pods k) (make_job (k_pods k) m (new_case port proto) False False f t)))"
  using WaitForHTTPServers_steady [OF assms, of PF] unfolding all_connected_def by blast

lemma demo_ports: "AllPortsProtocol (k_pods demo_kube) demo_model =
    Inr (([80], [ProtocolTCP]), demo_model\<lparr>m_ports := Some [80], m_protocols := Some [ProtocolTCP]\<rparr>)"
  by (simp add: AllPortsProtocol_def demo_model_def extractPortProtocols_def demo_kube_def demo_store_def
        demo_board_pod_def new_pod_def extract_step_def Let_def)

lemma demo_new_case: "make_job (k_pods demo_kube) demo_model (new_case 80 ProtocolTCP) False False = demo_job"
  by (simp add: demo_job_def make_job_def demo_case_def new_case_def fun_eq_iff)

theorem http_servers_ready_iff_witness:
  "\<exists>e m' k'. WaitForHTTPServers demo_client demo_parse demo_model demo_kube = Inr (e, m', k') \<and> e \<noteq> None"
proof -
  have "fst (AllPods demo_model) = [0, 1]" by (simp add: demo_AllPods)
  from http_servers_ready_iff [OF demo_order_law demo_steady demo_pods_ready this demo_ports, of demo_parse]
  show ?thesis using demo_answer(2) [of 0] unfolding demo_new_case [symmetric] by fastforce
qed

end
